(* ===== verification/Prelude.thy ===== *)
theory Prelude
  imports Main "HOL-Library.Word"
begin

text \<open>
  Shared vocabulary of the development: bytes, the error values and the result type of the Go
  code, the sequencing combinators that stand for \<open>if err != nil { return err }\<close> and for the
  loops over function tables and iterators, and the generic lemmas the component theories use.
\<close>

named_theorems go_simps \<open>evaluation rules for the result type and the assemblers\<close>

type_synonym byte = "8 word"
type_synonym bytes = "byte list"
type_synonym u64 = "64 word"

section \<open>Kinds, errors and results\<close>

text \<open>The kinds of the IPLD data model, and the error values the code constructs.  \<open>Err\<close> is a
  plain message, \<open>ErrWrap\<close> is \<open>fmt.Errorf\<close> around an underlying error; the other constructors
  are the error types of the data model that the generated code returns (\<open>ErrIndexNotExists\<close> is an \<open>ErrNotExists\<close>
  whose segment is an index).\<close>

datatype kind = KNull | KBool | KInt | KFloat | KString | KBytes | KLink | KMap | KList

datatype err =
    Err string
  | ErrWrap string err
  | ErrWrongKind string
  | ErrRepeatedMapKey string
  | ErrInvalidKey string
  | ErrMissingRequiredField "string list"
  | ErrNotExists string
  | ErrNoSuchField string
  | ErrNotUnionStructure string
  | ErrIteratorOverread
  | ErrIndexNotExists int
  | ErrInvalidSegmentForList err

text \<open>A call returns a value, returns an error, or panics.\<close>

datatype 'a res = Ok 'a | Fail err | Panic string

fun is_ok :: "'a res \<Rightarrow> bool" where
  "is_ok (Ok _) = True"
| "is_ok (Fail _) = False"
| "is_ok (Panic _) = False"

fun no_panic :: "'a res \<Rightarrow> bool" where
  "no_panic (Panic _) = False"
| "no_panic (Ok _) = True"
| "no_panic (Fail _) = True"

fun andThen :: "'a res \<Rightarrow> ('a \<Rightarrow> 'b res) \<Rightarrow> 'b res" where
  "andThen (Ok x) f = f x"
| "andThen (Fail e) f = Fail e"
| "andThen (Panic m) f = Panic m"

text \<open>\<open>fmt.Errorf("msg (%v)", err)\<close> on the error path; values and panics pass through.\<close>

fun wrapErr :: "string \<Rightarrow> 'a res \<Rightarrow> 'a res" where
  "wrapErr msg (Ok x) = Ok x"
| "wrapErr msg (Fail e) = Fail (ErrWrap msg e)"
| "wrapErr msg (Panic m) = Panic m"

text \<open>Replacing the error by a fixed one, as in \<open>return fmt.Errorf("...")\<close>.\<close>

fun replErr :: "err \<Rightarrow> 'a res \<Rightarrow> 'a res" where
  "replErr e (Ok x) = Ok x"
| "replErr e (Fail _) = Fail e"
| "replErr e (Panic m) = Panic m"

text \<open>The loop over a table of functions that each update a state, stopping at the first error.\<close>

fun runAll :: "('s \<Rightarrow> 's res) list \<Rightarrow> 's \<Rightarrow> 's res" where
  "runAll [] s = Ok s"
| "runAll (f # fs) s = andThen (f s) (runAll fs)"

text \<open>The loop over an iterator that builds one element per entry.\<close>

fun traverse :: "('a \<Rightarrow> 'b res) \<Rightarrow> 'a list \<Rightarrow> 'b list res" where
  "traverse f [] = Ok []"
| "traverse f (x # xs) =
     andThen (f x) (\<lambda>y. andThen (traverse f xs) (\<lambda>ys. Ok (y # ys)))"

text \<open>The loop over a slice that threads a state.\<close>

fun forEach :: "('a \<Rightarrow> 's \<Rightarrow> 's res) \<Rightarrow> 'a list \<Rightarrow> 's \<Rightarrow> 's res" where
  "forEach f [] s = Ok s"
| "forEach f (x # xs) s = andThen (f x s) (forEach f xs)"

section \<open>Lemmas on results\<close>

lemma andThen_cong [fundef_cong]:
  "m = m' \<Longrightarrow> (\<And>x. m' = Ok x \<Longrightarrow> f x = g x) \<Longrightarrow> andThen m f = andThen m' g"
  by (cases m') auto

lemma andThen_Ok_right [simp]: "andThen m Ok = m"
  by (cases m) auto

lemma andThen_assoc: "andThen (andThen m f) g = andThen m (\<lambda>x. andThen (f x) g)"
  by (cases m) auto

lemma andThen_eq_Ok [simp]:
  "andThen m f = Ok y \<longleftrightarrow> (\<exists>x. m = Ok x \<and> f x = Ok y)"
  by (cases m) auto

lemma wrapErr_eq_Ok [simp]: "wrapErr msg m = Ok x \<longleftrightarrow> m = Ok x"
  by (cases m) auto

lemma replErr_eq_Ok [simp]: "replErr e m = Ok x \<longleftrightarrow> m = Ok x"
  by (cases m) auto

lemma is_ok_iff: "is_ok m \<longleftrightarrow> (\<exists>x. m = Ok x)"
  by (cases m) auto

lemma no_panic_andThen:
  "no_panic m \<Longrightarrow> (\<And>x. m = Ok x \<Longrightarrow> no_panic (f x)) \<Longrightarrow> no_panic (andThen m f)"
  by (cases m) auto

lemma no_panic_wrapErr [simp]: "no_panic (wrapErr msg m) = no_panic m"
  by (cases m) auto

lemma runAll_append: "runAll (fs @ gs) s = andThen (runAll fs s) (runAll gs)"
  by (induction fs arbitrary: s) (auto simp: andThen_assoc intro: andThen_cong)

lemma runAll_eta: "runAll [] = Ok" "runAll (f # fs) = (\<lambda>s. andThen (f s) (runAll fs))"
  by (simp_all add: fun_eq_iff)

lemma forEach_runAll: "forEach f xs = runAll (map f xs)"
proof
  show "forEach f xs s = runAll (map f xs) s" for s
    by (induction xs arbitrary: s) (auto intro: andThen_cong)
qed

lemma traverse_map_Ok: "(\<And>x. x \<in> set xs \<Longrightarrow> f x = Ok (g x)) \<Longrightarrow> traverse f xs = Ok (map g xs)"
  by (induction xs) auto

lemma traverse_length: "traverse f xs = Ok ys \<Longrightarrow> length ys = length xs"
  by (induction xs arbitrary: ys) auto

lemma traverse_map: "traverse f (map g xs) = traverse (\<lambda>x. f (g x)) xs"
  by (induction xs) auto

section \<open>Lemmas on lists and bits\<close>

lemma length_Suc_conv_list: "length xs = Suc n \<Longrightarrow> \<exists>y ys. xs = y # ys \<and> length ys = n"
  by (cases xs) auto

lemma map_of_keys: "distinct (map fst es) \<Longrightarrow> map (\<lambda>k. the (map_of es k)) (map fst es) = map snd es"
  by (auto simp: map_of_is_SomeI [of es])

lemma bit_add_power_int:
  assumes "\<not> bit (s :: int) i"
  shows "bit (s + 2 ^ i) j \<longleftrightarrow> bit s j \<or> j = i"
proof -
  have "s + 2 ^ i = or s (2 ^ i)"
    using assms by (intro disjunctive_add_eq_or bit_eqI) (auto simp: bit_simps)
  then show ?thesis by (auto simp: bit_simps)
qed

lemma and_mask_eq_mask_iff: "and (s :: int) (mask n) = mask n \<longleftrightarrow> (\<forall>i<n. bit s i)"
  by (auto simp: bit_eq_iff bit_simps)

end
