(* ===== verification/Schema.thy ===== *)
theory Schema
  imports Prelude
begin

text \<open>
  The DAG-ETH schema.  The first part transcribes the type system that \<open>gen.go\<close> accumulates and
  feeds to the code generator; the second part transcribes the Go types the generator has written
  to \<open>ipldsch_types.go\<close>.  The lemmas compare the two and collect what the assemblers rely on.
\<close>

section \<open>Type declarations\<close>

text \<open>One constructor per member of the type slab.\<close>

datatype tyname =
    TyAccessElement | TyAccessList | TyAccount | TyAddress | TyBalance | TyBigInt | TyBlock
  | TyBloom | TyBool | TyByteCode | TyBytes | TyChild | TyFrame | TyFrameList | TyHash | TyHeader
  | TyLink | TyLog | TyLogs | TyOpCode | TyReceipt | TyReceipts | TyStorageKeys | TyString
  | TyTime | TyTopics | TyTransaction | TyTransactions | TyTrieBranchNode | TyTrieExtensionNode
  | TyTrieLeafNode | TyTrieNode | TyTxCIDList | TyTxTrace | TyTxType | TyUint | TyUncles | TyValue

text \<open>\<open>SpawnStructField(name, type, optional, nullable)\<close>.\<close>

record field =
  fname :: string
  ftype :: tyname
  foptional :: bool
  fnullable :: bool

definition SpawnStructField :: "string \<Rightarrow> tyname \<Rightarrow> bool \<Rightarrow> bool \<Rightarrow> field" where
  "SpawnStructField nm ty opt nul = \<lparr>fname = nm, ftype = ty, foptional = opt, fnullable = nul\<rparr>"

text \<open>Union members are keyed by the name of the member type.\<close>

datatype tydecl =
    DLink | DBytes | DString | DBool
  | DStruct "field list"
  | DList tyname
  | DUnion "(string \<times> tyname) list"

section \<open>The type system of \<open>gen.go\<close>\<close>

definition gen_Header :: "field list" where
  "gen_Header =
    [SpawnStructField ''ParentCID'' TyLink False False,
     SpawnStructField ''UnclesCID'' TyLink False False,
     SpawnStructField ''Coinbase'' TyAddress False False,
     SpawnStructField ''StateRootCID'' TyLink False False,
     SpawnStructField ''TxRootCID'' TyLink False False,
     SpawnStructField ''RctRootCID'' TyLink False False,
     SpawnStructField ''Bloom'' TyBloom False False,
     SpawnStructField ''Difficulty'' TyBigInt False False,
     SpawnStructField ''Number'' TyBigInt False False,
     SpawnStructField ''GasLimit'' TyUint False False,
     SpawnStructField ''GasUsed'' TyUint False False,
     SpawnStructField ''Time'' TyTime False False,
     SpawnStructField ''Extra'' TyBytes False False,
     SpawnStructField ''MixDigest'' TyHash False False,
     SpawnStructField ''Nonce'' TyUint False False,
     SpawnStructField ''BaseFee'' TyBigInt False True]"

definition gen_AccessElement :: "field list" where
  "gen_AccessElement =
    [SpawnStructField ''Address'' TyAddress False False,
     SpawnStructField ''StorageKeys'' TyStorageKeys False False]"

definition gen_Transaction :: "field list" where
  "gen_Transaction =
    [SpawnStructField ''TxType'' TyTxType False False,
     SpawnStructField ''ChainID'' TyBigInt False True,
     SpawnStructField ''AccountNonce'' TyUint False False,
     SpawnStructField ''GasPrice'' TyBigInt False True,
     SpawnStructField ''GasTipCap'' TyBigInt False True,
     SpawnStructField ''GasFeeCap'' TyBigInt False True,
     SpawnStructField ''GasLimit'' TyUint False False,
     SpawnStructField ''Recipient'' TyAddress False True,
     SpawnStructField ''Amount'' TyBigInt False False,
     SpawnStructField ''Data'' TyBytes False False,
     SpawnStructField ''AccessList'' TyAccessList False True,
     SpawnStructField ''V'' TyBigInt False False,
     SpawnStructField ''R'' TyBigInt False False,
     SpawnStructField ''S'' TyBigInt False False]"

definition gen_Log :: "field list" where
  "gen_Log =
    [SpawnStructField ''Address'' TyAddress False False,
     SpawnStructField ''Topics'' TyTopics False False,
     SpawnStructField ''Data'' TyBytes False False]"

definition gen_Receipt :: "field list" where
  "gen_Receipt =
    [SpawnStructField ''TxType'' TyTxType False False,
     SpawnStructField ''PostState'' TyBytes False True,
     SpawnStructField ''Status'' TyUint False True,
     SpawnStructField ''CumulativeGasUsed'' TyUint False False,
     SpawnStructField ''Bloom'' TyBloom False False,
     SpawnStructField ''Logs'' TyLogs False False,
     SpawnStructField ''LogRootCID'' TyLink False False]"

definition gen_TrieBranchNode :: "field list" where
  "gen_TrieBranchNode =
    [SpawnStructField ''Child0'' TyChild False True, SpawnStructField ''Child1'' TyChild False True,
     SpawnStructField ''Child2'' TyChild False True, SpawnStructField ''Child3'' TyChild False True,
     SpawnStructField ''Child4'' TyChild False True, SpawnStructField ''Child5'' TyChild False True,
     SpawnStructField ''Child6'' TyChild False True, SpawnStructField ''Child7'' TyChild False True,
     SpawnStructField ''Child8'' TyChild False True, SpawnStructField ''Child9'' TyChild False True,
     SpawnStructField ''ChildA'' TyChild False True, SpawnStructField ''ChildB'' TyChild False True,
     SpawnStructField ''ChildC'' TyChild False True, SpawnStructField ''ChildD'' TyChild False True,
     SpawnStructField ''ChildE'' TyChild False True, SpawnStructField ''ChildF'' TyChild False True,
     SpawnStructField ''Value'' TyValue False True]"

definition gen_TrieExtensionNode :: "field list" where
  "gen_TrieExtensionNode =
    [SpawnStructField ''PartialPath'' TyBytes False False,
     SpawnStructField ''Child'' TyLink False False]"

definition gen_TrieLeafNode :: "field list" where
  "gen_TrieLeafNode =
    [SpawnStructField ''PartialPath'' TyBytes False False,
     SpawnStructField ''Value'' TyValue False False]"

definition gen_Account :: "field list" where
  "gen_Account =
    [SpawnStructField ''Nonce'' TyUint False False,
     SpawnStructField ''Balance'' TyBalance False False,
     SpawnStructField ''StorageRootCID'' TyLink False False,
     SpawnStructField ''CodeCID'' TyLink False False]"

definition gen_Frame :: "field list" where
  "gen_Frame =
    [SpawnStructField ''Op'' TyOpCode False False,
     SpawnStructField ''From'' TyAddress False False,
     SpawnStructField ''To'' TyAddress False False,
     SpawnStructField ''Input'' TyBytes False False,
     SpawnStructField ''Output'' TyBytes False False,
     SpawnStructField ''Gas'' TyUint False False,
     SpawnStructField ''Cost'' TyUint False False,
     SpawnStructField ''Value'' TyBigInt False False]"

definition gen_TxTrace :: "field list" where
  "gen_TxTrace =
    [SpawnStructField ''TxCIDs'' TyTxCIDList False False,
     SpawnStructField ''StateRootCID'' TyLink False False,
     SpawnStructField ''Result'' TyBytes False False,
     SpawnStructField ''Frames'' TyFrameList False False,
     SpawnStructField ''Gas'' TyUint False False,
     SpawnStructField ''Failed'' TyBool False False]"

definition gen_Block :: "field list" where
  "gen_Block =
    [SpawnStructField ''HeaderCID'' TyLink False False,
     SpawnStructField ''TransactionsCID'' TyLink False False,
     SpawnStructField ''ReceiptsCID'' TyLink False False]"

definition gen_Value :: "(string \<times> tyname) list" where
  "gen_Value =
    [(''Transaction'', TyTransaction), (''Receipt'', TyReceipt), (''Account'', TyAccount),
     (''Bytes'', TyBytes), (''Log'', TyLog)]"

definition gen_Child :: "(string \<times> tyname) list" where
  "gen_Child = [(''Link'', TyLink), (''TrieNode'', TyTrieNode)]"

definition gen_TrieNode :: "(string \<times> tyname) list" where
  "gen_TrieNode =
    [(''TrieBranchNode'', TyTrieBranchNode), (''TrieExtensionNode'', TyTrieExtensionNode),
     (''TrieLeafNode'', TyTrieLeafNode)]"

text \<open>The representation strategies of the unions: two by a key, one by the kind of the member.  Structs are represented as maps
  without renaming.\<close>

definition gen_Value_keyed :: "(string \<times> tyname) list" where
  "gen_Value_keyed =
    [(''tx'', TyTransaction), (''rct'', TyReceipt), (''state'', TyAccount), (''storage'', TyBytes), (''log'', TyLog)]"

definition gen_Child_kinded :: "(kind \<times> tyname) list" where
  "gen_Child_kinded = [(KLink, TyLink), (KMap, TyTrieNode)]"

definition gen_TrieNode_keyed :: "(string \<times> tyname) list" where
  "gen_TrieNode_keyed =
    [(''branch'', TyTrieBranchNode), (''extension'', TyTrieExtensionNode), (''leaf'', TyTrieLeafNode)]"

text \<open>\<open>accumulateBasicTypes\<close>.\<close>

fun accumulateBasicTypes :: "tyname \<Rightarrow> tydecl option" where
  "accumulateBasicTypes TyLink = Some DLink"
| "accumulateBasicTypes TyBytes = Some DBytes"
| "accumulateBasicTypes TyString = Some DString"
| "accumulateBasicTypes TyBigInt = Some DBytes"
| "accumulateBasicTypes TyUint = Some DBytes"
| "accumulateBasicTypes TyHash = Some DBytes"
| "accumulateBasicTypes TyAddress = Some DBytes"
| "accumulateBasicTypes TyBloom = Some DBytes"
| "accumulateBasicTypes TyBalance = Some DBytes"
| "accumulateBasicTypes TyOpCode = Some DBytes"
| "accumulateBasicTypes TyTime = Some DBytes"
| "accumulateBasicTypes TyTxType = Some DBytes"
| "accumulateBasicTypes TyBool = Some DBool"
| "accumulateBasicTypes _ = None"

fun accumulateChainTypes :: "tyname \<Rightarrow> tydecl option" where
  "accumulateChainTypes TyHeader = Some (DStruct gen_Header)"
| "accumulateChainTypes TyUncles = Some (DList TyHeader)"
| "accumulateChainTypes TyStorageKeys = Some (DList TyHash)"
| "accumulateChainTypes TyAccessElement = Some (DStruct gen_AccessElement)"
| "accumulateChainTypes TyAccessList = Some (DList TyAccessElement)"
| "accumulateChainTypes TyTransaction = Some (DStruct gen_Transaction)"
| "accumulateChainTypes TyTransactions = Some (DList TyTransaction)"
| "accumulateChainTypes TyTopics = Some (DList TyHash)"
| "accumulateChainTypes TyLog = Some (DStruct gen_Log)"
| "accumulateChainTypes TyLogs = Some (DList TyLog)"
| "accumulateChainTypes TyReceipt = Some (DStruct gen_Receipt)"
| "accumulateChainTypes TyReceipts = Some (DList TyReceipt)"
| "accumulateChainTypes _ = None"

fun accumulateConvenienceTypes :: "tyname \<Rightarrow> tydecl option" where
  "accumulateConvenienceTypes TyTxCIDList = Some (DList TyLink)"
| "accumulateConvenienceTypes TyFrame = Some (DStruct gen_Frame)"
| "accumulateConvenienceTypes TyFrameList = Some (DList TyFrame)"
| "accumulateConvenienceTypes TyTxTrace = Some (DStruct gen_TxTrace)"
| "accumulateConvenienceTypes TyBlock = Some (DStruct gen_Block)"
| "accumulateConvenienceTypes _ = None"

fun accumulateStateDataStructures :: "tyname \<Rightarrow> tydecl option" where
  "accumulateStateDataStructures TyValue = Some (DUnion gen_Value)"
| "accumulateStateDataStructures TyChild = Some (DUnion gen_Child)"
| "accumulateStateDataStructures TyTrieBranchNode = Some (DStruct gen_TrieBranchNode)"
| "accumulateStateDataStructures TyTrieExtensionNode = Some (DStruct gen_TrieExtensionNode)"
| "accumulateStateDataStructures TyTrieLeafNode = Some (DStruct gen_TrieLeafNode)"
| "accumulateStateDataStructures TyTrieNode = Some (DUnion gen_TrieNode)"
| "accumulateStateDataStructures TyByteCode = Some DBytes"
| "accumulateStateDataStructures TyAccount = Some (DStruct gen_Account)"
| "accumulateStateDataStructures _ = None"

text \<open>\<open>main\<close> accumulates the four groups in this order; a type name is declared once.\<close>

definition typeSystem :: "tyname \<Rightarrow> tydecl option" where
  "typeSystem t =
     (case accumulateBasicTypes t of Some d \<Rightarrow> Some d | None \<Rightarrow>
     (case accumulateChainTypes t of Some d \<Rightarrow> Some d | None \<Rightarrow>
     (case accumulateConvenienceTypes t of Some d \<Rightarrow> Some d | None \<Rightarrow>
      accumulateStateDataStructures t)))"

section \<open>The generated Go types of \<open>ipldsch_types.go\<close>\<close>

text \<open>A struct field holds its type, or the \<open>Maybe\<close> of its type when the field is nullable.\<close>

definition goField :: "string \<Rightarrow> tyname \<Rightarrow> field" where
  "goField nm ty = \<lparr>fname = nm, ftype = ty, foptional = False, fnullable = False\<rparr>"

definition goMaybe :: "string \<Rightarrow> tyname \<Rightarrow> field" where
  "goMaybe nm ty = \<lparr>fname = nm, ftype = ty, foptional = False, fnullable = True\<rparr>"

definition go_AccessElement :: "field list" where
  "go_AccessElement =
    [goField ''Address'' TyAddress,
     goField ''StorageKeys'' TyStorageKeys]"

definition go_Account :: "field list" where
  "go_Account =
    [goField ''Nonce'' TyUint,
     goField ''Balance'' TyBalance,
     goField ''StorageRootCID'' TyLink,
     goField ''CodeCID'' TyLink]"

definition go_Block :: "field list" where
  "go_Block =
    [goField ''Header'' TyLink,
     goField ''Transactions'' TyLink,
     goField ''Receipts'' TyLink]"

definition go_Frame :: "field list" where
  "go_Frame =
    [goField ''Op'' TyOpCode,
     goField ''From'' TyAddress,
     goField ''To'' TyAddress,
     goField ''Input'' TyBytes,
     goField ''Output'' TyBytes,
     goField ''Gas'' TyUint,
     goField ''Cost'' TyUint,
     goField ''Value'' TyBigInt]"

definition go_Header :: "field list" where
  "go_Header =
    [goField ''ParentCID'' TyLink,
     goField ''UnclesCID'' TyLink,
     goField ''Coinbase'' TyAddress,
     goField ''StateRootCID'' TyLink,
     goField ''TxRootCID'' TyLink,
     goField ''RctRootCID'' TyLink,
     goField ''Bloom'' TyBloom,
     goField ''Difficulty'' TyBigInt,
     goField ''Number'' TyBigInt,
     goField ''GasLimit'' TyUint,
     goField ''GasUsed'' TyUint,
     goField ''Time'' TyTime,
     goField ''Extra'' TyBytes,
     goField ''MixDigest'' TyHash,
     goField ''Nonce'' TyUint,
     goMaybe ''BaseFee'' TyBigInt]"

definition go_Log :: "field list" where
  "go_Log =
    [goField ''Address'' TyAddress,
     goField ''Topics'' TyTopics,
     goField ''Data'' TyBytes]"

definition go_Receipt :: "field list" where
  "go_Receipt =
    [goField ''TxType'' TyTxType,
     goMaybe ''PostState'' TyBytes,
     goMaybe ''Status'' TyUint,
     goField ''CumulativeGasUsed'' TyUint,
     goField ''Bloom'' TyBloom,
     goField ''Logs'' TyLogs,
     goField ''LogRootCID'' TyLink]"

definition go_Transaction :: "field list" where
  "go_Transaction =
    [goField ''TxType'' TyTxType,
     goMaybe ''ChainID'' TyBigInt,
     goField ''AccountNonce'' TyUint,
     goMaybe ''GasPrice'' TyBigInt,
     goMaybe ''GasTipCap'' TyBigInt,
     goMaybe ''GasFeeCap'' TyBigInt,
     goField ''GasLimit'' TyUint,
     goMaybe ''Recipient'' TyAddress,
     goField ''Amount'' TyBigInt,
     goField ''Data'' TyBytes,
     goMaybe ''AccessList'' TyAccessList,
     goField ''V'' TyBigInt,
     goField ''R'' TyBigInt,
     goField ''S'' TyBigInt]"

definition go_TrieBranchNode :: "field list" where
  "go_TrieBranchNode =
    [goMaybe ''Child0'' TyChild,
     goMaybe ''Child1'' TyChild,
     goMaybe ''Child2'' TyChild,
     goMaybe ''Child3'' TyChild,
     goMaybe ''Child4'' TyChild,
     goMaybe ''Child5'' TyChild,
     goMaybe ''Child6'' TyChild,
     goMaybe ''Child7'' TyChild,
     goMaybe ''Child8'' TyChild,
     goMaybe ''Child9'' TyChild,
     goMaybe ''ChildA'' TyChild,
     goMaybe ''ChildB'' TyChild,
     goMaybe ''ChildC'' TyChild,
     goMaybe ''ChildD'' TyChild,
     goMaybe ''ChildE'' TyChild,
     goMaybe ''ChildF'' TyChild,
     goMaybe ''Value'' TyValue]"

definition go_TrieExtensionNode :: "field list" where
  "go_TrieExtensionNode =
    [goField ''PartialPath'' TyBytes,
     goField ''Child'' TyLink]"

definition go_TrieLeafNode :: "field list" where
  "go_TrieLeafNode =
    [goField ''PartialPath'' TyBytes,
     goField ''Value'' TyValue]"

definition go_TxTrace :: "field list" where
  "go_TxTrace =
    [goField ''TxCIDs'' TyTxCIDList,
     goField ''StateRootCID'' TyLink,
     goField ''Result'' TyBytes,
     goField ''Frames'' TyFrameList,
     goField ''Gas'' TyUint,
     goField ''Failed'' TyBool]"

text \<open>The members of a union are tagged from 1 in this order.\<close>

definition go_Child :: "(string \<times> tyname) list" where
  "go_Child = [(''Link'', TyLink), (''TrieNode'', TyTrieNode)]"

definition go_TrieNode :: "(string \<times> tyname) list" where
  "go_TrieNode =
    [(''TrieBranchNode'', TyTrieBranchNode), (''TrieExtensionNode'', TyTrieExtensionNode),
     (''TrieLeafNode'', TyTrieLeafNode)]"

definition go_Value :: "(string \<times> tyname) list" where
  "go_Value =
    [(''Transaction'', TyTransaction), (''Receipt'', TyReceipt), (''Account'', TyAccount),
     (''Bytes'', TyBytes), (''Log'', TyLog)]"

text \<open>The declaration behind each generated prototype.\<close>

fun typeDecl :: "tyname \<Rightarrow> tydecl" where
  "typeDecl TyAccessElement = DStruct go_AccessElement"
| "typeDecl TyAccessList = DList TyAccessElement"
| "typeDecl TyAccount = DStruct go_Account"
| "typeDecl TyAddress = DBytes"
| "typeDecl TyBalance = DBytes"
| "typeDecl TyBigInt = DBytes"
| "typeDecl TyBlock = DStruct go_Block"
| "typeDecl TyBloom = DBytes"
| "typeDecl TyBool = DBool"
| "typeDecl TyByteCode = DBytes"
| "typeDecl TyBytes = DBytes"
| "typeDecl TyChild = DUnion go_Child"
| "typeDecl TyFrame = DStruct go_Frame"
| "typeDecl TyFrameList = DList TyFrame"
| "typeDecl TyHash = DBytes"
| "typeDecl TyHeader = DStruct go_Header"
| "typeDecl TyLink = DLink"
| "typeDecl TyLog = DStruct go_Log"
| "typeDecl TyLogs = DList TyLog"
| "typeDecl TyOpCode = DBytes"
| "typeDecl TyReceipt = DStruct go_Receipt"
| "typeDecl TyReceipts = DList TyReceipt"
| "typeDecl TyStorageKeys = DList TyHash"
| "typeDecl TyString = DString"
| "typeDecl TyTime = DBytes"
| "typeDecl TyTopics = DList TyHash"
| "typeDecl TyTransaction = DStruct go_Transaction"
| "typeDecl TyTransactions = DList TyTransaction"
| "typeDecl TyTrieBranchNode = DStruct go_TrieBranchNode"
| "typeDecl TyTrieExtensionNode = DStruct go_TrieExtensionNode"
| "typeDecl TyTrieLeafNode = DStruct go_TrieLeafNode"
| "typeDecl TyTrieNode = DUnion go_TrieNode"
| "typeDecl TyTxCIDList = DList TyLink"
| "typeDecl TyTxTrace = DStruct go_TxTrace"
| "typeDecl TyTxType = DBytes"
| "typeDecl TyUint = DBytes"
| "typeDecl TyUncles = DList TyHeader"
| "typeDecl TyValue = DUnion go_Value"

lemmas go_field_defs = goField_def goMaybe_def SpawnStructField_def
lemmas gen_defs = gen_Header_def gen_AccessElement_def gen_Transaction_def gen_Log_def
  gen_Receipt_def gen_TrieBranchNode_def gen_TrieExtensionNode_def gen_TrieLeafNode_def
  gen_Account_def gen_Frame_def gen_TxTrace_def gen_Block_def gen_Value_def gen_Child_def
  gen_TrieNode_def
lemmas go_defs = go_AccessElement_def go_Account_def go_Block_def go_Frame_def go_Header_def go_Log_def go_Receipt_def go_Transaction_def go_TrieBranchNode_def go_TrieExtensionNode_def go_TrieLeafNode_def go_TxTrace_def
  go_Child_def go_TrieNode_def go_Value_def

section \<open>Facts about the schema\<close>

text \<open>Fields and members of a type; other types have none.\<close>

fun fieldsOf :: "tyname \<Rightarrow> field list" where
  "fieldsOf t = (case typeDecl t of DStruct fs \<Rightarrow> fs | _ \<Rightarrow> [])"

fun membersOf :: "tyname \<Rightarrow> (string \<times> tyname) list" where
  "membersOf t = (case typeDecl t of DUnion ms \<Rightarrow> ms | _ \<Rightarrow> [])"

declare fieldsOf.simps [simp del] membersOf.simps [simp del]

lemma fieldsOf_struct: "typeDecl t = DStruct fs \<Longrightarrow> fieldsOf t = fs"
  by (simp add: fieldsOf.simps)

lemma membersOf_union: "typeDecl t = DUnion ms \<Longrightarrow> membersOf t = ms"
  by (simp add: membersOf.simps)

lemma distinct_fields [simp]: "distinct (map fname (fieldsOf t))"
  by (cases t) (simp_all add: fieldsOf.simps go_defs go_field_defs)

lemma distinct_members [simp]: "distinct (map fst (membersOf t))"
  by (cases t) (simp_all add: membersOf.simps go_defs)

lemma no_optional_fields: "f \<in> set (fieldsOf t) \<Longrightarrow> \<not> foptional f"
  by (cases t) (auto simp: fieldsOf.simps go_defs go_field_defs)

text \<open>C28: The schema that \<open>gen.go\<close> accumulates and the types of the generated code agree on every type but
  \<open>Block\<close>, whose generated fields have lost their \<open>CID\<close> suffix.\<close>

theorem schema_agreement: "typeSystem t = Some (typeDecl t) \<longleftrightarrow> t \<noteq> TyBlock"
  by (cases t) (simp_all add: typeSystem_def gen_defs go_defs go_field_defs)

end
