(* ===== verification/Go_Lib.thy ===== *)
theory Go_Lib
  imports Prelude
begin

text \<open>
  The parts of Go's standard library that the codecs use: \<open>encoding/binary\<close>'s big-endian
  64-bit accessors, \<open>math/big\<close>'s conversion between integers and big-endian byte strings,
  \<open>io.Reader\<close> and \<open>io.Writer\<close> as far as the codecs touch them.
\<close>

unbundle bit_operations_syntax

section \<open>\<open>binary.BigEndian\<close>\<close>

definition putUint64 :: "u64 \<Rightarrow> bytes" where
  "putUint64 v =
     [ucast (drop_bit 56 v), ucast (drop_bit 48 v), ucast (drop_bit 40 v), ucast (drop_bit 32 v),
      ucast (drop_bit 24 v), ucast (drop_bit 16 v), ucast (drop_bit 8 v), ucast v]"

text \<open>\<open>Uint64\<close> reads the first eight bytes and panics on a shorter slice; longer slices are
  accepted and the rest is ignored.\<close>

fun uint64 :: "bytes \<Rightarrow> u64 res" where
  "uint64 (b0 # b1 # b2 # b3 # b4 # b5 # b6 # b7 # _) =
     Ok (ucast b7 OR push_bit 8 (ucast b6) OR push_bit 16 (ucast b5) OR push_bit 24 (ucast b4) OR
         push_bit 32 (ucast b3) OR push_bit 40 (ucast b2) OR push_bit 48 (ucast b1) OR
         push_bit 56 (ucast b0))"
| "uint64 _ = Panic ''index out of range''"

lemma length_putUint64 [simp]: "length (putUint64 v) = 8"
  by (simp add: putUint64_def)

lemma bit_byte_small: "8 \<le> n \<Longrightarrow> \<not> bit (b :: byte) n"
  using bit_imp_le_length [of b n] by auto

lemma or_bytes_of_u64:
  fixes v :: u64
  shows "ucast (ucast v :: byte) OR push_bit 8 (ucast (ucast (drop_bit 8 v) :: byte)) OR
        push_bit 16 (ucast (ucast (drop_bit 16 v) :: byte)) OR
        push_bit 24 (ucast (ucast (drop_bit 24 v) :: byte)) OR
        push_bit 32 (ucast (ucast (drop_bit 32 v) :: byte)) OR
        push_bit 40 (ucast (ucast (drop_bit 40 v) :: byte)) OR
        push_bit 48 (ucast (ucast (drop_bit 48 v) :: byte)) OR
        push_bit 56 (ucast (ucast (drop_bit 56 v) :: byte)) = v" (is "?l = v")
proof (rule bit_word_eqI)
  fix n assume n: "n < LENGTH(64)"
  define k r where "k = n div 8" and "r = n mod 8"
  have nn: "n = 8 * k + r" "r < 8" "k < 8" using n by (auto simp: k_def r_def)
  then have "k = 0 \<or> k = 1 \<or> k = 2 \<or> k = 3 \<or> k = 4 \<or> k = 5 \<or> k = 6 \<or> k = 7" by arith
  then show "bit ?l n = bit v n"
    using nn(2) unfolding nn(1) by (elim disjE) (simp_all add: bit_simps bit_byte_small)
qed

lemma uint64_putUint64 [simp]: "uint64 (putUint64 v) = Ok v"
  by (simp add: putUint64_def or_bytes_of_u64)

lemma uint64_short: "length bs < 8 \<Longrightarrow> uint64 bs = Panic ''index out of range''"
  by (induction bs rule: uint64.induct) auto

lemma uint64_ok_iff: "is_ok (uint64 bs) \<longleftrightarrow> 8 \<le> length bs"
  by (induction bs rule: uint64.induct) auto

lemma uint64_append: "8 \<le> length bs \<Longrightarrow> uint64 (bs @ cs) = uint64 bs"
  by (induction bs rule: uint64.induct) auto

lemma uint64_longer: "8 \<le> length bs \<Longrightarrow> uint64 bs = uint64 (take 8 bs)"
  by (metis append_take_drop_id length_take min.absorb2 order_refl uint64_append)

lemma byte_of_or_bytes:
  fixes b0 b1 b2 b3 b4 b5 b6 b7 :: byte
  defines "v \<equiv> (ucast b7 OR push_bit 8 (ucast b6) OR push_bit 16 (ucast b5) OR
      push_bit 24 (ucast b4) OR push_bit 32 (ucast b3) OR push_bit 40 (ucast b2) OR
      push_bit 48 (ucast b1) OR push_bit 56 (ucast b0)) :: u64"
  shows "ucast (drop_bit 56 v) = b0" "ucast (drop_bit 48 v) = b1" "ucast (drop_bit 40 v) = b2"
    "ucast (drop_bit 32 v) = b3" "ucast (drop_bit 24 v) = b4" "ucast (drop_bit 16 v) = b5"
    "ucast (drop_bit 8 v) = b6" "ucast v = b7"
  unfolding v_def by (rule bit_word_eqI, simp add: bit_simps bit_byte_small)+

lemma putUint64_uint64:
  assumes "length bs = 8" "uint64 bs = Ok v"
  shows "putUint64 v = bs"
proof -
  obtain b0 b1 b2 b3 b4 b5 b6 b7 where bs: "bs = [b0, b1, b2, b3, b4, b5, b6, b7]"
    using assms(1) by (auto simp: numeral_eq_Suc length_Suc_conv)
  then have "v = ucast b7 OR push_bit 8 (ucast b6) OR push_bit 16 (ucast b5) OR
      push_bit 24 (ucast b4) OR push_bit 32 (ucast b3) OR push_bit 40 (ucast b2) OR
      push_bit 48 (ucast b1) OR push_bit 56 (ucast b0)"
    using assms(2) by simp
  then show ?thesis
    by (simp only: bs putUint64_def byte_of_or_bytes)
qed

section \<open>\<open>math/big\<close>\<close>

text \<open>A non-nil \<open>*big.Int\<close> is an \<open>int\<close>.  \<open>SetBytes\<close> reads a big-endian magnitude, \<open>Bytes\<close>
  returns the magnitude of the absolute value without leading zeros.\<close>

fun be_nat :: "nat \<Rightarrow> bytes \<Rightarrow> nat" where
  "be_nat acc [] = acc"
| "be_nat acc (b # bs) = be_nat (acc * 256 + unat b) bs"

fun nat_be :: "nat \<Rightarrow> bytes" where
  "nat_be n = (if n = 0 then [] else nat_be (n div 256) @ [word_of_nat (n mod 256)])"

declare nat_be.simps [simp del]

definition bigSetBytes :: "bytes \<Rightarrow> int" where
  "bigSetBytes bs = int (be_nat 0 bs)"

definition bigBytes :: "int \<Rightarrow> bytes" where
  "bigBytes x = nat_be (nat \<bar>x\<bar>)"

lemma be_nat_append: "be_nat acc (xs @ ys) = be_nat (be_nat acc xs) ys"
  by (induction xs arbitrary: acc) auto

lemma be_nat_nat_be [simp]: "be_nat 0 (nat_be n) = n"
proof (induction n rule: nat_be.induct)
  case (1 n)
  show ?case
  proof (cases "n = 0")
    case False
    with 1 have ih: "be_nat 0 (nat_be (n div 256)) = n div 256" by simp
    have "unat (word_of_nat (n mod 256) :: byte) = n mod 256"
      by (simp add: unat_of_nat)
    with ih False show ?thesis
      by (simp add: nat_be.simps [of n] be_nat_append)
  qed (simp add: nat_be.simps)
qed

lemma bigSetBytes_bigBytes [simp]: "0 \<le> x \<Longrightarrow> bigSetBytes (bigBytes x) = x"
  by (simp add: bigSetBytes_def bigBytes_def)

lemma bigSetBytes_nonneg [simp]: "0 \<le> bigSetBytes bs"
  by (simp add: bigSetBytes_def)

lemma unat_byte_less: "unat (b :: byte) < 256"
  by (rule order_less_le_trans [OF unsigned_less]) simp

lemma nat_be_step:
  "0 < n \<or> 0 < b \<Longrightarrow> b < 256 \<Longrightarrow> nat_be (n * 256 + b) = nat_be n @ [word_of_nat b]"
  by (subst nat_be.simps) auto

text \<open>Byte strings without a leading zero are exactly the results of \<open>Bytes\<close>.\<close>

definition minimalBE :: "bytes \<Rightarrow> bool" where
  "minimalBE bs \<longleftrightarrow> bs = [] \<or> hd bs \<noteq> 0"

lemma nat_be_be_nat:
  "minimalBE (nat_be acc @ bs) \<Longrightarrow> nat_be (be_nat acc bs) = nat_be acc @ bs"
proof (induction bs arbitrary: acc)
  case (Cons b bs)
  have pos: "0 < acc \<or> 0 < unat b"
    using Cons.prems by (auto simp: minimalBE_def nat_be.simps unat_gt_0)
  have step: "nat_be (acc * 256 + unat b) = nat_be acc @ [b]"
    using nat_be_step [OF pos unat_byte_less] by simp
  have "minimalBE (nat_be (acc * 256 + unat b) @ bs)"
    using Cons.prems step by simp
  from Cons.IH [OF this] step show ?case by simp
qed simp

lemma bigBytes_bigSetBytes [simp]: "minimalBE bs \<Longrightarrow> bigBytes (bigSetBytes bs) = bs"
  using nat_be_be_nat [of 0 bs] by (simp add: bigBytes_def bigSetBytes_def nat_be.simps)

lemma nat_be_eq_Nil_iff: "nat_be n = [] \<longleftrightarrow> n = 0"
  by (subst nat_be.simps) simp

lemma minimalBE_nat_be [simp]: "minimalBE (nat_be n)"
proof (induction n rule: nat_be.induct)
  case (1 n)
  show ?case
  proof (cases "n < 256")
    case True
    then show ?thesis
      by (subst nat_be.simps)
        (auto simp: minimalBE_def nat_be.simps [of 0] word_of_nat_eq_0_iff dvd_imp_le)
  next
    case False
    with 1 have "minimalBE (nat_be (n div 256))" by simp
    moreover have "nat_be (n div 256) \<noteq> []"
      using False by (simp add: nat_be_eq_Nil_iff)
    ultimately show ?thesis
      using False by (subst nat_be.simps) (simp add: minimalBE_def)
  qed
qed

lemma minimalBE_bigBytes [simp]: "minimalBE (bigBytes x)"
  by (simp add: bigBytes_def)

section \<open>\<open>io.Reader\<close> and \<open>io.Writer\<close>\<close>

text \<open>\<open>Decode\<close> takes the underlying bytes of readers that expose them (\<open>bytes.Buffer\<close>) and
  reads the others to the end, which may fail.  A writer is what becomes of the bytes handed to
  \<open>Write\<close>; \<open>bytesBuffer\<close> is a \<open>bytes.Buffer\<close>, whose \<open>Write\<close> never fails.\<close>

datatype reader = HasBytes bytes | Stream "bytes res"

fun readSrc :: "reader \<Rightarrow> bytes res" where
  "readSrc (HasBytes b) = Ok b"
| "readSrc (Stream r) = r"

type_synonym 'w writer = "bytes \<Rightarrow> 'w res"

definition bytesBuffer :: "bytes writer" where
  "bytesBuffer enc = Ok enc"

end
