(* ===== verification/Node.thy ===== *)
theory Node
  imports Schema Go_Lib
begin

text \<open>
  Nodes.  \<open>tnode\<close> is a value of one of the generated Go types; \<open>node\<close> is what an \<open>ipld.Node\<close> can be
  for the codecs: a basic data-model node, a value of one of the generated types, or the representation
  view (the \<open>_Repr\<close> type) of such a value.  The functions are the
  read methods the codecs call, for generated types as \<open>ipldsch_satisfaction.go\<close> implements
  them, for basic nodes as the data model defines them.
\<close>

type_synonym cid = bytes

text \<open>An \<open>ipld.Link\<close> is a \<open>cidlink.Link\<close>, or some other implementation of the interface.\<close>

datatype link = CidLink cid | OtherLink string

text \<open>A null field of a struct is \<open>None\<close>.  The tag of a union counts its members from 1.\<close>

datatype tnode =
    TnBytes tyname bytes
  | TnString tyname string
  | TnBool tyname bool
  | TnLink tyname link
  | TnStruct tyname "tnode option list"
  | TnList tyname "tnode list"
  | TnUnion tyname nat tnode

datatype node =
    NNull
  | NAbsent
  | NBool bool
  | NInt int
  | NFloat u64
  | NString string
  | NBytes bytes
  | NLink link
  | NMap "(string \<times> node) list"
  | NList "node list"
  | NTyped tnode
  | NRepr tnode

fun tnType :: "tnode \<Rightarrow> tyname" where
  "tnType (TnBytes t _) = t"
| "tnType (TnString t _) = t"
| "tnType (TnBool t _) = t"
| "tnType (TnLink t _) = t"
| "tnType (TnStruct t _) = t"
| "tnType (TnList t _) = t"
| "tnType (TnUnion t _ _) = t"

section \<open>Positions of names\<close>

fun idxOf :: "string list \<Rightarrow> string \<Rightarrow> nat option" where
  "idxOf [] k = None"
| "idxOf (x # xs) k = (if x = k then Some 0 else map_option Suc (idxOf xs k))"

lemma idxOf_SomeD: "idxOf xs k = Some i \<Longrightarrow> i < length xs \<and> xs ! i = k"
  by (induction xs arbitrary: i) (auto split: if_splits)

lemma idxOf_nth: "distinct xs \<Longrightarrow> i < length xs \<Longrightarrow> idxOf xs (xs ! i) = Some i"
proof (induction xs arbitrary: i)
  case (Cons x xs)
  then show ?case by (cases i) (auto simp: nth_mem)
qed simp

lemma idxOf_None_iff: "idxOf xs k = None \<longleftrightarrow> k \<notin> set xs"
  by (induction xs) auto

lemma idxOf_inj: "idxOf xs k = Some i \<Longrightarrow> idxOf xs l = Some i \<Longrightarrow> k = l"
  by (metis idxOf_SomeD)

definition fieldNames :: "tyname \<Rightarrow> string list" where
  "fieldNames t = map fname (fieldsOf t)"

definition memberNames :: "tyname \<Rightarrow> string list" where
  "memberNames t = map fst (membersOf t)"

lemma length_fieldNames [simp]: "length (fieldNames t) = length (fieldsOf t)"
  by (simp add: fieldNames_def)

lemma distinct_fieldNames [simp]: "distinct (fieldNames t)"
  by (simp add: fieldNames_def)

section \<open>Read methods\<close>

fun ofMaybe :: "tnode option \<Rightarrow> node" where
  "ofMaybe None = NNull"
| "ofMaybe (Some t) = NTyped t"

fun tnKind :: "tnode \<Rightarrow> kind" where
  "tnKind (TnBytes _ _) = KBytes"
| "tnKind (TnString _ _) = KString"
| "tnKind (TnBool _ _) = KBool"
| "tnKind (TnLink _ _) = KLink"
| "tnKind (TnStruct _ _) = KMap"
| "tnKind (TnList _ _) = KList"
| "tnKind (TnUnion _ _ _) = KMap"

section \<open>Representation views\<close>

text \<open>\<open>Representation()\<close>: the view of a scalar is the value itself, its \<open>_Repr\<close> type being an alias.\<close>

fun representation :: "tnode \<Rightarrow> node" where
  "representation (TnStruct ty fs) = NRepr (TnStruct ty fs)"
| "representation (TnList ty ts) = NRepr (TnList ty ts)"
| "representation (TnUnion ty tag t) = NRepr (TnUnion ty tag t)"
| "representation t = NTyped t"

fun reprMaybe :: "tnode option \<Rightarrow> node" where
  "reprMaybe None = NNull"
| "reprMaybe (Some t) = representation t"

text \<open>\<open>Child\<close> is represented by the kind of its member, the other unions by a key of their own.\<close>

definition reprKeys :: "tyname \<Rightarrow> string list" where
  "reprKeys ty =
     (if ty = TyTrieNode then [''branch'', ''extension'', ''leaf'']
      else if ty = TyValue then [''tx'', ''rct'', ''state'', ''storage'', ''log'']
      else [])"

fun reprKind :: "tnode \<Rightarrow> kind" where
  "reprKind (TnUnion ty tag _) = (if ty = TyChild \<and> tag = 1 then KLink else KMap)"
| "reprKind t = tnKind t"

fun reprAsLink :: "tnode \<Rightarrow> link res" where
  "reprAsLink (TnUnion ty tag (TnLink _ l)) =
     (if ty = TyChild \<and> tag = 1 then Ok l else Fail (ErrWrongKind ''AsLink''))"
| "reprAsLink _ = Fail (ErrWrongKind ''AsLink'')"

fun reprLookupByString :: "tnode \<Rightarrow> string \<Rightarrow> node res" where
  "reprLookupByString (TnStruct ty fs) k =
     (case idxOf (fieldNames ty) k of
        Some i \<Rightarrow> (if i < length fs then Ok (reprMaybe (fs ! i)) else Panic ''malformed struct'')
      | None \<Rightarrow> Fail (ErrNoSuchField k))"
| "reprLookupByString (TnUnion ty tag t) k =
     (if ty = TyChild then
        (if tag = 2 then reprLookupByString t k else Fail (ErrWrongKind ''LookupByString''))
      else case idxOf (reprKeys ty) k of
        Some i \<Rightarrow> (if tag \<noteq> Suc i then Fail (ErrNotExists k) else Ok (representation t))
      | None \<Rightarrow> Fail (ErrNoSuchField k))"
| "reprLookupByString _ k = Fail (ErrWrongKind ''LookupByString'')"

fun reprEntries :: "tnode \<Rightarrow> (string \<times> node) list" where
  "reprEntries (TnStruct ty fs) = zip (fieldNames ty) (map reprMaybe fs)"
| "reprEntries (TnUnion ty tag t) =
     (if ty = TyChild then (if tag = 2 then reprEntries t else [])
      else [(reprKeys ty ! (tag - 1), representation t)])"
| "reprEntries _ = []"

fun reprLength :: "tnode \<Rightarrow> int" where
  "reprLength (TnStruct ty _) = int (length (fieldsOf ty))"
| "reprLength (TnList _ ts) = int (length ts)"
| "reprLength (TnUnion ty tag t) = (if ty = TyChild then (if tag = 2 then reprLength t else -1) else 1)"
| "reprLength _ = -1"

section \<open>Read methods of nodes\<close>

fun nodeKind :: "node \<Rightarrow> kind" where
  "nodeKind NNull = KNull"
| "nodeKind NAbsent = KNull"
| "nodeKind (NBool _) = KBool"
| "nodeKind (NInt _) = KInt"
| "nodeKind (NFloat _) = KFloat"
| "nodeKind (NString _) = KString"
| "nodeKind (NBytes _) = KBytes"
| "nodeKind (NLink _) = KLink"
| "nodeKind (NMap _) = KMap"
| "nodeKind (NList _) = KList"
| "nodeKind (NTyped t) = tnKind t"
| "nodeKind (NRepr t) = reprKind t"

fun isNull :: "node \<Rightarrow> bool" where
  "isNull NNull = True"
| "isNull _ = False"

fun asBytes :: "node \<Rightarrow> bytes res" where
  "asBytes (NBytes b) = Ok b"
| "asBytes (NTyped (TnBytes _ b)) = Ok b"
| "asBytes _ = Fail (ErrWrongKind ''AsBytes'')"

fun asLink :: "node \<Rightarrow> link res" where
  "asLink (NLink l) = Ok l"
| "asLink (NTyped (TnLink _ l)) = Ok l"
| "asLink (NRepr t) = reprAsLink t"
| "asLink _ = Fail (ErrWrongKind ''AsLink'')"

fun asString :: "node \<Rightarrow> string res" where
  "asString (NString s) = Ok s"
| "asString (NTyped (TnString _ s)) = Ok s"
| "asString _ = Fail (ErrWrongKind ''AsString'')"

fun asBool :: "node \<Rightarrow> bool res" where
  "asBool (NBool b) = Ok b"
| "asBool (NTyped (TnBool _ b)) = Ok b"
| "asBool _ = Fail (ErrWrongKind ''AsBool'')"

text \<open>\<open>LookupByString\<close>: a struct returns the field, or null; a union returns its member only under
  the name of the current tag.\<close>

fun lookupByString :: "node \<Rightarrow> string \<Rightarrow> node res" where
  "lookupByString (NTyped (TnStruct ty fs)) k =
     (case idxOf (fieldNames ty) k of
        Some i \<Rightarrow> (if i < length fs then Ok (ofMaybe (fs ! i)) else Panic ''malformed struct'')
      | None \<Rightarrow> Fail (ErrNoSuchField k))"
| "lookupByString (NTyped (TnUnion ty tag t)) k =
     (case idxOf (memberNames ty) k of
        Some i \<Rightarrow> (if tag \<noteq> Suc i then Fail (ErrNotExists k) else Ok (NTyped t))
      | None \<Rightarrow> Fail (ErrNoSuchField k))"
| "lookupByString (NMap es) k =
     (case map_of es k of Some v \<Rightarrow> Ok v | None \<Rightarrow> Fail (ErrNotExists k))"
| "lookupByString (NRepr t) k = reprLookupByString t k"
| "lookupByString _ k = Fail (ErrWrongKind ''LookupByString'')"

text \<open>The entries a \<open>MapIterator\<close> or a \<open>ListIterator\<close> yields, in order.\<close>

fun mapEntries :: "node \<Rightarrow> (string \<times> node) list" where
  "mapEntries (NMap es) = es"
| "mapEntries (NTyped (TnStruct ty fs)) = zip (fieldNames ty) (map ofMaybe fs)"
| "mapEntries (NTyped (TnUnion ty tag t)) = [(memberNames ty ! (tag - 1), NTyped t)]"
| "mapEntries (NRepr t) = reprEntries t"
| "mapEntries _ = []"

fun listEntries :: "node \<Rightarrow> node list" where
  "listEntries (NList ns) = ns"
| "listEntries (NTyped (TnList _ ts)) = map NTyped ts"
| "listEntries (NRepr (TnList _ ts)) = map representation ts"
| "listEntries _ = []"

text \<open>\<open>Length\<close> is -1 for nodes that are neither maps nor lists.\<close>

fun nodeLength :: "node \<Rightarrow> int" where
  "nodeLength (NMap es) = int (length es)"
| "nodeLength (NList ns) = int (length ns)"
| "nodeLength (NTyped (TnStruct ty _)) = int (length (fieldsOf ty))"
| "nodeLength (NTyped (TnUnion _ _ _)) = 1"
| "nodeLength (NTyped (TnList _ ts)) = int (length ts)"
| "nodeLength (NRepr t) = reprLength t"
| "nodeLength _ = -1"

section \<open>Well-typed values\<close>

text \<open>A value of a generated type: its shape is the one of the declaration, all the way down.\<close>

fun tnWf :: "tnode \<Rightarrow> bool" where
  "tnWf (TnBytes t _) = (typeDecl t = DBytes)"
| "tnWf (TnString t _) = (typeDecl t = DString)"
| "tnWf (TnBool t _) = (typeDecl t = DBool)"
| "tnWf (TnLink t _) = (typeDecl t = DLink)"
| "tnWf (TnStruct t fs) =
     (typeDecl t = DStruct (fieldsOf t) \<and> length fs = length (fieldsOf t) \<and>
      list_all (\<lambda>(f, x). case x of None \<Rightarrow> fnullable f | Some v \<Rightarrow> tnType v = ftype f)
        (zip (fieldsOf t) fs) \<and>
      list_all (\<lambda>x. case x of None \<Rightarrow> True | Some v \<Rightarrow> tnWf v) fs)"
| "tnWf (TnList t ts) =
     ((case typeDecl t of DList e \<Rightarrow> list_all (\<lambda>v. tnType v = e) ts | _ \<Rightarrow> False) \<and>
      list_all tnWf ts)"
| "tnWf (TnUnion t tag v) =
     (1 \<le> tag \<and> tag \<le> length (membersOf t) \<and> tnType v = snd (membersOf t ! (tag - 1)) \<and> tnWf v)"

section \<open>Sizes, for recursion over nodes\<close>

fun tsize :: "tnode \<Rightarrow> nat" where
  "tsize (TnStruct _ fs) = Suc (sum_list (map (\<lambda>x. case x of None \<Rightarrow> Suc 0 | Some t \<Rightarrow> Suc (tsize t)) fs))"
| "tsize (TnList _ ts) = Suc (sum_list (map (\<lambda>t. Suc (tsize t)) ts))"
| "tsize (TnUnion _ _ t) = Suc (Suc (tsize t))"
| "tsize _ = 1"

fun nsize :: "node \<Rightarrow> nat" where
  "nsize (NMap es) = Suc (sum_list (map (\<lambda>e. nsize (snd e)) es))"
| "nsize (NList ns) = Suc (sum_list (map nsize ns))"
| "nsize (NTyped t) = Suc (tsize t)"
| "nsize (NRepr t) = Suc (tsize t)"
| "nsize _ = 1"

lemma nsize_representation [simp]: "nsize (representation t) = Suc (tsize t)"
  by (cases t) auto

lemma nsize_field:
  assumes "x \<in> set fs"
  shows "nsize (ofMaybe x) < Suc (tsize (TnStruct ty fs))" "nsize (reprMaybe x) < Suc (tsize (TnStruct ty fs))"
proof -
  have "(case x of None \<Rightarrow> Suc 0 | Some t \<Rightarrow> Suc (tsize t))
      \<le> sum_list (map (\<lambda>x. case x of None \<Rightarrow> Suc 0 | Some t \<Rightarrow> Suc (tsize t)) fs)"
    using assms by (intro member_le_sum_list) auto
  moreover have "nsize (ofMaybe x) = (case x of None \<Rightarrow> Suc 0 | Some t \<Rightarrow> Suc (tsize t))"
    "nsize (reprMaybe x) = (case x of None \<Rightarrow> Suc 0 | Some t \<Rightarrow> Suc (tsize t))"
    by (cases x; simp)+
  ultimately show "nsize (ofMaybe x) < Suc (tsize (TnStruct ty fs))" "nsize (reprMaybe x) < Suc (tsize (TnStruct ty fs))"
    by simp_all
qed

lemma nsize_reprEntries: "(k, v) \<in> set (reprEntries t) \<Longrightarrow> nsize v < Suc (tsize t)"
proof (induction t rule: reprEntries.induct)
  case (1 ty fs)
  then obtain x where "x \<in> set fs" "v = reprMaybe x" by (auto dest!: set_zip_rightD)
  then show ?case using nsize_field(2) by blast
qed (auto split: if_splits)

lemma nsize_mapEntries: "(k, v) \<in> set (mapEntries n) \<Longrightarrow> nsize v < nsize n"
proof (induction n rule: mapEntries.induct)
  case (1 es)
  then have "nsize v \<in> set (map (\<lambda>e. nsize (snd e)) es)" by force
  then show ?case by (simp add: member_le_sum_list less_Suc_eq_le)
next
  case (2 ty fs)
  then obtain x where "x \<in> set fs" "v = ofMaybe x" by (auto dest!: set_zip_rightD)
  then show ?case using nsize_field(1) by simp
qed (auto dest: nsize_reprEntries)

lemma nsize_elem: "t \<in> set ts \<Longrightarrow> Suc (tsize t) \<le> sum_list (map (\<lambda>t. Suc (tsize t)) ts)"
  by (rule member_le_sum_list) auto

lemma nsize_listEntries: "v \<in> set (listEntries n) \<Longrightarrow> nsize v < nsize n"
proof (induction n rule: listEntries.induct)
  case (1 ns)
  then have "nsize v \<in> set (map nsize ns)" by force
  then show ?case by (simp add: member_le_sum_list less_Suc_eq_le)
qed (auto dest: nsize_elem)

end
