(* ===== verification/Assembler.thy ===== *)
theory Assembler
  imports Node
begin

text \<open>
  The generated assemblers: the state machines behind \<open>BeginMap\<close>, \<open>AssembleKey\<close>,
  \<open>AssembleValue\<close>, \<open>Finish\<close> for structs, unions and lists, the scalar assemblers, and
  \<open>AssignNode\<close>, which drives them from an arbitrary node.  A child assembler writes into its
  parent through pointers; here the child is run to completion and its outcome stored.
  A misuse panics, a rejected input is an error.
\<close>

unbundle bit_operations_syntax

section \<open>States\<close>

datatype maState =
  maState_initial | maState_midKey | maState_expectValue | maState_midValue | maState_finished

datatype laState = laState_initial | laState_midValue | laState_finished

datatype maybe = Maybe_Absent | Maybe_Null | Maybe_Value | midvalue | allowNull

text \<open>The assembler of a struct type.  \<open>sa_wnil\<close> says that the target pointer \<open>w\<close> is nil,
  \<open>sa_s\<close> is the bit set of the fields seen, \<open>sa_f\<close> the current field, \<open>sa_cm\<close> the state word
  shared with the assemblers of non-nullable fields; \<open>sa_w\<close> and \<open>sa_m\<close> are the field values and the
  state words of the nullable fields, which live in the value being built.\<close>

record 'v gsasm =
  sa_ty :: tyname
  sa_wnil :: bool
  sa_state :: maState
  sa_s :: int
  sa_f :: nat
  sa_cm :: maybe
  sa_w :: "'v option list"
  sa_m :: "maybe list"

text \<open>The assembler of a union type: \<open>ua_ca\<close> is 0 or the tag of the member.  \<open>Child\<close> keeps the assembler of its
  second member behind a pointer, since the types are mutually recursive; \<open>ua_ca2\<close> says that it is not nil.\<close>

record 'v guasm =
  ua_ty :: tyname
  ua_wnil :: bool
  ua_state :: maState
  ua_cm :: maybe
  ua_ca :: nat
  ua_ca2 :: bool
  ua_x :: "'v option"

record 'v glasm =
  la_ty :: tyname
  la_state :: laState
  la_cm :: maybe
  la_x :: "'v list"

text \<open>The machines do not look at the values they collect; for the type-level assemblers these are typed nodes.\<close>

type_synonym sasm = "tnode gsasm"
type_synonym uasm = "tnode guasm"
type_synonym lasm = "tnode glasm"

section \<open>Scalar assemblers\<close>

fun assignNull :: "tyname \<Rightarrow> bool \<Rightarrow> tnode option res" where
  "assignNull ty nul = (if nul then Ok None else Fail (ErrWrongKind ''AssignNull''))"

definition assignBytes :: "tyname \<Rightarrow> bytes \<Rightarrow> tnode option res" where
  "assignBytes ty b =
     (case typeDecl ty of DBytes \<Rightarrow> Ok (Some (TnBytes ty b)) | _ \<Rightarrow> Fail (ErrWrongKind ''AssignBytes''))"

definition assignLink :: "tyname \<Rightarrow> link \<Rightarrow> tnode option res" where
  "assignLink ty l =
     (case typeDecl ty of DLink \<Rightarrow> Ok (Some (TnLink ty l)) | _ \<Rightarrow> Fail (ErrWrongKind ''AssignLink''))"

definition assignString :: "tyname \<Rightarrow> string \<Rightarrow> tnode option res" where
  "assignString ty s =
     (case typeDecl ty of DString \<Rightarrow> Ok (Some (TnString ty s)) | _ \<Rightarrow> Fail (ErrWrongKind ''AssignString''))"

definition assignBool :: "tyname \<Rightarrow> bool \<Rightarrow> tnode option res" where
  "assignBool ty b =
     (case typeDecl ty of DBool \<Rightarrow> Ok (Some (TnBool ty b)) | _ \<Rightarrow> Fail (ErrWrongKind ''AssignBool''))"

section \<open>Struct assemblers\<close>

definition newStructAsm :: "tyname \<Rightarrow> bool \<Rightarrow> 'v gsasm" where
  "newStructAsm ty wnil =
     \<lparr>sa_ty = ty, sa_wnil = wnil, sa_state = maState_initial, sa_s = 0, sa_f = 0,
      sa_cm = Maybe_Absent, sa_w = replicate (length (fieldsOf ty)) None,
      sa_m = replicate (length (fieldsOf ty)) Maybe_Absent\<rparr>"

definition curField :: "'v gsasm \<Rightarrow> field" where
  "curField st = fieldsOf (sa_ty st) ! sa_f st"

text \<open>\<open>valueFinishTidy\<close>: \<open>None\<close> when the current value is not finished.\<close>

definition sa_tidy :: "'v gsasm \<Rightarrow> 'v gsasm option" where
  "sa_tidy st =
     (if fnullable (curField st) then
        (case sa_m st ! sa_f st of
           Maybe_Null \<Rightarrow> Some (st\<lparr>sa_state := maState_initial\<rparr>)
         | Maybe_Value \<Rightarrow> Some (st\<lparr>sa_state := maState_initial\<rparr>)
         | _ \<Rightarrow> None)
      else
        (case sa_cm st of
           Maybe_Value \<Rightarrow> Some (st\<lparr>sa_cm := Maybe_Absent, sa_state := maState_initial\<rparr>)
         | _ \<Rightarrow> None))"

text \<open>The state switch with which \<open>AssembleEntry\<close>, \<open>AssembleKey\<close> and \<open>Finish\<close> begin.\<close>

definition sa_ready :: "'v gsasm \<Rightarrow> 'v gsasm res" where
  "sa_ready st =
     (case sa_state st of
        maState_initial \<Rightarrow> Ok st
      | maState_midKey \<Rightarrow> Panic ''invalid state: in the middle of assembling a key''
      | maState_expectValue \<Rightarrow> Panic ''invalid state: expecting start of value assembly''
      | maState_midValue \<Rightarrow>
          (case sa_tidy st of
             Some st' \<Rightarrow> Ok st'
           | None \<Rightarrow> Panic ''invalid state: in the middle of assembling a value'')
      | maState_finished \<Rightarrow> Panic ''invalid state: assembler already finished'')"

definition assembleKey :: "'v gsasm \<Rightarrow> 'v gsasm res" where
  "assembleKey st = andThen (sa_ready st) (\<lambda>st. Ok (st\<lparr>sa_state := maState_midKey\<rparr>))"

text \<open>The key assembler's \<open>AssignString\<close>.\<close>

definition keyAssignString :: "'v gsasm \<Rightarrow> string \<Rightarrow> 'v gsasm res" where
  "keyAssignString st k =
     (if sa_state st \<noteq> maState_midKey then Panic ''misuse: KeyAssembler held beyond its valid lifetime''
      else case idxOf (fieldNames (sa_ty st)) k of
        None \<Rightarrow> Fail (ErrInvalidKey k)
      | Some i \<Rightarrow>
          (if sa_s st AND 2 ^ i \<noteq> 0 then Fail (ErrRepeatedMapKey k)
           else Ok (st\<lparr>sa_s := sa_s st + 2 ^ i, sa_state := maState_expectValue, sa_f := i\<rparr>)))"

text \<open>Handing out the child assembler takes the address of a field of \<open>w\<close>; for a nullable field
  it first marks the field as one that may become null.\<close>

definition sa_child :: "'v gsasm \<Rightarrow> 'v gsasm res" where
  "sa_child st =
     (if sa_wnil st then Panic ''nil pointer dereference''
      else if fnullable (curField st) then Ok (st\<lparr>sa_m := (sa_m st)[sa_f st := allowNull]\<rparr>)
      else Ok st)"

definition assembleValue :: "'v gsasm \<Rightarrow> 'v gsasm res" where
  "assembleValue st =
     (case sa_state st of
        maState_initial \<Rightarrow> Panic ''invalid state: AssembleValue cannot be called when no key is primed''
      | maState_midKey \<Rightarrow> Panic ''invalid state: in the middle of assembling a key''
      | maState_expectValue \<Rightarrow> sa_child (st\<lparr>sa_state := maState_midValue\<rparr>)
      | maState_midValue \<Rightarrow> Panic ''invalid state: in the middle of assembling another value''
      | maState_finished \<Rightarrow> Panic ''invalid state: assembler already finished'')"

definition assembleEntry :: "'v gsasm \<Rightarrow> string \<Rightarrow> 'v gsasm res" where
  "assembleEntry st k =
     andThen (sa_ready st) (\<lambda>st.
       case idxOf (fieldNames (sa_ty st)) k of
         None \<Rightarrow> Fail (ErrInvalidKey k)
       | Some i \<Rightarrow>
           (if sa_s st AND 2 ^ i \<noteq> 0 then Fail (ErrRepeatedMapKey k)
            else sa_child (st\<lparr>sa_s := sa_s st + 2 ^ i, sa_state := maState_midValue, sa_f := i\<rparr>)))"

text \<open>What the child's assembler leaves behind through its pointers \<open>w\<close> and \<open>m\<close>.\<close>

fun storeChild :: "'v gsasm \<Rightarrow> 'v option \<Rightarrow> 'v gsasm" where
  "storeChild st None = st\<lparr>sa_m := (sa_m st)[sa_f st := Maybe_Null]\<rparr>"
| "storeChild st (Some v) =
     (if fnullable (curField st)
      then st\<lparr>sa_w := (sa_w st)[sa_f st := Some v], sa_m := (sa_m st)[sa_f st := Maybe_Value]\<rparr>
      else st\<lparr>sa_w := (sa_w st)[sa_f st := Some v], sa_cm := Maybe_Value\<rparr>)"

text \<open>\<open>Finish\<close>: all field bits must be set; the error lists the missing fields that are not
  nullable.\<close>

definition sa_missing :: "'v gsasm \<Rightarrow> string list" where
  "sa_missing st =
     map fst (filter (\<lambda>(nm, i). sa_s st AND 2 ^ i = 0 \<and> \<not> fnullable (fieldsOf (sa_ty st) ! i))
       (zip (fieldNames (sa_ty st)) [0..<length (fieldsOf (sa_ty st))]))"

definition sa_finish :: "'v gsasm \<Rightarrow> 'v gsasm res" where
  "sa_finish st =
     andThen (sa_ready st) (\<lambda>st.
       let sufficient = mask (length (fieldsOf (sa_ty st))) in
       if sa_s st AND sufficient \<noteq> sufficient
       then Fail (ErrMissingRequiredField (sa_missing st))
       else Ok (st\<lparr>sa_state := maState_finished\<rparr>))"

text \<open>The value the assembler has built: nullable fields are read through their state word.\<close>

definition sa_fields :: "'v gsasm \<Rightarrow> 'v option list" where
  "sa_fields st =
     map (\<lambda>i. if fnullable (fieldsOf (sa_ty st) ! i) \<and> sa_m st ! i = Maybe_Null then None else sa_w st ! i)
       [0..<length (fieldsOf (sa_ty st))]"

definition sa_build :: "sasm \<Rightarrow> tnode" where
  "sa_build st = TnStruct (sa_ty st) (sa_fields st)"

definition sa_done :: "sasm \<Rightarrow> tnode res" where
  "sa_done st = andThen (sa_finish st) (\<lambda>st. Ok (sa_build st))"

text \<open>\<open>BeginMap\<close> on a fresh assembler of a struct type.\<close>

definition beginStruct :: "tyname \<Rightarrow> sasm res" where
  "beginStruct ty =
     (case typeDecl ty of DStruct _ \<Rightarrow> Ok (newStructAsm ty False) | _ \<Rightarrow> Fail (ErrWrongKind ''BeginMap''))"

text \<open>The idioms \<open>ma.AssembleKey().AssignString(k)\<close> and \<open>ma.AssembleValue().X\<close>, where \<open>X\<close> is
  what is done with the child assembler, given its type and whether it may become null.\<close>

definition ma_key :: "'v gsasm \<Rightarrow> string \<Rightarrow> 'v gsasm res" where
  "ma_key ma k = andThen (assembleKey ma) (\<lambda>ma. keyAssignString ma k)"

definition ma_val :: "'v gsasm \<Rightarrow> (tyname \<Rightarrow> bool \<Rightarrow> 'v option res) \<Rightarrow> 'v gsasm res" where
  "ma_val ma x =
     andThen (assembleValue ma) (\<lambda>ma.
       andThen (x (ftype (curField ma)) (fnullable (curField ma))) (\<lambda>r. Ok (storeChild ma r)))"

section \<open>Union assemblers\<close>

definition newUnionAsm :: "tyname \<Rightarrow> bool \<Rightarrow> 'v guasm" where
  "newUnionAsm ty wnil =
     \<lparr>ua_ty = ty, ua_wnil = wnil, ua_state = maState_initial, ua_cm = Maybe_Absent, ua_ca = 0,
      ua_ca2 = False, ua_x = None\<rparr>"

definition ua_ready :: "'v guasm \<Rightarrow> 'v guasm res" where
  "ua_ready st =
     (case ua_state st of
        maState_initial \<Rightarrow> Ok st
      | maState_midKey \<Rightarrow> Panic ''invalid state: in the middle of assembling a key''
      | maState_expectValue \<Rightarrow> Panic ''invalid state: expecting start of value assembly''
      | maState_midValue \<Rightarrow>
          (if ua_cm st = Maybe_Value then Ok (st\<lparr>ua_state := maState_initial\<rparr>)
           else Panic ''invalid state: in the middle of assembling a value'')
      | maState_finished \<Rightarrow> Panic ''invalid state: assembler already finished'')"

definition ua_assembleKey :: "'v guasm \<Rightarrow> 'v guasm res" where
  "ua_assembleKey ua = andThen (ua_ready ua) (\<lambda>ua. Ok (ua\<lparr>ua_state := maState_midKey\<rparr>))"

text \<open>The key assembler's \<open>AssignString\<close>.\<close>

definition ua_keyAssignString :: "'v guasm \<Rightarrow> string \<Rightarrow> 'v guasm res" where
  "ua_keyAssignString ua k =
     (if ua_state ua \<noteq> maState_midKey then Panic ''misuse: KeyAssembler held beyond its valid lifetime''
      else if ua_ca ua \<noteq> 0 then
        Fail (ErrNotUnionStructure ''cannot add another entry -- a union can only contain one thing!'')
      else case idxOf (memberNames (ua_ty ua)) k of
        None \<Rightarrow> Fail (ErrInvalidKey k)
      | Some i \<Rightarrow>
          (if ua_wnil ua then Panic ''nil pointer dereference''
           else Ok (ua\<lparr>ua_ca := Suc i, ua_state := maState_expectValue\<rparr>)))"

text \<open>\<open>AssembleValue\<close> allocates the assembler behind the pointer; \<open>AssembleEntry\<close> does not.\<close>

definition ua_boxed :: "'v guasm \<Rightarrow> nat \<Rightarrow> bool" where
  "ua_boxed ua ca \<longleftrightarrow> ua_ty ua = TyChild \<and> ca = 2"

definition ua_assembleValue :: "'v guasm \<Rightarrow> 'v guasm res" where
  "ua_assembleValue ua =
     (case ua_state ua of
        maState_initial \<Rightarrow> Panic ''invalid state: AssembleValue cannot be called when no key is primed''
      | maState_midKey \<Rightarrow> Panic ''invalid state: in the middle of assembling a key''
      | maState_expectValue \<Rightarrow>
          (if 1 \<le> ua_ca ua \<and> ua_ca ua \<le> length (membersOf (ua_ty ua))
           then Ok (ua\<lparr>ua_state := maState_midValue, ua_ca2 := ua_ca2 ua \<or> ua_boxed ua (ua_ca ua)\<rparr>)
           else Panic ''unreachable'')
      | maState_midValue \<Rightarrow> Panic ''invalid state: in the middle of assembling another value''
      | maState_finished \<Rightarrow> Panic ''invalid state: assembler already finished'')"

definition ua_assembleEntry :: "'v guasm \<Rightarrow> string \<Rightarrow> 'v guasm res" where
  "ua_assembleEntry ua k =
     andThen (ua_ready ua) (\<lambda>ua.
       if ua_ca ua \<noteq> 0 then
         Fail (ErrNotUnionStructure ''cannot add another entry -- a union can only contain one thing!'')
       else case idxOf (memberNames (ua_ty ua)) k of
         None \<Rightarrow> Fail (ErrInvalidKey k)
       | Some i \<Rightarrow>
           (if ua_wnil ua \<or> ua_boxed ua (Suc i) \<and> \<not> ua_ca2 ua then Panic ''nil pointer dereference''
            else Ok (ua\<lparr>ua_state := maState_midValue, ua_ca := Suc i\<rparr>)))"

text \<open>What the member's assembler leaves behind through its pointers.\<close>

definition ua_store :: "'v guasm \<Rightarrow> 'v option \<Rightarrow> 'v guasm" where
  "ua_store ua r = ua\<lparr>ua_x := r, ua_cm := (if r = None then Maybe_Null else Maybe_Value)\<rparr>"

text \<open>The idioms \<open>ma.AssembleKey().AssignString(k)\<close> and \<open>ma.AssembleValue().X\<close>.\<close>

definition ua_key :: "'v guasm \<Rightarrow> string \<Rightarrow> 'v guasm res" where
  "ua_key ua k = andThen (ua_assembleKey ua) (\<lambda>ua. ua_keyAssignString ua k)"

definition ua_val :: "'v guasm \<Rightarrow> (tyname \<Rightarrow> bool \<Rightarrow> 'v option res) \<Rightarrow> 'v guasm res" where
  "ua_val ua x =
     andThen (ua_assembleValue ua) (\<lambda>ua.
       andThen (x (snd (membersOf (ua_ty ua) ! (ua_ca ua - 1))) False) (\<lambda>r. Ok (ua_store ua r)))"

lemma ua_key_eq:
  "ua_key ua k =
     andThen (ua_ready ua) (\<lambda>ua.
       if ua_ca ua \<noteq> 0 then
         Fail (ErrNotUnionStructure ''cannot add another entry -- a union can only contain one thing!'')
       else case idxOf (memberNames (ua_ty ua)) k of
         None \<Rightarrow> Fail (ErrInvalidKey k)
       | Some i \<Rightarrow>
           (if ua_wnil ua then Panic ''nil pointer dereference''
            else Ok (ua\<lparr>ua_ca := Suc i, ua_state := maState_expectValue\<rparr>)))"
  by (cases "ua_ready ua") (auto simp: ua_key_def ua_assembleKey_def ua_keyAssignString_def split: option.splits)

lemmas ua_val_defs = ua_val_def ua_assembleValue_def ua_store_def

definition ua_finish :: "'v guasm \<Rightarrow> 'v guasm res" where
  "ua_finish ua =
     andThen (ua_ready ua) (\<lambda>ua.
       if ua_ca ua = 0 then
         Fail (ErrNotUnionStructure ''a union must have exactly one entry (not none)!'')
       else Ok (ua\<lparr>ua_state := maState_finished\<rparr>))"

definition ua_done :: "uasm \<Rightarrow> tnode res" where
  "ua_done ua =
     andThen (ua_finish ua) (\<lambda>ua.
       case ua_x ua of
         Some t \<Rightarrow> Ok (TnUnion (ua_ty ua) (ua_ca ua) t)
       | None \<Rightarrow> Panic ''invalid union state; how did you create this object?'')"

definition beginUnion :: "tyname \<Rightarrow> uasm res" where
  "beginUnion ty =
     (case typeDecl ty of DUnion _ \<Rightarrow> Ok (newUnionAsm ty False) | _ \<Rightarrow> Fail (ErrWrongKind ''BeginMap''))"

section \<open>List assemblers\<close>

definition newListAsm :: "tyname \<Rightarrow> 'v glasm" where
  "newListAsm ty = \<lparr>la_ty = ty, la_state = laState_initial, la_cm = Maybe_Absent, la_x = []\<rparr>"

definition elemType :: "tyname \<Rightarrow> tyname" where
  "elemType ty = (case typeDecl ty of DList e \<Rightarrow> e | _ \<Rightarrow> ty)"

definition la_ready :: "'v glasm \<Rightarrow> 'v glasm res" where
  "la_ready la =
     (case la_state la of
        laState_initial \<Rightarrow> Ok la
      | laState_midValue \<Rightarrow>
          (if la_cm la = Maybe_Value then Ok (la\<lparr>la_cm := Maybe_Absent, la_state := laState_initial\<rparr>)
           else Panic ''invalid state: in the middle of assembling a value'')
      | laState_finished \<Rightarrow> Panic ''invalid state: assembler already finished'')"

text \<open>\<open>AssembleValue\<close> appends a zero row for the child to write to; \<open>la_x\<close> has the rows that were reported.\<close>

definition la_assembleValue :: "'v glasm \<Rightarrow> 'v glasm res" where
  "la_assembleValue la = andThen (la_ready la) (\<lambda>la. Ok (la\<lparr>la_state := laState_midValue\<rparr>))"

fun la_store :: "'v glasm \<Rightarrow> 'v option \<Rightarrow> 'v glasm" where
  "la_store la (Some v) = la\<lparr>la_x := la_x la @ [v], la_cm := Maybe_Value\<rparr>"
| "la_store la None = la\<lparr>la_cm := Maybe_Null\<rparr>"

definition la_val :: "'v glasm \<Rightarrow> (tyname \<Rightarrow> bool \<Rightarrow> 'v option res) \<Rightarrow> 'v glasm res" where
  "la_val la x =
     andThen (la_assembleValue la) (\<lambda>la.
       andThen (x (elemType (la_ty la)) False) (\<lambda>r. Ok (la_store la r)))"

definition la_finish :: "'v glasm \<Rightarrow> 'v glasm res" where
  "la_finish la = andThen (la_ready la) (\<lambda>la. Ok (la\<lparr>la_state := laState_finished\<rparr>))"

definition la_done :: "lasm \<Rightarrow> tnode res" where
  "la_done la = andThen (la_finish la) (\<lambda>la. Ok (TnList (la_ty la) (la_x la)))"

lemmas la_val_defs = la_val_def la_assembleValue_def
lemmas la_done_defs = la_done_def la_finish_def

definition beginList :: "tyname \<Rightarrow> lasm res" where
  "beginList ty =
     (case typeDecl ty of DList _ \<Rightarrow> Ok (newListAsm ty) | _ \<Rightarrow> Fail (ErrWrongKind ''BeginList''))"

section \<open>\<open>AssignNode\<close>\<close>

text \<open>The \<open>Maybe\<close> of a struct or union type holds a pointer, which is nil until something is
  assigned; the other \<open>Maybe\<close> types hold the value itself.\<close>

definition ptrMaybe :: "tyname \<Rightarrow> bool" where
  "ptrMaybe ty = (case typeDecl ty of DStruct _ \<Rightarrow> True | DUnion _ \<Rightarrow> True | _ \<Rightarrow> False)"

lemma forEach_cong [fundef_cong]:
  "xs = ys \<Longrightarrow> s = t \<Longrightarrow> (\<And>x u. x \<in> set ys \<Longrightarrow> f x u = g x u) \<Longrightarrow> forEach f xs s = forEach g ys t"
proof (induction ys arbitrary: xs s t)
  case (Cons y ys)
  then show ?case by (auto intro!: andThen_cong)
qed auto

text \<open>\<open>AssignNode\<close> of the assembler of type \<open>ty\<close>; \<open>nul\<close>: null is allowed here; \<open>wnil\<close>: the target
  pointer is nil.  A node of exactly the same generated type is copied; anything else is
  converted through the read methods, entry by entry.\<close>

function assignNode :: "tyname \<Rightarrow> bool \<Rightarrow> bool \<Rightarrow> node \<Rightarrow> tnode option res" where
  "assignNode ty nul wnil v =
     (if isNull v then assignNull ty nul
      else case (case v of NTyped t \<Rightarrow> if tnType t = ty then Some t else None | _ \<Rightarrow> None) of
        Some t \<Rightarrow> Ok (Some t)
      | None \<Rightarrow>
        (case typeDecl ty of
           DBytes \<Rightarrow> andThen (asBytes v) (assignBytes ty)
         | DLink \<Rightarrow> andThen (asLink v) (assignLink ty)
         | DString \<Rightarrow> andThen (asString v) (assignString ty)
         | DBool \<Rightarrow> andThen (asBool v) (assignBool ty)
         | DStruct _ \<Rightarrow>
             (if nodeKind v \<noteq> KMap then Fail (ErrWrongKind ''AssignNode'')
              else andThen
                (forEach (\<lambda>e ma. andThen (ma_key ma (fst e)) (\<lambda>ma.
                    ma_val ma (\<lambda>ty' nul'. assignNode ty' nul' (nul' \<and> ptrMaybe ty') (snd e))))
                  (mapEntries v) (newStructAsm ty wnil))
                (\<lambda>ma. andThen (sa_done ma) (\<lambda>t. Ok (Some t))))
         | DUnion _ \<Rightarrow>
             (if nodeKind v \<noteq> KMap then Fail (ErrWrongKind ''AssignNode'')
              else andThen
                (forEach (\<lambda>e ua. andThen (ua_key ua (fst e)) (\<lambda>ua.
                    ua_val ua (\<lambda>ty' nul'. assignNode ty' nul' False (snd e))))
                  (mapEntries v) (newUnionAsm ty wnil))
                (\<lambda>ua. andThen (ua_done ua) (\<lambda>t. Ok (Some t))))
         | DList _ \<Rightarrow>
             (if nodeKind v \<noteq> KList then Fail (ErrWrongKind ''AssignNode'')
              else andThen
                (forEach (\<lambda>e la. la_val la (\<lambda>ty' nul'. assignNode ty' nul' False e))
                  (listEntries v) (newListAsm ty))
                (\<lambda>la. andThen (la_done la) (\<lambda>t. Ok (Some t))))))"
  by pat_completeness auto
termination
  by (relation "measure (\<lambda>(_, _, _, v). nsize v)")
    (auto intro: nsize_mapEntries nsize_listEntries)

declare assignNode.simps [simp del]

text \<open>\<open>builder := Type.X.NewBuilder(); builder.AssignNode(inNode); builder.Build()\<close>.\<close>

definition wrapTyped :: "tyname \<Rightarrow> node \<Rightarrow> node res" where
  "wrapTyped ty v =
     andThen (assignNode ty False False v) (\<lambda>r.
       case r of
         Some t \<Rightarrow> Ok (NTyped t)
       | None \<Rightarrow> Panic ''invalid state: cannot call Build on an assembler that's not finished'')"

end
