(* ===== verification/Assembler_Laws.thy ===== *)
theory Assembler_Laws
  imports Assembler
begin

text \<open>
  The contract of the struct assemblers.  The locale states what a codec relies on: a field that
  has not been seen can be put, and once every field has been put the assembler yields the
  struct.  Its lemmas say that the entries may come in any order.  The generated struct
  assemblers are shown to satisfy the contract for every struct type of the schema, together
  with what happens on repeated, unknown and missing fields.
\<close>

unbundle bit_operations_syntax

section \<open>The interface\<close>

locale entry_assembler =
  fixes names :: "string list"
    and accepts :: "nat \<Rightarrow> 'v \<Rightarrow> bool"
    and inv :: "'st \<Rightarrow> (nat \<Rightarrow> 'v option) \<Rightarrow> bool"
    and put :: "'st \<Rightarrow> string \<Rightarrow> 'v \<Rightarrow> 'st res"
    and fin :: "'st \<Rightarrow> 'r res"
    and build :: "'v list \<Rightarrow> 'r"
  assumes names_distinct: "distinct names"
    and put_new: "inv st A \<Longrightarrow> idxOf names k = Some i \<Longrightarrow> A i = None \<Longrightarrow> accepts i r \<Longrightarrow>
        \<exists>st'. put st k r = Ok st' \<and> inv st' (A(i \<mapsto> r))"
    and put_repeated: "inv st A \<Longrightarrow> idxOf names k = Some i \<Longrightarrow> A i \<noteq> None \<Longrightarrow>
        put st k r = Fail (ErrRepeatedMapKey k)"
    and put_unknown: "inv st A \<Longrightarrow> idxOf names k = None \<Longrightarrow> put st k r = Fail (ErrInvalidKey k)"
    and fin_complete: "inv st A \<Longrightarrow> (\<forall>i<length names. A i \<noteq> None) \<Longrightarrow>
        fin st = Ok (build (map (\<lambda>i. the (A i)) [0..<length names]))"
    and fin_incomplete: "inv st A \<Longrightarrow> i < length names \<Longrightarrow> A i = None \<Longrightarrow>
        \<exists>ms. fin st = Fail (ErrMissingRequiredField ms)"
begin

definition puts :: "(string \<times> 'v) list \<Rightarrow> 'st \<Rightarrow> 'st res" where
  "puts es st = forEach (\<lambda>e st. put st (fst e) (snd e)) es st"

definition record_entries :: "(string \<times> 'v) list \<Rightarrow> (nat \<Rightarrow> 'v option) \<Rightarrow> nat \<Rightarrow> 'v option" where
  "record_entries es A i =
     (if i < length names then
        (case map_of es (names ! i) of Some r \<Rightarrow> Some r | None \<Rightarrow> A i) else A i)"

lemma puts_distinct:
  "inv st A \<Longrightarrow> distinct (map fst es) \<Longrightarrow>
   \<forall>(k, r) \<in> set es. \<exists>i. idxOf names k = Some i \<and> A i = None \<and> accepts i r \<Longrightarrow>
   \<exists>st'. puts es st = Ok st' \<and> inv st' (record_entries es A)"
proof (induction es arbitrary: st A)
  case Nil
  have "record_entries [] A = A" by (auto simp: record_entries_def)
  with Nil show ?case by (simp add: puts_def)
next
  case (Cons e es)
  obtain k r where e: "e = (k, r)" by force
  from Cons.prems(3) e obtain i where i: "idxOf names k = Some i" "A i = None" "accepts i r"
    by auto
  from put_new [OF Cons.prems(1) i] obtain st1 where
    st1: "put st k r = Ok st1" "inv st1 (A(i \<mapsto> r))" by auto
  have fresh: "\<forall>(k', r') \<in> set es. \<exists>j. idxOf names k' = Some j \<and> (A(i \<mapsto> r)) j = None \<and> accepts j r'"
  proof clarify
    fix k' r' assume in_es: "(k', r') \<in> set es"
    with Cons.prems(3) obtain j where j: "idxOf names k' = Some j" "A j = None" "accepts j r'"
      by auto
    have "k' \<noteq> k" using Cons.prems(2) e in_es by force
    with i(1) j(1) have "j \<noteq> i" using idxOf_inj by blast
    with j show "\<exists>j. idxOf names k' = Some j \<and> (A(i \<mapsto> r)) j = None \<and> accepts j r'" by auto
  qed
  have "distinct (map fst es)" using Cons.prems(2) by simp
  from Cons.IH [OF st1(2) this fresh] obtain st' where
    st': "puts es st1 = Ok st'" "inv st' (record_entries es (A(i \<mapsto> r)))" by blast
  have "record_entries es (A(i \<mapsto> r)) = record_entries (e # es) A"
  proof
    fix j
    have ik: "i < length names" "names ! i = k" using idxOf_SomeD [OF i(1)] by auto
    have "map_of es k = None" using Cons.prems(2) e by (simp add: map_of_eq_None_iff)
    moreover have "j < length names \<Longrightarrow> names ! j = k \<longleftrightarrow> j = i"
      using ik names_distinct by (metis nth_eq_iff_index_eq)
    ultimately show "record_entries es (A(i \<mapsto> r)) j = record_entries (e # es) A j"
      using e ik by (auto simp: record_entries_def split: option.split)
  qed
  with st' st1 e show ?case by (simp add: puts_def)
qed

text \<open>All fields, each once, in any order.\<close>

lemma puts_all:
  assumes "inv st (\<lambda>_. None)" "distinct (map fst es)" "set (map fst es) = set names"
    and acc: "\<And>i r. i < length names \<Longrightarrow> (names ! i, r) \<in> set es \<Longrightarrow> accepts i r"
  shows "andThen (puts es st) fin = Ok (build (map (\<lambda>k. the (map_of es k)) names))"
proof -
  have "\<forall>(k, r) \<in> set es. \<exists>i. idxOf names k = Some i \<and> None = None \<and> accepts i r"
  proof clarify
    fix k r assume in_es: "(k, r) \<in> set es"
    then have "k \<in> set names" using assms(3) by force
    then obtain i where i: "idxOf names k = Some i" using idxOf_None_iff by fastforce
    then have "i < length names" "names ! i = k" using idxOf_SomeD by auto
    with acc in_es i show "\<exists>i. idxOf names k = Some i \<and> None = None \<and> accepts i r" by auto
  qed
  with puts_distinct [OF assms(1,2)] obtain st' where
    st': "puts es st = Ok st'" "inv st' (record_entries es (\<lambda>_. None))" by auto
  have dom: "map_of es (names ! i) \<noteq> None" if "i < length names" for i
    using that assms(3) by (simp add: map_of_eq_None_iff)
  have entry: "record_entries es (\<lambda>_. None) i = map_of es (names ! i)" if "i < length names" for i
    using that dom [OF that] by (auto simp: record_entries_def split: option.split)
  have "fin st' = Ok (build (map (\<lambda>i. the (record_entries es (\<lambda>_. None) i)) [0..<length names]))"
    using st'(2) entry dom by (intro fin_complete) auto
  also have "map (\<lambda>i. the (record_entries es (\<lambda>_. None) i)) [0..<length names]
      = map (\<lambda>k. the (map_of es k)) names"
    by (rule nth_equalityI) (auto simp: entry)
  finally show ?thesis using st'(1) by simp
qed

lemma puts_order:
  assumes "inv st (\<lambda>_. None)" "distinct (map fst es)" "set (map fst es) = set names"
    and "\<And>i r. i < length names \<Longrightarrow> (names ! i, r) \<in> set es \<Longrightarrow> accepts i r"
    and "distinct (map fst es')" "set es' = set es"
  shows "andThen (puts es' st) fin = andThen (puts es st) fin"
proof -
  have "map_of es' = map_of es" using assms(2,5,6) by (metis map_of_inject_set)
  moreover have "set (map fst es') = set names" using assms(3,6) by simp
  ultimately show ?thesis
    using puts_all [OF assms(1-4)] puts_all [OF assms(1,5)] assms(4,6) by auto
qed

end

section \<open>The struct assemblers\<close>

text \<open>The abstract state: which fields have been put, with what.  \<open>sa_inv\<close> relates it to the
  concrete state between two entries.\<close>

definition sa_put :: "sasm \<Rightarrow> string \<Rightarrow> tnode option \<Rightarrow> sasm res" where
  "sa_put ma k r =
     andThen (ma_key ma k) (\<lambda>ma. andThen (assembleValue ma) (\<lambda>ma. Ok (storeChild ma r)))"

definition sa_accepts :: "tyname \<Rightarrow> nat \<Rightarrow> tnode option \<Rightarrow> bool" where
  "sa_accepts ty i r \<longleftrightarrow> (r = None \<longrightarrow> fnullable (fieldsOf ty ! i))"

definition sa_settled :: "sasm \<Rightarrow> bool" where
  "sa_settled st \<longleftrightarrow>
     sa_state st = maState_initial \<or>
     sa_state st = maState_midValue \<and> sa_f st < length (fieldsOf (sa_ty st)) \<and>
       (if fnullable (curField st) then sa_m st ! sa_f st \<in> {Maybe_Null, Maybe_Value}
        else sa_cm st = Maybe_Value)"

definition sa_inv :: "tyname \<Rightarrow> sasm \<Rightarrow> (nat \<Rightarrow> tnode option option) \<Rightarrow> bool" where
  "sa_inv ty st A \<longleftrightarrow>
     sa_ty st = ty \<and> \<not> sa_wnil st \<and> sa_settled st \<and>
     length (sa_w st) = length (fieldsOf ty) \<and> length (sa_m st) = length (fieldsOf ty) \<and>
     (\<forall>i. bit (sa_s st) i \<longleftrightarrow> i < length (fieldsOf ty) \<and> A i \<noteq> None) \<and>
     (\<forall>i<length (fieldsOf ty). \<forall>r. A i = Some r \<longrightarrow>
        (if fnullable (fieldsOf ty ! i) \<and> sa_m st ! i = Maybe_Null then None else sa_w st ! i) = r)"

lemma sa_inv_new [simp]: "sa_inv ty (newStructAsm ty False) (\<lambda>_. None)"
  by (simp add: sa_inv_def sa_settled_def newStructAsm_def)

lemma sa_ready_settled:
  "sa_settled st \<Longrightarrow> \<exists>st'. sa_ready st = Ok st' \<and> sa_state st' = maState_initial \<and>
     sa_ty st' = sa_ty st \<and> sa_wnil st' = sa_wnil st \<and> sa_s st' = sa_s st \<and>
     sa_w st' = sa_w st \<and> sa_m st' = sa_m st"
  by (auto simp: sa_settled_def sa_ready_def sa_tidy_def split: if_splits)

lemma and_exp_neq_0_iff: "(s :: int) AND 2 ^ i \<noteq> 0 \<longleftrightarrow> bit s i"
  by (simp add: and_exp_eq_0_iff_not_bit)

lemma sa_put_unfold:
  assumes "sa_settled st" "idxOf (fieldNames (sa_ty st)) k = Some i" "\<not> bit (sa_s st) i"
    "\<not> sa_wnil st" "length (sa_m st) = length (fieldsOf (sa_ty st))"
    "length (sa_w st) = length (fieldsOf (sa_ty st))" "sa_accepts (sa_ty st) i r"
  shows "\<exists>st'. sa_put st k r = Ok st' \<and> sa_settled st' \<and> sa_ty st' = sa_ty st \<and> \<not> sa_wnil st' \<and>
    sa_s st' = sa_s st + 2 ^ i \<and>
    sa_w st' = (case r of None \<Rightarrow> sa_w st | Some v \<Rightarrow> (sa_w st)[i := Some v]) \<and>
    length (sa_m st') = length (sa_m st) \<and> (\<forall>j. j \<noteq> i \<longrightarrow> sa_m st' ! j = sa_m st ! j) \<and>
    (fnullable (fieldsOf (sa_ty st) ! i) \<longrightarrow>
       sa_m st' ! i = (case r of None \<Rightarrow> Maybe_Null | Some _ \<Rightarrow> Maybe_Value))"
proof -
  have i: "i < length (fieldsOf (sa_ty st))" using idxOf_SomeD [OF assms(2)] by simp
  from sa_ready_settled [OF assms(1)] obtain st0 where st0: "sa_ready st = Ok st0"
    "sa_state st0 = maState_initial" "sa_ty st0 = sa_ty st" "sa_wnil st0 = sa_wnil st"
    "sa_s st0 = sa_s st" "sa_w st0 = sa_w st" "sa_m st0 = sa_m st" by blast
  show ?thesis
    using st0 assms i
    by (cases r; cases "fnullable (fieldsOf (sa_ty st) ! i)")
      (auto simp: sa_put_def ma_key_def assembleKey_def keyAssignString_def assembleValue_def
        sa_child_def and_exp_neq_0_iff curField_def sa_settled_def sa_accepts_def)
qed

lemma sa_put_new:
  assumes inv: "sa_inv ty st A" and k: "idxOf (fieldNames ty) k = Some i" and A: "A i = None"
    and acc: "sa_accepts ty i r"
  shows "\<exists>st'. sa_put st k r = Ok st' \<and> sa_inv ty st' (A(i \<mapsto> r))"
proof -
  have i: "i < length (fieldsOf ty)" using idxOf_SomeD [OF k] by simp
  have nb: "\<not> bit (sa_s st) i" using inv A by (simp add: sa_inv_def)
  have facts: "sa_settled st" "sa_ty st = ty" "\<not> sa_wnil st"
    "length (sa_w st) = length (fieldsOf ty)" "length (sa_m st) = length (fieldsOf ty)"
    using inv by (auto simp: sa_inv_def)
  obtain st' where st': "sa_put st k r = Ok st'" "sa_settled st'" "sa_ty st' = ty"
    "\<not> sa_wnil st'" "sa_s st' = sa_s st + 2 ^ i"
    "sa_w st' = (case r of None \<Rightarrow> sa_w st | Some v \<Rightarrow> (sa_w st)[i := Some v])"
    "length (sa_m st') = length (sa_m st)" "\<forall>j. j \<noteq> i \<longrightarrow> sa_m st' ! j = sa_m st ! j"
    "fnullable (fieldsOf ty ! i) \<longrightarrow>
       sa_m st' ! i = (case r of None \<Rightarrow> Maybe_Null | Some _ \<Rightarrow> Maybe_Value)"
    using sa_put_unfold [of st k i r] facts k nb acc by auto
  have bits: "bit (sa_s st') j \<longleftrightarrow> bit (sa_s st) j \<or> j = i" for j
    using st'(5) bit_add_power_int [OF nb] by simp
  have vals: "(if fnullable (fieldsOf ty ! j) \<and> sa_m st' ! j = Maybe_Null then None
      else sa_w st' ! j) = r'" if j: "j < length (fieldsOf ty)" and "(A(i \<mapsto> r)) j = Some r'" for j r'
  proof (cases "j = i")
    case True
    with that st' i facts acc show ?thesis
      by (cases r) (auto simp: sa_accepts_def split: if_splits)
  next
    case False
    with that have "A j = Some r'" by simp
    then have "(if fnullable (fieldsOf ty ! j) \<and> sa_m st ! j = Maybe_Null then None
        else sa_w st ! j) = r'" using inv j by (auto simp: sa_inv_def)
    with False st' show ?thesis by (cases r) auto
  qed
  have "sa_inv ty st' (A(i \<mapsto> r))"
    unfolding sa_inv_def using st' facts bits vals i inv
    by (auto simp: sa_inv_def split: option.split)
  with st'(1) show ?thesis by blast
qed

lemma sa_put_repeated:
  assumes inv: "sa_inv ty st A" and k: "idxOf (fieldNames ty) k = Some i" and A: "A i \<noteq> None"
  shows "sa_put st k r = Fail (ErrRepeatedMapKey k)"
proof -
  have i: "i < length (fieldsOf ty)" using idxOf_SomeD [OF k] by simp
  have b: "bit (sa_s st) i" "sa_settled st" "sa_ty st = ty" using inv A i by (auto simp: sa_inv_def)
  from sa_ready_settled [OF b(2)] obtain st0 where "sa_ready st = Ok st0"
    "sa_ty st0 = sa_ty st" "sa_s st0 = sa_s st" by blast
  with b k show ?thesis
    by (simp add: sa_put_def ma_key_def assembleKey_def keyAssignString_def and_exp_neq_0_iff)
qed

lemma sa_put_unknown:
  assumes inv: "sa_inv ty st A" and k: "idxOf (fieldNames ty) k = None"
  shows "sa_put st k r = Fail (ErrInvalidKey k)"
proof -
  have b: "sa_settled st" "sa_ty st = ty" using inv by (auto simp: sa_inv_def)
  from sa_ready_settled [OF b(1)] obtain st0 where "sa_ready st = Ok st0"
    "sa_ty st0 = sa_ty st" by blast
  with b k show ?thesis
    by (simp add: sa_put_def ma_key_def assembleKey_def keyAssignString_def)
qed

lemma sa_done_complete:
  assumes inv: "sa_inv ty st A" and all: "\<forall>i<length (fieldNames ty). A i \<noteq> None"
  shows "sa_done st = Ok (TnStruct ty (map (\<lambda>i. the (A i)) [0..<length (fieldNames ty)]))"
proof -
  have f: "sa_settled st" "sa_ty st = ty" using inv by (auto simp: sa_inv_def)
  from sa_ready_settled [OF f(1)] obtain st0 where st0: "sa_ready st = Ok st0"
    "sa_ty st0 = sa_ty st" "sa_s st0 = sa_s st" "sa_w st0 = sa_w st" "sa_m st0 = sa_m st" by blast
  have "\<forall>i<length (fieldsOf ty). bit (sa_s st) i" using inv all by (auto simp: sa_inv_def)
  then have "sa_s st AND mask (length (fieldsOf ty)) = mask (length (fieldsOf ty))"
    by (simp add: and_mask_eq_mask_iff)
  moreover have "map (\<lambda>i. if fnullable (fieldsOf ty ! i) \<and> sa_m st ! i = Maybe_Null then None
      else sa_w st ! i) [0..<length (fieldsOf ty)] = map (\<lambda>i. the (A i)) [0..<length (fieldsOf ty)]"
    using inv all by (intro map_cong) (auto simp: sa_inv_def)
  ultimately show ?thesis
    using st0 f by (simp add: sa_done_def sa_finish_def sa_build_def sa_fields_def cong: if_cong del: map_eq_conv)
qed

lemma sa_done_incomplete:
  assumes inv: "sa_inv ty st A" and i: "i < length (fieldNames ty)" "A i = None"
  shows "sa_done st = Fail (ErrMissingRequiredField (sa_missing st))"
proof -
  have f: "sa_settled st" "sa_ty st = ty" using inv by (auto simp: sa_inv_def)
  from sa_ready_settled [OF f(1)] obtain st0 where st0: "sa_ready st = Ok st0"
    "sa_ty st0 = sa_ty st" "sa_s st0 = sa_s st" by blast
  then have "sa_missing st0 = sa_missing st" by (simp add: sa_missing_def)
  have "\<not> bit (sa_s st) i" using inv i by (auto simp: sa_inv_def)
  then have "sa_s st AND mask (length (fieldsOf ty)) \<noteq> mask (length (fieldsOf ty))"
    using i(1) by (auto simp: and_mask_eq_mask_iff)
  with st0 f \<open>sa_missing st0 = sa_missing st\<close> show ?thesis by (simp add: sa_done_def sa_finish_def)
qed

interpretation sa: entry_assembler "fieldNames ty" "sa_accepts ty" "sa_inv ty" sa_put sa_done
    "TnStruct ty" for ty
proof (unfold_locales, goal_cases)
  case 1
  show ?case by simp
next
  case (2 st A k i r)
  then show ?case by (rule sa_put_new)
next
  case (3 st A k i r)
  then show ?case by (rule sa_put_repeated)
next
  case (4 st A k r)
  then show ?case by (rule sa_put_unknown)
next
  case (5 st A)
  then show ?case by (rule sa_done_complete)
next
  case (6 st A i)
  then show ?case using sa_done_incomplete by blast
qed

section \<open>Entries as the codecs write them\<close>

lemma sa_ready_ty: "sa_ready st = Ok st' \<Longrightarrow> sa_ty st' = sa_ty st"
  by (auto simp: sa_ready_def sa_tidy_def split: maState.splits if_splits maybe.splits)

lemma ma_key_Ok:
  "ma_key ma k = Ok ma' \<Longrightarrow>
   sa_ty ma' = sa_ty ma \<and> idxOf (fieldNames (sa_ty ma)) k = Some (sa_f ma') \<and>
   sa_state ma' = maState_expectValue"
  by (auto simp: ma_key_def assembleKey_def keyAssignString_def dest!: sa_ready_ty
      split: if_splits option.splits)

lemma assembleValue_Ok:
  "assembleValue ma = Ok ma' \<Longrightarrow> sa_ty ma' = sa_ty ma \<and> sa_f ma' = sa_f ma \<and> curField ma' = curField ma"
  by (auto simp: assembleValue_def sa_child_def curField_def split: maState.splits if_splits)

lemma sa_put_ty: "sa_put ma k r = Ok ma' \<Longrightarrow> sa_ty ma' = sa_ty ma"
  by (cases r) (auto simp: sa_put_def dest!: ma_key_Ok assembleValue_Ok)

text \<open>A key followed by a value that the child's assembler accepts is a put.\<close>

lemma ma_put:
  assumes "idxOf (fieldNames (sa_ty ma)) k = Some i"
    and "x (ftype (fieldsOf (sa_ty ma) ! i)) (fnullable (fieldsOf (sa_ty ma) ! i)) = Ok r"
  shows "andThen (ma_key ma k) (\<lambda>ma. ma_val ma x) = sa_put ma k r"
proof -
  have "ma_val ma' x = andThen (assembleValue ma') (\<lambda>ma. Ok (storeChild ma r))"
    if "ma_key ma k = Ok ma'" for ma'
    unfolding ma_val_def using ma_key_Ok [OF that] assms
    by (intro andThen_cong) (auto dest!: assembleValue_Ok simp: curField_def)
  then show ?thesis
    unfolding sa_put_def by (intro andThen_cong) auto
qed

definition sa_puts :: "(string \<times> tnode option) list \<Rightarrow> sasm \<Rightarrow> sasm res" where
  "sa_puts es ma = forEach (\<lambda>e ma. sa_put ma (fst e) (snd e)) es ma"

lemma sa_puts_simps [simp]:
  "sa_puts [] = Ok"
  "sa_puts (e # es) ma = andThen (sa_put ma (fst e) (snd e)) (sa_puts es)"
  by (auto simp: sa_puts_def fun_eq_iff intro: andThen_cong)

lemma sa_puts_append: "sa_puts (xs @ ys) ma = andThen (sa_puts xs ma) (sa_puts ys)"
  by (induction xs arbitrary: ma) (auto simp: andThen_assoc intro: andThen_cong)

lemma sa_puts_ty: "sa_puts es ma = Ok ma' \<Longrightarrow> sa_ty ma' = sa_ty ma"
  by (induction es arbitrary: ma) (auto dest: sa_put_ty)

definition puts_as :: "tyname \<Rightarrow> (sasm \<Rightarrow> sasm res) \<Rightarrow> (string \<times> tnode option) list \<Rightarrow> bool" where
  "puts_as ty f es \<longleftrightarrow> (\<forall>ma. sa_ty ma = ty \<longrightarrow> f ma = sa_puts es ma)"

lemma runAll_puts:
  "list_all2 (puts_as ty) fs ess \<Longrightarrow> sa_ty ma = ty \<Longrightarrow> runAll fs ma = sa_puts (concat ess) ma"
proof (induction fs ess arbitrary: ma rule: list_all2_induct)
  case (Cons f fs es ess)
  then have "f ma = sa_puts es ma" by (simp add: puts_as_def)
  moreover have "andThen (sa_puts es ma) (runAll fs) = andThen (sa_puts es ma) (sa_puts (concat ess))"
    using Cons by (intro andThen_cong) (auto dest: sa_puts_ty)
  ultimately show ?case by (simp add: sa_puts_append)
qed simp

definition nullableIn :: "tyname \<Rightarrow> string \<Rightarrow> bool" where
  "nullableIn ty k =
     (case idxOf (fieldNames ty) k of Some i \<Rightarrow> fnullable (fieldsOf ty ! i) | None \<Rightarrow> False)"

text \<open>The whole struct: every field once, in any order.\<close>

lemma sa_struct:
  assumes "distinct (map fst es)" "set (map fst es) = set (fieldNames ty)"
    and nul: "list_all (\<lambda>e. snd e = None \<longrightarrow> nullableIn ty (fst e)) es"
  shows "andThen (sa_puts es (newStructAsm ty False)) sa_done
    = Ok (TnStruct ty (map (\<lambda>k. the (map_of es k)) (fieldNames ty)))"
proof -
  have "sa_accepts ty i r" if "i < length (fieldNames ty)" "(fieldNames ty ! i, r) \<in> set es" for i r
    using that nul idxOf_nth [OF distinct_fieldNames that(1)]
    by (force simp: sa_accepts_def nullableIn_def list_all_iff)
  from sa.puts_all [OF sa_inv_new assms(1,2) this] show ?thesis
    by (simp add: sa_puts_def sa.puts_def [abs_def])
qed

text \<open>The state after some fields, each once, in any order.\<close>

definition knownEntries :: "tyname \<Rightarrow> (string \<times> tnode option) list \<Rightarrow> bool" where
  "knownEntries ty es \<longleftrightarrow> distinct (map fst es) \<and> set (map fst es) \<subseteq> set (fieldNames ty) \<and>
     list_all (\<lambda>e. snd e = None \<longrightarrow> nullableIn ty (fst e)) es"

lemma sa_puts_known:
  assumes "knownEntries ty es"
  shows "\<exists>st A. sa_puts es (newStructAsm ty False) = Ok st \<and> sa_inv ty st A \<and>
    (\<forall>i<length (fieldNames ty). A i = map_of es (fieldNames ty ! i))"
proof -
  have "\<forall>(k, r) \<in> set es. \<exists>i. idxOf (fieldNames ty) k = Some i \<and> None = None \<and> sa_accepts ty i r"
  proof clarify
    fix k r assume kr: "(k, r) \<in> set es"
    then have "k \<in> set (fieldNames ty)" using assms by (force simp: knownEntries_def)
    then obtain i where "idxOf (fieldNames ty) k = Some i" using idxOf_None_iff by fastforce
    with kr assms show "\<exists>i. idxOf (fieldNames ty) k = Some i \<and> None = None \<and> sa_accepts ty i r"
      by (auto simp: knownEntries_def sa_accepts_def nullableIn_def list_all_iff)
  qed
  from sa.puts_distinct [OF sa_inv_new _ this] assms obtain st where
    "sa_puts es (newStructAsm ty False) = Ok st" "sa_inv ty st (sa.record_entries ty es (\<lambda>_. None))"
    by (auto simp: knownEntries_def sa_puts_def sa.puts_def)
  moreover have "sa.record_entries ty es (\<lambda>_. None) i = map_of es (fieldNames ty ! i)"
    if "i < length (fieldNames ty)" for i
    using that by (auto simp: sa.record_entries_def split: option.split)
  ultimately show ?thesis by blast
qed

lemma sa_missing_names:
  assumes "sa_inv ty st A" "\<forall>i<length (fieldNames ty). A i = map_of es (fieldNames ty ! i)"
  shows "sa_missing st = filter (\<lambda>k. map_of es k = None \<and> \<not> nullableIn ty k) (fieldNames ty)"
proof -
  let ?ns = "fieldNames ty" and ?n = "length (fieldNames ty)"
  have ty: "sa_ty st = ty" using assms(1) by (simp add: sa_inv_def)
  have bits: "sa_s st AND 2 ^ i = 0 \<longleftrightarrow> A i = None" if "i < ?n" for i
    using that assms(1) and_exp_neq_0_iff [of "sa_s st" i] by (cases "A i") (simp_all add: sa_inv_def)
  have "sa_missing st = map fst (filter (\<lambda>(nm, i). map_of es nm = None \<and> \<not> nullableIn ty nm) (zip ?ns [0..<?n]))"
    unfolding sa_missing_def ty length_fieldNames [symmetric]
  proof (intro arg_cong [where f = "map fst"] filter_cong refl)
    fix x assume "x \<in> set (zip ?ns [0..<?n])"
    then obtain i where i: "i < ?n" "x = (?ns ! i, i)" by (auto simp: set_zip)
    then have "nullableIn ty (?ns ! i) = fnullable (fieldsOf ty ! i)"
      by (simp add: nullableIn_def idxOf_nth [OF distinct_fieldNames])
    with i bits [OF i(1)] assms(2) show "(case x of (nm, i) \<Rightarrow> sa_s st AND 2 ^ i = 0 \<and> \<not> fnullable (fieldsOf ty ! i)) =
        (case x of (nm, i) \<Rightarrow> map_of es nm = None \<and> \<not> nullableIn ty nm)" by simp
  qed
  also have "\<dots> = filter (\<lambda>k. map_of es k = None \<and> \<not> nullableIn ty k) (map fst (zip ?ns [0..<?n]))"
    by (simp only: filter_map comp_def case_prod_unfold)
  finally show ?thesis by simp
qed

lemma sa_struct_missing:
  assumes "knownEntries ty es" "set (map fst es) \<noteq> set (fieldNames ty)"
  shows "andThen (sa_puts es (newStructAsm ty False)) sa_done = Fail (ErrMissingRequiredField
    (filter (\<lambda>k. map_of es k = None \<and> \<not> nullableIn ty k) (fieldNames ty)))"
proof -
  obtain st A where st: "sa_puts es (newStructAsm ty False) = Ok st" "sa_inv ty st A"
      "\<forall>i<length (fieldNames ty). A i = map_of es (fieldNames ty ! i)"
    using sa_puts_known [OF assms(1)] by blast
  obtain k where "k \<in> set (fieldNames ty)" "k \<notin> set (map fst es)"
    using assms by (auto simp: knownEntries_def)
  then obtain i where i: "i < length (fieldNames ty)" "A i = None"
    using st(3) by (auto simp: in_set_conv_nth map_of_eq_None_iff)
  from sa_done_incomplete [OF st(2) i] sa_missing_names [OF st(2,3)] st(1) show ?thesis by simp
qed

section \<open>Lists and unions\<close>

text \<open>A list assembler between two elements; appending elements gives the list.\<close>

definition la_inv :: "tyname \<Rightarrow> lasm \<Rightarrow> tnode list \<Rightarrow> bool" where
  "la_inv ty la ts \<longleftrightarrow> la_ty la = ty \<and> la_x la = ts \<and>
     (la_state la = laState_initial \<or> la_state la = laState_midValue \<and> la_cm la = Maybe_Value)"

lemma la_inv_new [simp]: "la_inv ty (newListAsm ty) []"
  by (simp add: la_inv_def newListAsm_def)

lemma la_val_Ok:
  "la_inv ty la ts \<Longrightarrow> x (elemType ty) False = Ok (Some t) \<Longrightarrow>
   \<exists>la'. la_val la x = Ok la' \<and> la_inv ty la' (ts @ [t])"
  by (auto simp: la_inv_def la_val_defs la_ready_def)

lemma la_done_Ok: "la_inv ty la ts \<Longrightarrow> la_done la = Ok (TnList ty ts)"
  by (auto simp: la_inv_def la_done_defs la_ready_def)

lemma forEach_la_val:
  "la_inv ty la ts \<Longrightarrow> (\<And>e. e \<in> set es \<Longrightarrow> x e (elemType ty) False = Ok (Some (g e))) \<Longrightarrow>
   \<exists>la'. forEach (\<lambda>e la. la_val la (x e)) es la = Ok la' \<and> la_inv ty la' (ts @ map g es)"
proof (induction es arbitrary: la ts)
  case (Cons e es)
  then obtain la1 where "la_val la (x e) = Ok la1" "la_inv ty la1 (ts @ [g e])"
    using la_val_Ok by (metis list.set_intros(1))
  with Cons.IH [of la1 "ts @ [g e]"] Cons.prems(2) show ?case by auto
qed auto

lemma la_list:
  assumes "\<And>e. e \<in> set es \<Longrightarrow> x e (elemType ty) False = Ok (Some (g e))"
  shows "andThen (forEach (\<lambda>e la. la_val la (x e)) es (newListAsm ty)) la_done
    = Ok (TnList ty (map g es))"
  using forEach_la_val [of ty "newListAsm ty" "[]" es x g] assms by (auto simp: la_done_Ok)

lemma idxOf_member: "idxOf (memberNames ty) k = Some i \<Longrightarrow> i < length (membersOf ty)"
  using idxOf_SomeD by (fastforce simp: memberNames_def)

lemma ua_member:
  assumes "idxOf (memberNames ty) k = Some i" "x (snd (membersOf ty ! i)) False = Ok (Some t)"
  shows "andThen (andThen (ua_key (newUnionAsm ty False) k) (\<lambda>ua. ua_val ua x)) ua_done
    = Ok (TnUnion ty (Suc i) t)"
  using assms idxOf_member [OF assms(1)]
  by (simp add: newUnionAsm_def ua_key_eq ua_ready_def ua_val_defs ua_done_def ua_finish_def)

lemma ua_empty:
  "ua_done (newUnionAsm ty b)
    = Fail (ErrNotUnionStructure ''a union must have exactly one entry (not none)!'')"
  by (simp add: newUnionAsm_def ua_done_def ua_finish_def ua_ready_def)

section \<open>\<open>AssignNode\<close> on generated types\<close>

lemma assignNode_same: "tnType t = ty \<Longrightarrow> assignNode ty nul wnil (NTyped t) = Ok (Some t)"
  by (subst assignNode.simps) simp

lemma wrapTyped_same [simp]: "tnType t = ty \<Longrightarrow> wrapTyped ty (NTyped t) = Ok (NTyped t)"
  by (simp add: wrapTyped_def assignNode_same)

end
