(* ===== verification/Eth_Types.thy ===== *)
theory Eth_Types
  imports Node
begin

text \<open>
  What the codecs use of code outside the repository.  The records are the go-ethereum structs
  the codecs fill and read (field names after the Go fields; a pointer that may be nil is an
  option).  \<open>ext\<close> collects the third-party functions the codecs call; every definition that
  calls one takes an \<open>ext\<close> as its first argument.  The predicates below state the documented
  behaviour of those functions that the properties rely on.
\<close>

section \<open>go-ethereum values\<close>

record header =
  h_ParentHash :: bytes
  h_UncleHash :: bytes
  h_Coinbase :: bytes
  h_Root :: bytes
  h_TxHash :: bytes
  h_ReceiptHash :: bytes
  h_Bloom :: bytes
  h_Difficulty :: "int option"
  h_Number :: "int option"
  h_GasLimit :: u64
  h_GasUsed :: u64
  h_Time :: u64
  h_Extra :: bytes
  h_MixDigest :: bytes
  h_Nonce :: bytes
  h_BaseFee :: "int option"
  h_WithdrawalsHash :: "bytes option"

record log =
  l_Address :: bytes
  l_Topics :: "bytes list"
  l_Data :: bytes

record receipt =
  r_Type :: byte
  r_PostState :: bytes
  r_Status :: u64
  r_CumulativeGasUsed :: u64
  r_Bloom :: bytes
  r_Logs :: "log list"

record stateAccount =
  a_Nonce :: u64
  a_Balance :: "int option"
  a_Root :: bytes
  a_CodeHash :: bytes

record accessTuple =
  at_Address :: bytes
  at_StorageKeys :: "bytes list"

record legacyTx =
  lt_Nonce :: u64
  lt_GasPrice :: "int option"
  lt_Gas :: u64
  lt_To :: "bytes option"
  lt_Value :: "int option"
  lt_Data :: bytes
  lt_V :: "int option"
  lt_R :: "int option"
  lt_S :: "int option"

record accessListTx =
  al_ChainID :: "int option"
  al_Nonce :: u64
  al_GasPrice :: "int option"
  al_Gas :: u64
  al_To :: "bytes option"
  al_Value :: "int option"
  al_Data :: bytes
  al_AccessList :: "accessTuple list"
  al_V :: "int option"
  al_R :: "int option"
  al_S :: "int option"

record dynamicFeeTx =
  df_ChainID :: "int option"
  df_Nonce :: u64
  df_GasTipCap :: "int option"
  df_GasFeeCap :: "int option"
  df_Gas :: u64
  df_To :: "bytes option"
  df_Value :: "int option"
  df_Data :: bytes
  df_AccessList :: "accessTuple list"
  df_V :: "int option"
  df_R :: "int option"
  df_S :: "int option"

text \<open>\<open>types.Transaction\<close> is opaque: a value is what its accessor methods return.\<close>

record transaction =
  t_Type :: byte
  t_ChainId :: int
  t_Nonce :: u64
  t_GasPrice :: int
  t_GasTipCap :: int
  t_GasFeeCap :: int
  t_Gas :: u64
  t_To :: "bytes option"
  t_Value :: int
  t_Data :: bytes
  t_AccessList :: "accessTuple list"
  t_V :: int
  t_R :: int
  t_S :: int

text \<open>\<open>types.TxData\<close>: the struct inside a transaction.\<close>

datatype txData =
    LegacyTxData legacyTx | AccessListTxData accessListTx | DynamicFeeTxData dynamicFeeTx

text \<open>The consensus encoding of a receipt, a struct of \<open>rct/marshal.go\<close>.\<close>

record receiptRLP =
  rr_PostStateOrStatus :: bytes
  rr_CumulativeGasUsed :: u64
  rr_Bloom :: bytes
  rr_Logs :: "log list"

text \<open>A go-ethereum trie under construction, by its contents.\<close>

type_synonym ethTrie = "(bytes \<times> bytes) list"

text \<open>RLP decoded into \<open>interface{}\<close>: byte slices and slices of such values.\<close>

datatype rlpItem = RBytes bytes | RList "rlpItem list"

section \<open>Constants\<close>

text \<open>Sizes of the fixed-size byte arrays, transaction types, receipt status values, the
  multihash code and the multicodec codes of the imported packages.\<close>

definition HashLength :: nat where "HashLength = 32"
definition AddressLength :: nat where "AddressLength = 20"
definition BloomByteLength :: nat where "BloomByteLength = 256"
definition BlockNonceLength :: nat where "BlockNonceLength = 8"

definition LegacyTxType :: byte where "LegacyTxType = 0"
definition AccessListTxType :: byte where "AccessListTxType = 1"
definition DynamicFeeTxType :: byte where "DynamicFeeTxType = 2"

definition ReceiptStatusFailed :: u64 where "ReceiptStatusFailed = 0"
definition ReceiptStatusSuccessful :: u64 where "ReceiptStatusSuccessful = 1"

definition KECCAK_256 :: u64 where "KECCAK_256 = 0x1b"

definition cid_Raw :: u64 where "cid_Raw = 0x55"
definition EthBlock :: u64 where "EthBlock = 0x90"
definition EthBlockList :: u64 where "EthBlockList = 0x91"
definition EthTxTrie :: u64 where "EthTxTrie = 0x92"
definition EthTx :: u64 where "EthTx = 0x93"
definition EthTxReceiptTrie :: u64 where "EthTxReceiptTrie = 0x94"
definition EthTxReceipt :: u64 where "EthTxReceipt = 0x95"
definition EthStateTrie :: u64 where "EthStateTrie = 0x96"
definition EthAccountSnapshot :: u64 where "EthAccountSnapshot = 0x97"
definition EthStorageTrie :: u64 where "EthStorageTrie = 0x98"

lemmas status_defs = ReceiptStatusFailed_def ReceiptStatusSuccessful_def
lemmas length_defs = HashLength_def AddressLength_def BloomByteLength_def BlockNonceLength_def
lemmas txtype_defs = LegacyTxType_def AccessListTxType_def DynamicFeeTxType_def
lemmas codec_defs = cid_Raw_def EthBlock_def EthBlockList_def EthTxTrie_def EthTx_def
  EthTxReceiptTrie_def EthTxReceipt_def EthStateTrie_def EthAccountSnapshot_def EthStorageTrie_def

section \<open>Third-party functions\<close>

record ext =
  bytesToHash :: "bytes \<Rightarrow> bytes"
  bytesToAddress :: "bytes \<Rightarrow> bytes"
  bytesToBloom :: "bytes \<Rightarrow> bytes res"
  keccak256 :: "bytes \<Rightarrow> bytes"
  mhEncode :: "bytes \<Rightarrow> u64 \<Rightarrow> bytes res"
  mhDecode :: "bytes \<Rightarrow> bytes res"
  newCidV1 :: "u64 \<Rightarrow> bytes \<Rightarrow> cid"
  cidHash :: "cid \<Rightarrow> bytes"
  cidCodec :: "cid \<Rightarrow> u64"
  prefixSum :: "u64 \<Rightarrow> u64 \<Rightarrow> bytes \<Rightarrow> cid res"
  rlpDecodeFields :: "bytes \<Rightarrow> rlpItem list res"
  rlpEncodeFields :: "rlpItem list \<Rightarrow> bytes res"
  rlpDecodeHeader :: "bytes \<Rightarrow> header res"
  rlpEncodeHeader :: "header \<Rightarrow> bytes res"
  rlpDecodeHeaders :: "bytes \<Rightarrow> header list res"
  rlpEncodeHeaders :: "header list \<Rightarrow> bytes res"
  rlpDecodeLog :: "bytes \<Rightarrow> log res"
  rlpEncodeLog :: "log \<Rightarrow> bytes res"
  rlpDecodeAccount :: "bytes \<Rightarrow> stateAccount res"
  rlpEncodeAccount :: "stateAccount \<Rightarrow> bytes res"
  rlpEncodeLegacyTx :: "legacyTx \<Rightarrow> bytes res"
  rlpEncodeAccessListTx :: "accessListTx \<Rightarrow> bytes res"
  rlpEncodeDynamicFeeTx :: "dynamicFeeTx \<Rightarrow> bytes res"
  deriveChainId :: "int \<Rightarrow> int"
  txUnmarshalBinary :: "bytes \<Rightarrow> transaction res"
  rlpEncodeReceiptRLP :: "receiptRLP \<Rightarrow> bytes res"
  rctUnmarshalBinary :: "bytes \<Rightarrow> receipt res"
  rlpEncodeUint :: "nat \<Rightarrow> bytes res"
  trieNew :: "ethTrie res"
  trieUpdate :: "ethTrie \<Rightarrow> bytes \<Rightarrow> bytes \<Rightarrow> ethTrie res"
  trieHash :: "ethTrie \<Rightarrow> bytes"

section \<open>Documented behaviour\<close>

text \<open>\<open>common.BytesToHash\<close>, \<open>BytesToAddress\<close> and \<open>types.BytesToBloom\<close> return an argument of the
  right length unchanged.\<close>

definition conv_laws :: "ext \<Rightarrow> bool" where
  "conv_laws E \<longleftrightarrow>
     (\<forall>b. length b = HashLength \<longrightarrow> bytesToHash E b = b) \<and>
     (\<forall>b. length b = AddressLength \<longrightarrow> bytesToAddress E b = b) \<and>
     (\<forall>b. length b = BloomByteLength \<longrightarrow> bytesToBloom E b = Ok b)"

text \<open>\<open>multihash.Encode\<close> of a digest succeeds and \<open>multihash.Decode\<close>, which supports digests up to
  \<open>2 ^ 31 - 1\<close> bytes, recovers it; a CID returns the multihash and the codec it was made from.\<close>

definition maxDigest :: nat where "maxDigest = 2 ^ 31"

definition cid_laws :: "ext \<Rightarrow> bool" where
  "cid_laws E \<longleftrightarrow>
     (\<forall>d. length d < maxDigest \<longrightarrow>
        (\<exists>m. mhEncode E d KECCAK_256 = Ok m \<and> mhDecode E m = Ok d)) \<and>
     (\<forall>c m. cidHash E (newCidV1 E c m) = m) \<and>
     (\<forall>c m. cidCodec E (newCidV1 E c m) = c)"

text \<open>RLP, for a type whose decoded values satisfy \<open>canon\<close>: decoding accepts only the canonical
  encoding, and decoding an encoding gives the value back.\<close>

definition rlp_laws :: "('a \<Rightarrow> bool) \<Rightarrow> ('a \<Rightarrow> bytes res) \<Rightarrow> (bytes \<Rightarrow> 'a res) \<Rightarrow> bool" where
  "rlp_laws canon enc dec \<longleftrightarrow>
     (\<forall>b x. dec b = Ok x \<longrightarrow> canon x \<and> enc x = Ok b) \<and>
     (\<forall>b x. canon x \<longrightarrow> enc x = Ok b \<longrightarrow> dec b = Ok x)"

text \<open>Transactions.  What the accessors return for each kind of transaction data (the chain id of a
  legacy transaction is derived from its signature), the canonical encoding, and the data that
  decoding yields.  \<open>UnmarshalBinary\<close> accepts exactly the canonical encodings.\<close>

fun txView :: "ext \<Rightarrow> txData \<Rightarrow> transaction" where
  "txView E (LegacyTxData d) =
     \<lparr>t_Type = LegacyTxType, t_ChainId = deriveChainId E (the (lt_V d)), t_Nonce = lt_Nonce d,
      t_GasPrice = the (lt_GasPrice d), t_GasTipCap = the (lt_GasPrice d),
      t_GasFeeCap = the (lt_GasPrice d), t_Gas = lt_Gas d, t_To = lt_To d, t_Value = the (lt_Value d),
      t_Data = lt_Data d, t_AccessList = [], t_V = the (lt_V d), t_R = the (lt_R d),
      t_S = the (lt_S d)\<rparr>"
| "txView E (AccessListTxData d) =
     \<lparr>t_Type = AccessListTxType, t_ChainId = the (al_ChainID d), t_Nonce = al_Nonce d,
      t_GasPrice = the (al_GasPrice d), t_GasTipCap = the (al_GasPrice d),
      t_GasFeeCap = the (al_GasPrice d), t_Gas = al_Gas d, t_To = al_To d, t_Value = the (al_Value d),
      t_Data = al_Data d, t_AccessList = al_AccessList d, t_V = the (al_V d), t_R = the (al_R d),
      t_S = the (al_S d)\<rparr>"
| "txView E (DynamicFeeTxData d) =
     \<lparr>t_Type = DynamicFeeTxType, t_ChainId = the (df_ChainID d), t_Nonce = df_Nonce d,
      t_GasPrice = the (df_GasFeeCap d), t_GasTipCap = the (df_GasTipCap d),
      t_GasFeeCap = the (df_GasFeeCap d), t_Gas = df_Gas d, t_To = df_To d, t_Value = the (df_Value d),
      t_Data = df_Data d, t_AccessList = df_AccessList d, t_V = the (df_V d), t_R = the (df_R d),
      t_S = the (df_S d)\<rparr>"

fun txMarshal :: "ext \<Rightarrow> txData \<Rightarrow> bytes res" where
  "txMarshal E (LegacyTxData d) = rlpEncodeLegacyTx E d"
| "txMarshal E (AccessListTxData d) =
     andThen (rlpEncodeAccessListTx E d) (\<lambda>b. Ok (AccessListTxType # b))"
| "txMarshal E (DynamicFeeTxData d) =
     andThen (rlpEncodeDynamicFeeTx E d) (\<lambda>b. Ok (DynamicFeeTxType # b))"

definition nonneg :: "int option \<Rightarrow> bool" where
  "nonneg x \<longleftrightarrow> (case x of None \<Rightarrow> False | Some v \<Rightarrow> 0 \<le> v)"

definition toCanon :: "bytes option \<Rightarrow> bool" where
  "toCanon x \<longleftrightarrow> (case x of None \<Rightarrow> True | Some a \<Rightarrow> length a = AddressLength)"

definition accessCanon :: "accessTuple \<Rightarrow> bool" where
  "accessCanon a \<longleftrightarrow> length (at_Address a) = AddressLength \<and>
     list_all (\<lambda>k. length k = HashLength) (at_StorageKeys a)"

fun txCanon :: "txData \<Rightarrow> bool" where
  "txCanon (LegacyTxData d) \<longleftrightarrow>
     list_all nonneg [lt_GasPrice d, lt_Value d, lt_V d, lt_R d, lt_S d] \<and> toCanon (lt_To d)"
| "txCanon (AccessListTxData d) \<longleftrightarrow>
     list_all nonneg [al_ChainID d, al_GasPrice d, al_Value d, al_V d, al_R d, al_S d] \<and>
     toCanon (al_To d) \<and> list_all accessCanon (al_AccessList d)"
| "txCanon (DynamicFeeTxData d) \<longleftrightarrow>
     list_all nonneg [df_ChainID d, df_GasTipCap d, df_GasFeeCap d, df_Value d, df_V d, df_R d, df_S d]
     \<and> toCanon (df_To d) \<and> list_all accessCanon (df_AccessList d)"

definition tx_laws :: "ext \<Rightarrow> bool" where
  "tx_laws E \<longleftrightarrow>
     (\<forall>b t. txUnmarshalBinary E b = Ok t \<longrightarrow>
        (\<exists>d. txCanon d \<and> t = txView E d \<and> txMarshal E d = Ok b)) \<and>
     (\<forall>b d. txCanon d \<longrightarrow> txMarshal E d = Ok b \<longrightarrow> txUnmarshalBinary E b = Ok (txView E d))"

text \<open>Receipts.  The consensus fields of a receipt, its canonical encoding, and the receipts that
  \<open>UnmarshalBinary\<close> yields, from exactly the canonical encodings.\<close>

definition rctStatusEncoding :: "receipt \<Rightarrow> bytes" where
  "rctStatusEncoding r =
     (if r_PostState r \<noteq> [] then r_PostState r
      else if r_Status r = ReceiptStatusFailed then [] else [1])"

definition rctRLPOf :: "receipt \<Rightarrow> receiptRLP" where
  "rctRLPOf r = \<lparr>rr_PostStateOrStatus = rctStatusEncoding r,
     rr_CumulativeGasUsed = r_CumulativeGasUsed r, rr_Bloom = r_Bloom r, rr_Logs = r_Logs r\<rparr>"

definition rctMarshal :: "ext \<Rightarrow> receipt \<Rightarrow> bytes res" where
  "rctMarshal E r =
     andThen (rlpEncodeReceiptRLP E (rctRLPOf r))
       (\<lambda>b. Ok (if r_Type r = LegacyTxType then b else r_Type r # b))"

definition logGood :: "log \<Rightarrow> bool" where
  "logGood l \<longleftrightarrow> length (l_Address l) = AddressLength \<and>
     list_all (\<lambda>t. length t = HashLength) (l_Topics l)"

definition rctCanon :: "receipt \<Rightarrow> bool" where
  "rctCanon r \<longleftrightarrow>
     r_Type r \<in> {LegacyTxType, AccessListTxType, DynamicFeeTxType} \<and>
     (r_PostState r = [] \<and> r_Status r \<in> {ReceiptStatusFailed, ReceiptStatusSuccessful} \<or>
      length (r_PostState r) = HashLength \<and> r_Status r = 0) \<and>
     length (r_Bloom r) = BloomByteLength \<and> list_all logGood (r_Logs r)"

text \<open>Building a trie of logs in memory succeeds, and its root is a hash.\<close>

definition trie_laws :: "ext \<Rightarrow> bool" where
  "trie_laws E \<longleftrightarrow> is_ok (trieNew E) \<and> (\<forall>n. is_ok (rlpEncodeUint E n)) \<and>
     (\<forall>l. is_ok (rlpEncodeLog E l)) \<and> (\<forall>t k v. is_ok (trieUpdate E t k v)) \<and>
     (\<forall>t. length (trieHash E t) = HashLength)"

lemma conv_lawsD:
  assumes "conv_laws E"
  shows "length b = HashLength \<Longrightarrow> bytesToHash E b = b"
    and "length b = AddressLength \<Longrightarrow> bytesToAddress E b = b"
    and "length b = BloomByteLength \<Longrightarrow> bytesToBloom E b = Ok b"
  using assms by (auto simp: conv_laws_def)

lemma cid_lawsD:
  assumes "cid_laws E"
  shows "length d < maxDigest \<Longrightarrow> \<exists>m. mhEncode E d KECCAK_256 = Ok m \<and> mhDecode E m = Ok d"
    and "cidHash E (newCidV1 E c m) = m" and "cidCodec E (newCidV1 E c m) = c"
  using assms by (auto simp: cid_laws_def)

lemma rlp_lawsD:
  assumes "rlp_laws canon enc dec"
  shows "dec b = Ok x \<Longrightarrow> canon x" and "dec b = Ok x \<Longrightarrow> enc x = Ok b"
    and "canon x \<Longrightarrow> enc x = Ok b \<Longrightarrow> dec b = Ok x"
  using assms unfolding rlp_laws_def by blast+

text \<open>The multihash of a 32-byte digest, and the link that the codecs make of it.\<close>

definition mhOf :: "ext \<Rightarrow> bytes \<Rightarrow> bytes" where
  "mhOf E d = (case mhEncode E d KECCAK_256 of Ok m \<Rightarrow> m | _ \<Rightarrow> [])"

definition linkOf :: "ext \<Rightarrow> u64 \<Rightarrow> bytes \<Rightarrow> link" where
  "linkOf E c d = CidLink (newCidV1 E c (mhOf E d))"

lemma HashLength_digest [simp]: "HashLength < maxDigest"
  by (simp add: HashLength_def maxDigest_def)

lemma mhOf [simp]:
  assumes "cid_laws E" "length d < maxDigest"
  shows "mhEncode E d KECCAK_256 = Ok (mhOf E d)" and "mhDecode E (mhOf E d) = Ok d"
  using cid_lawsD(1) [OF assms] by (auto simp: mhOf_def)

lemma rlp_laws_wrapErr [simp]: "rlp_laws canon (\<lambda>x. wrapErr m (enc x)) dec \<longleftrightarrow> rlp_laws canon enc dec"
  by (simp add: rlp_laws_def)

end
