(* ===== verification/Shared_Utils.thy ===== *)
theory Shared_Utils
  imports Assembler_Laws Eth_Types
begin

text \<open>
  The package \<open>shared\<close>: CIDs of Keccak hashes, leaf keys of addresses, the transaction type of a
  node, and the conversion between nibble paths and their compact encoding.
\<close>

unbundle bit_operations_syntax

section \<open>CIDs and keys\<close>

definition RawToCid :: "ext \<Rightarrow> u64 \<Rightarrow> bytes \<Rightarrow> cid res" where
  "RawToCid E codec rawdata = prefixSum E codec KECCAK_256 rawdata"

definition Keccak256ToCid :: "ext \<Rightarrow> u64 \<Rightarrow> bytes \<Rightarrow> cid res" where
  "Keccak256ToCid E codec h =
     (case mhEncode E h KECCAK_256 of
        Ok buf \<Rightarrow> Ok (newCidV1 E codec buf)
      | Fail e \<Rightarrow> Panic ''multihash.Encode''
      | Panic m \<Rightarrow> Panic m)"

definition evenLeafFlag :: bytes where
  "evenLeafFlag = [push_bit 4 2]"

definition AddressToLeafKey :: "ext \<Rightarrow> bytes \<Rightarrow> bytes" where
  "AddressToLeafKey E address = keccak256 E address"

definition AddressToEncodedPath :: "ext \<Rightarrow> bytes \<Rightarrow> bytes" where
  "AddressToEncodedPath E address =
     (let addrHash = keccak256 E address in evenLeafFlag @ addrHash)"

definition GetTxType :: "node \<Rightarrow> byte res" where
  "GetTxType node =
     andThen (lookupByString node ''TxType'') (\<lambda>tyNode.
     andThen (asBytes tyNode) (\<lambda>tyBytes.
       case tyBytes of [b] \<Rightarrow> Ok b | _ \<Rightarrow> Fail (Err ''tx type should be a single byte'')))"

text \<open>\<open>WriteableByteSlice.Write\<close> appends to the slice behind the pointer.\<close>

definition writeSlice :: "bytes \<Rightarrow> bytes \<Rightarrow> bytes" where
  "writeSlice enc b = enc @ b"

section \<open>Compact encoding of paths\<close>

definition hasTerm :: "bytes \<Rightarrow> bool" where
  "hasTerm s \<longleftrightarrow> length s > 0 \<and> s ! (length s - 1) = 16"

text \<open>\<open>decodeNibbles\<close> reads pairs; an odd number of nibbles runs past the end.\<close>

fun decodeNibbles :: "bytes \<Rightarrow> bytes res" where
  "decodeNibbles [] = Ok []"
| "decodeNibbles [_] = Panic ''index out of range''"
| "decodeNibbles (a # b # ns) =
     andThen (decodeNibbles ns) (\<lambda>bs. Ok ((push_bit 4 a OR b) # bs))"

definition hexToCompact :: "bytes \<Rightarrow> bytes res" where
  "hexToCompact hex0 =
     (let terminator = (if hasTerm hex0 then 1 else 0 :: byte);
          hex = (if hasTerm hex0 then take (length hex0 - 1) hex0 else hex0);
          flag = push_bit 5 terminator in
      if odd (length hex) then
        andThen (decodeNibbles (tl hex)) (\<lambda>bs. Ok ((flag OR push_bit 4 1 OR hd hex) # bs))
      else andThen (decodeNibbles hex) (\<lambda>bs. Ok (flag # bs)))"

definition HexToCompact :: "bytes \<Rightarrow> bytes res" where
  "HexToCompact hex = hexToCompact hex"

fun splitNibbles :: "bytes \<Rightarrow> bytes" where
  "splitNibbles [] = []"
| "splitNibbles (b # bs) = b div 16 # b mod 16 # splitNibbles bs"

definition keybytesToHex :: "bytes \<Rightarrow> bytes" where
  "keybytesToHex str = splitNibbles str @ [16]"

definition compactToHex :: "bytes \<Rightarrow> bytes" where
  "compactToHex compact =
     (if length compact = 0 then compact
      else
        let base0 = keybytesToHex compact;
            base = (if base0 ! 0 < 2 then take (length base0 - 1) base0 else base0);
            chop = 2 - (base ! 0 AND 1) in
        drop (unat chop) base)"

definition CompactToHex :: "bytes \<Rightarrow> bytes" where
  "CompactToHex compact = compactToHex compact"

section \<open>Paths\<close>

text \<open>A path is a list of nibbles, closed by the terminator 16 at a leaf.  A compact encoding
  has a flag nibble below 4 and, when the path is even, a zero padding nibble.\<close>

definition nibble :: "byte \<Rightarrow> bool" where
  "nibble b \<longleftrightarrow> b < 16"

definition validPath :: "bytes \<Rightarrow> bool" where
  "validPath hex \<longleftrightarrow> list_all nibble (if hasTerm hex then butlast hex else hex)"

definition validCompact :: "bytes \<Rightarrow> bool" where
  "validCompact c \<longleftrightarrow> c \<noteq> [] \<and> hd c div 16 < 4 \<and> (even (hd c div 16) \<longrightarrow> hd c mod 16 = 0)"

lemma mod_nibble: "nibble b \<Longrightarrow> b mod 16 = b"
proof -
  assume "nibble b"
  then have "unat (b mod 16) = unat b" by (simp add: nibble_def unat_mod word_less_nat_alt)
  then show ?thesis by (rule unsigned_word_eqI)
qed

lemma byte_div_16: "(b :: byte) div 16 = drop_bit 4 b"
  by (simp add: drop_bit_eq_div)

lemma byte_mod_16: "(b :: byte) mod 16 = take_bit 4 b"
  by (simp add: take_bit_eq_mod)

lemma nibble_bit: "nibble b \<Longrightarrow> bit b n \<Longrightarrow> n < 4"
  by (metis mod_nibble byte_mod_16 bit_take_bit_iff)

lemma nibble_join:
  assumes "nibble a" "nibble b"
  shows "(push_bit 4 a OR b) div 16 = a" and "(push_bit 4 a OR b) mod 16 = b"
  using assms
  by (auto intro!: bit_word_eqI simp: byte_div_16 byte_mod_16 bit_simps dest: nibble_bit)

lemma nibble_split: "push_bit 4 (b div 16) OR b mod 16 = (b :: byte)"
  by (auto intro!: bit_word_eqI simp: byte_mod_16 byte_div_16 bit_simps)

lemma nibble_div [simp]: "nibble (b div 16)"
  using unat_byte_less [of b] by (simp add: nibble_def word_less_nat_alt unat_div)

lemma nibble_mod [simp]: "nibble (b mod 16)"
  by (simp add: nibble_def word_less_nat_alt unat_mod)

lemma byte_less_4: "(x :: byte) < 4 \<Longrightarrow> x = 0 \<or> x = 1 \<or> x = 2 \<or> x = 3"
proof -
  assume "x < 4"
  then have "unat x = 0 \<or> unat x = 1 \<or> unat x = 2 \<or> unat x = 3" by (auto simp: word_less_nat_alt)
  moreover have "x = word_of_nat (unat x)" by simp
  ultimately show ?thesis by (elim disjE) auto
qed

text \<open>The flag byte of an odd path carries the first nibble.\<close>

lemma odd_flag:
  assumes "nibble b"
  shows "(push_bit 5 1 OR push_bit 4 1 OR b) div 16 = 3" "(push_bit 5 1 OR push_bit 4 1 OR b) mod 16 = b"
    "(push_bit 5 0 OR push_bit 4 1 OR b) div 16 = 1" "(push_bit 5 0 OR push_bit 4 1 OR b) mod 16 = b"
  using nibble_join [of 3 b] nibble_join [of 1 b] assms
  by (simp_all add: nibble_def or.assoc [symmetric])

section \<open>Lemmas on the conversions\<close>

lemma decodeNibbles_splitNibbles [simp]: "decodeNibbles (splitNibbles bs) = Ok bs"
  by (induction bs) (auto simp: nibble_split)

lemma decodeNibbles_even:
  "even (length ns) \<Longrightarrow> \<exists>bs. decodeNibbles ns = Ok bs \<and> length bs = length ns div 2"
  by (induction ns rule: decodeNibbles.induct) auto

lemma splitNibbles_decodeNibbles:
  "list_all nibble ns \<Longrightarrow> decodeNibbles ns = Ok bs \<Longrightarrow> splitNibbles bs = ns"
  by (induction ns arbitrary: bs rule: decodeNibbles.induct) (auto simp: nibble_join)

lemma list_all_nibble_split [simp]: "list_all nibble (splitNibbles bs)"
  by (induction bs) auto

lemma even_length_split [simp]: "even (length (splitNibbles bs))"
  by (induction bs) auto

lemma compactToHex_Cons:
  "compactToHex (c # cs) =
     (if odd (c div 16) then [c mod 16] else []) @ splitNibbles cs @ (if c div 16 < 2 then [] else [16])"
proof -
  have chop: "unat (2 - (c div 16 AND 1)) = (if odd (c div 16) then 1 else 2)"
    by (simp add: and_one_eq odd_iff_mod_2_eq_one)
  show ?thesis
    by (simp add: compactToHex_def keybytesToHex_def chop Let_def)
qed

lemma hasTerm_append_16 [simp]: "hasTerm (xs @ [16])"
  by (simp add: hasTerm_def nth_append)

lemma hasTerm_nibbles: "list_all nibble xs \<Longrightarrow> \<not> hasTerm xs"
  by (cases xs rule: rev_cases) (auto simp: hasTerm_def nibble_def)

lemma hasTerm_split: "hasTerm hex \<Longrightarrow> hex = butlast hex @ [16]"
  by (metis append_butlast_last_id hasTerm_def last_conv_nth length_greater_0_conv)

text \<open>Without its terminator the path is encoded by its parity.\<close>

definition pathBody :: "bytes \<Rightarrow> bytes" where
  "pathBody hex = (if hasTerm hex then butlast hex else hex)"

lemma hexToCompact_body:
  "hexToCompact hex =
     (let flag = push_bit 5 (if hasTerm hex then 1 else 0); body = pathBody hex in
      if odd (length body) then
        andThen (decodeNibbles (tl body)) (\<lambda>bs. Ok ((flag OR push_bit 4 1 OR hd body) # bs))
      else andThen (decodeNibbles body) (\<lambda>bs. Ok (flag # bs)))"
  by (simp add: hexToCompact_def pathBody_def butlast_conv_take Let_def)

lemma hexToCompact_total:
  "\<exists>c. hexToCompact hex = Ok c \<and> length c = length (pathBody hex) div 2 + 1"
proof (cases "odd (length (pathBody hex))")
  case True
  then have "even (length (tl (pathBody hex)))" by simp
  from decodeNibbles_even [OF this] obtain bs where
    "decodeNibbles (tl (pathBody hex)) = Ok bs" "length bs = length (tl (pathBody hex)) div 2" by auto
  with True show ?thesis by (auto simp: hexToCompact_body Let_def elim: oddE)
next
  case False
  then obtain bs where
    "decodeNibbles (pathBody hex) = Ok bs" "length bs = length (pathBody hex) div 2"
    using decodeNibbles_even by blast
  with False show ?thesis by (auto simp: hexToCompact_body Let_def)
qed

lemma hexToCompact_odd:
  assumes "list_all nibble (pathBody hex)" "odd (length (pathBody hex))"
  shows "\<exists>c bs. hexToCompact hex = Ok (c # bs) \<and> c div 16 = (if hasTerm hex then 3 else 1) \<and>
    c mod 16 = hd (pathBody hex) \<and> splitNibbles bs = tl (pathBody hex)"
proof -
  obtain n ns where body: "pathBody hex = n # ns" using assms(2) by (cases "pathBody hex") auto
  then have "even (length ns)" using assms(2) by simp
  then obtain bs where bs: "decodeNibbles ns = Ok bs" using decodeNibbles_even by blast
  with assms(1) body have "splitNibbles bs = ns" by (auto dest: splitNibbles_decodeNibbles)
  with assms body bs show ?thesis
    using odd_flag [of n] by (auto simp: hexToCompact_body Let_def)
qed

lemma hexToCompact_even:
  assumes "list_all nibble (pathBody hex)" "even (length (pathBody hex))"
  shows "\<exists>bs. hexToCompact hex = Ok ((if hasTerm hex then 32 else 0) # bs) \<and>
    splitNibbles bs = pathBody hex"
proof -
  obtain bs where bs: "decodeNibbles (pathBody hex) = Ok bs" using decodeNibbles_even assms(2) by blast
  with assms(1) have "splitNibbles bs = pathBody hex" by (blast dest: splitNibbles_decodeNibbles)
  with assms bs show ?thesis by (auto simp: hexToCompact_body Let_def)
qed

lemma pathBody_term: "hex = pathBody hex @ (if hasTerm hex then [16] else [])"
  using hasTerm_split [of hex] by (simp add: pathBody_def)

lemma validPath_body: "validPath hex \<longleftrightarrow> list_all nibble (pathBody hex)"
  by (simp add: validPath_def pathBody_def)

text \<open>Decoding the compact encoding of a path gives the path; its flag nibble is one of the four
  defined ones and tells leaves from extensions.\<close>

lemma compactToHex_hexToCompact:
  assumes "validPath hex"
  shows "\<exists>c bs. hexToCompact hex = Ok (c # bs) \<and> compactToHex (c # bs) = hex \<and> validCompact (c # bs) \<and>
    (c div 16 < 2 \<longleftrightarrow> \<not> hasTerm hex)"
proof (cases "odd (length (pathBody hex))")
  case True
  then obtain n ns where body: "pathBody hex = n # ns" by (cases "pathBody hex") auto
  from hexToCompact_odd [OF assms [unfolded validPath_body] True] obtain c bs where
    "hexToCompact hex = Ok (c # bs)" "c div 16 = (if hasTerm hex then 3 else 1)" "c mod 16 = n"
    "splitNibbles bs = ns" by (auto simp: body)
  with body pathBody_term [of hex] show ?thesis
    by (auto simp: compactToHex_Cons validCompact_def word_less_nat_alt split: if_splits)
next
  case False
  from hexToCompact_even [OF assms [unfolded validPath_body]] False obtain bs where
    "hexToCompact hex = Ok ((if hasTerm hex then 32 else 0) # bs)" "splitNibbles bs = pathBody hex"
    by auto
  with pathBody_term [of hex] show ?thesis
    by (auto simp: compactToHex_Cons validCompact_def word_less_nat_alt split: if_splits)
qed

lemma hexToCompact_compactToHex:
  assumes "validCompact c"
  shows "hexToCompact (compactToHex c) = Ok c"
proof -
  obtain f cs where c: "c = f # cs" and f: "f div 16 < 4" "even (f div 16) \<longrightarrow> f mod 16 = 0"
    using assms by (cases c) (auto simp: validCompact_def)
  define body where "body = (if odd (f div 16) then [f mod 16] else []) @ splitNibbles cs"
  have nib: "list_all nibble body" by (simp add: body_def)
  have hex: "compactToHex c = body @ (if f div 16 < 2 then [] else [16])"
    by (simp add: c compactToHex_Cons body_def)
  have tm: "hasTerm (compactToHex c) \<longleftrightarrow> \<not> f div 16 < 2"
    using hasTerm_nibbles [OF nib] by (simp add: hex)
  have pb: "pathBody (compactToHex c) = body"
    using tm by (auto simp: pathBody_def hex)
  have par: "odd (length body) \<longleftrightarrow> odd (f div 16)" by (simp add: body_def)
  have fl: "push_bit 4 (f div 16) OR f mod 16 = f" by (rule nibble_split)
  have run: "hexToCompact (compactToHex c) =
      (let flag = push_bit 5 (if f div 16 < 2 then 0 else 1) in
       if odd (f div 16) then andThen (decodeNibbles (tl body))
         (\<lambda>bs. Ok ((flag OR push_bit 4 1 OR hd body) # bs))
       else andThen (decodeNibbles body) (\<lambda>bs. Ok (flag # bs)))"
    using tm by (simp add: hexToCompact_body pb par)
  from byte_less_4 [OF f(1)] show ?thesis
    unfolding run unfolding body_def c using fl f(2)
    by (elim disjE) (simp_all add: or.assoc [symmetric])
qed

end
