(* ===== verification/Codec_Iface.thy ===== *)
theory Codec_Iface
  imports Shared_Utils
begin

text \<open>
  The interfaces of the codecs.  \<open>dag_codec\<close> is what a caller of a registered codec relies on:
  on lawful third-party code and for the blocks the codec supports, decoding yields well-formed
  nodes and encoding a decoded node gives the block back; decoding the block of a well-formed node
  gives the node back.  \<open>struct_codec\<close> is the shape of the codecs that go through one go-ethereum
  struct: RLP is a bijection on the canonical structs, and the codec carries the good ones, those
  with no data that the schema has no place for.  It provides the first contract.
\<close>

locale dag_codec =
  fixes lawful :: bool
    and supported :: "bytes \<Rightarrow> bool"
    and nodeWf :: "tnode \<Rightarrow> bool"
    and encode :: "node \<Rightarrow> bytes res"
    and decode :: "bytes \<Rightarrow> tnode res"
  assumes decode_wf: "lawful \<Longrightarrow> supported b \<Longrightarrow> decode b = Ok t \<Longrightarrow> nodeWf t"
    and encode_decoded:
      "lawful \<Longrightarrow> supported b \<Longrightarrow> decode b = Ok t \<Longrightarrow> encode (NTyped t) = Ok b"
    and decode_encoded: "lawful \<Longrightarrow> nodeWf t \<Longrightarrow> encode (NTyped t) = Ok b \<Longrightarrow> decode b = Ok t"
    and encoded_supported: "lawful \<Longrightarrow> nodeWf t \<Longrightarrow> encode (NTyped t) = Ok b \<Longrightarrow> supported b"
begin

text \<open>Two well-formed nodes with the same block are equal, and a node has one block.\<close>

lemma encode_inj:
  "lawful \<Longrightarrow> nodeWf t \<Longrightarrow> nodeWf u \<Longrightarrow> encode (NTyped t) = Ok b \<Longrightarrow> encode (NTyped u) = Ok b \<Longrightarrow> t = u"
  using decode_encoded by (metis res.inject(1))

lemma decode_inj:
  "lawful \<Longrightarrow> supported b \<Longrightarrow> supported c \<Longrightarrow> decode b = Ok t \<Longrightarrow> decode c = Ok t \<Longrightarrow> b = c"
  using encode_decoded by (metis res.inject(1))

lemma accepted_iff:
  "lawful \<Longrightarrow> supported b \<and> decode b = Ok t \<longleftrightarrow> nodeWf t \<and> encode (NTyped t) = Ok b"
  using decode_wf encode_decoded decode_encoded encoded_supported by blast

end

locale struct_codec =
  fixes lawful :: bool
    and canon good :: "'a \<Rightarrow> bool"
    and toNode :: "'a \<Rightarrow> tnode"
    and unpack :: "'a \<Rightarrow> tnode res"
    and pack :: "node \<Rightarrow> 'a res"
    and enc :: "'a \<Rightarrow> bytes res"
    and dec :: "bytes \<Rightarrow> 'a res"
  assumes unpack_good: "lawful \<Longrightarrow> good x \<Longrightarrow> unpack x = Ok (toNode x)"
    and pack_toNode: "lawful \<Longrightarrow> good x \<Longrightarrow> pack (NTyped (toNode x)) = Ok x"
    and rlp: "lawful \<Longrightarrow> rlp_laws canon enc dec"
    and good_canon: "good x \<Longrightarrow> canon x"
begin

definition encodes :: "node \<Rightarrow> bytes res" where
  "encodes n = andThen (pack n) enc"

definition decodes :: "bytes \<Rightarrow> tnode res" where
  "decodes b = andThen (dec b) unpack"

definition carried :: "bytes \<Rightarrow> bool" where
  "carried b \<longleftrightarrow> (\<forall>x. dec b = Ok x \<longrightarrow> good x)"

definition canonical :: "tnode \<Rightarrow> bool" where
  "canonical t \<longleftrightarrow> (\<exists>x. good x \<and> t = toNode x)"

lemma decodes_canonical:
  assumes "lawful" "carried b" "decodes b = Ok t"
  shows "\<exists>x. good x \<and> t = toNode x \<and> enc x = Ok b"
proof -
  obtain x where x: "dec b = Ok x" "unpack x = Ok t" using assms(3) by (auto simp: decodes_def)
  then have "good x" "enc x = Ok b"
    using assms(2) rlp_lawsD(2) [OF rlp [OF assms(1)]] by (auto simp: carried_def)
  with x unpack_good [OF assms(1)] show ?thesis by auto
qed

lemma encodes_canonical:
  "lawful \<Longrightarrow> good x \<Longrightarrow> encodes (NTyped (toNode x)) = enc x"
  by (simp add: encodes_def pack_toNode)

lemma dec_encodes_canonical:
  assumes "lawful" "good x" "encodes (NTyped (toNode x)) = Ok b"
  shows "dec b = Ok x"
  using assms encodes_canonical good_canon rlp_lawsD(3) [OF rlp] by auto

text \<open>The two round trips, with the struct in the middle.\<close>

lemma block_roundtrip:
  assumes "lawful" "dec b = Ok x" "good x"
  shows "decodes b = Ok (toNode x)" "encodes (NTyped (toNode x)) = Ok b"
  using assms rlp_lawsD(2) [OF rlp [OF assms(1)]] encodes_canonical unpack_good
  by (simp_all add: decodes_def)

lemma node_roundtrip:
  assumes "lawful" "good x" "encodes (NTyped (toNode x)) = Ok b"
  shows "decodes b = Ok (toNode x)"
  using assms dec_encodes_canonical by (simp add: decodes_def unpack_good)

end

sublocale struct_codec \<subseteq> dag_codec lawful carried canonical encodes decodes
proof (unfold_locales, goal_cases)
  case (1 b t)
  then show ?case using decodes_canonical by (auto simp: canonical_def)
next
  case (2 b t)
  then show ?case using decodes_canonical encodes_canonical by fastforce
next
  case (3 t b)
  then obtain x where "good x" "t = toNode x" by (auto simp: canonical_def)
  with 3 show ?case using dec_encodes_canonical by (simp add: decodes_def unpack_good)
next
  case (4 t b)
  then obtain x where "good x" "t = toNode x" by (auto simp: canonical_def)
  with 4 show ?case using dec_encodes_canonical by (auto simp: carried_def)
qed

section \<open>Idioms shared by the codecs\<close>

text \<open>\<open>make([]T, n.Length())\<close> followed by a loop over \<open>n.ListIterator()\<close>: a negative length panics, and
  so does the nil iterator of a map.\<close>

definition listNodes :: "node \<Rightarrow> node list res" where
  "listNodes n =
     (if nodeLength n < 0 then Panic ''makeslice: len out of range''
      else if nodeKind n \<noteq> KList then Panic ''nil pointer dereference''
      else Ok (listEntries n))"

lemma listNodes_TnList [simp]: "listNodes (NTyped (TnList ty ts)) = Ok (map NTyped ts)"
  by (simp add: listNodes_def)

text \<open>\<open>AsLink\<close>, the assertion to \<open>cidlink.Link\<close>, \<open>Hash\<close> and \<open>multihash.Decode\<close>: the digest behind a
  link node.\<close>

definition linkDigest :: "ext \<Rightarrow> string \<Rightarrow> string \<Rightarrow> node \<Rightarrow> bytes res" where
  "linkDigest E notCid badMh n =
     andThen (asLink n) (\<lambda>l.
       case l of
         CidLink c \<Rightarrow> wrapErr badMh (mhDecode E (cidHash E c))
       | OtherLink _ \<Rightarrow> Fail (Err notCid))"

lemma linkDigest_linkOf [simp]:
  assumes "cid_laws E" "length d < maxDigest"
  shows "linkDigest E a b (NTyped (TnLink TyLink (linkOf E c d))) = Ok d"
  using assms by (simp add: linkDigest_def linkOf_def cid_lawsD mhOf)

text \<open>\<open>LookupByString\<close> followed by \<open>AsBytes\<close>, or by the digest of the link.\<close>

definition bytesField :: "node \<Rightarrow> string \<Rightarrow> bytes res" where
  "bytesField n k = andThen (lookupByString n k) asBytes"

definition linkField :: "ext \<Rightarrow> node \<Rightarrow> string \<Rightarrow> string \<Rightarrow> string \<Rightarrow> bytes res" where
  "linkField E n k notCid badMh = andThen (lookupByString n k) (linkDigest E notCid badMh)"

text \<open>\<open>multihash.Encode\<close>, \<open>cid.NewCidV1\<close>, \<open>cidlink.Link\<close>.\<close>

definition hashLink :: "ext \<Rightarrow> u64 \<Rightarrow> u64 \<Rightarrow> bytes \<Rightarrow> link res" where
  "hashLink E codec mhType d =
     andThen (mhEncode E d mhType) (\<lambda>mh. Ok (CidLink (newCidV1 E codec mh)))"

lemma hashLink_linkOf [simp]:
  assumes "cid_laws E" "length d < maxDigest"
  shows "hashLink E c KECCAK_256 d = Ok (linkOf E c d)"
  using assms by (simp add: hashLink_def linkOf_def mhOf)

lemma assignBytes_Ok [simp]: "typeDecl ty = DBytes \<Longrightarrow> assignBytes ty b = Ok (Some (TnBytes ty b))"
  by (simp add: assignBytes_def)

lemma assignLink_Ok [simp]: "typeDecl ty = DLink \<Longrightarrow> assignLink ty l = Ok (Some (TnLink ty l))"
  by (simp add: assignLink_def)

text \<open>A list of byte strings assembled element by element.\<close>

definition assembleBytesList :: "tyname \<Rightarrow> bytes list \<Rightarrow> tnode option res" where
  "assembleBytesList ty bs =
     andThen (beginList ty) (\<lambda>la.
     andThen (forEach (\<lambda>b la. la_val la (\<lambda>ty nul. assignBytes ty b)) bs la) (\<lambda>la.
     andThen (la_done la) (\<lambda>t. Ok (Some t))))"

lemma assembleBytesList_Ok:
  assumes "typeDecl ty = DList e" "typeDecl e = DBytes"
  shows "assembleBytesList ty bs = Ok (Some (TnList ty (map (TnBytes e) bs)))"
proof -
  have "elemType ty = e" using assms by (simp add: elemType_def)
  then have "andThen (forEach (\<lambda>b la. la_val la (\<lambda>ty nul. assignBytes ty b)) bs (newListAsm ty)) la_done
      = Ok (TnList ty (map (TnBytes e) bs))"
    using assms by (intro la_list) simp
  then show ?thesis
    using assms by (auto simp: assembleBytesList_def beginList_def)
qed

text \<open>An unpack function that writes one key and one value puts one entry.\<close>

definition fieldAt :: "tyname \<Rightarrow> string \<Rightarrow> field" where
  "fieldAt ty k = fieldsOf ty ! the (idxOf (fieldNames ty) k)"

lemma puts_as_entry:
  assumes "k \<in> set (fieldNames ty)"
    and "x (ftype (fieldAt ty k)) (fnullable (fieldAt ty k)) = Ok r"
    and "\<And>ma. f ma = andThen (ma_key ma k) (\<lambda>ma. ma_val ma x)"
  shows "puts_as ty f [(k, r)]"
proof -
  obtain i where i: "idxOf (fieldNames ty) k = Some i"
    using assms(1) idxOf_None_iff by fastforce
  then have "sa_ty ma = ty \<Longrightarrow> f ma = sa_put ma k r" for ma
    using assms(2,3) by (auto simp: fieldAt_def intro: ma_put)
  then show ?thesis by (simp add: puts_as_def)
qed

definition putVal :: "string \<Rightarrow> (tyname \<Rightarrow> bool \<Rightarrow> tnode option res) \<Rightarrow> sasm \<Rightarrow> sasm res" where
  "putVal k x ma = andThen (ma_key ma k) (\<lambda>ma. ma_val ma x)"

lemmas puts_as_putVal = puts_as_entry [OF _ _ putVal_def]

text \<open>The same for functions that first make a link, or first check a pointer for nil.\<close>

lemma puts_as_link:
  assumes "\<And>ma. f ma = andThen p (\<lambda>l. andThen (ma_key ma k) (\<lambda>ma. ma_val ma (x l)))"
    and "p = Ok l" "k \<in> set (fieldNames ty)"
    and "x l (ftype (fieldAt ty k)) (fnullable (fieldAt ty k)) = Ok r"
  shows "puts_as ty f [(k, r)]"
  using assms by (intro puts_as_entry [where x = "x l"]) auto

lemma puts_as_some:
  assumes "\<And>ma. f ma =
      (case p of None \<Rightarrow> Fail e | Some v \<Rightarrow> andThen (ma_key ma k) (\<lambda>ma. ma_val ma (x v)))"
    and "p = Some v" "k \<in> set (fieldNames ty)"
    and "x v (ftype (fieldAt ty k)) (fnullable (fieldAt ty k)) = Ok r"
  shows "puts_as ty f [(k, r)]"
  using assms by (intro puts_as_entry [where x = "x v"]) auto

lemma puts_as_append:
  assumes "puts_as ty f xs" "puts_as ty g ys" "\<And>ma. h ma = andThen (f ma) g"
  shows "puts_as ty h (xs @ ys)"
  unfolding puts_as_def
proof (intro allI impI)
  fix ma :: sasm assume ma: "sa_ty ma = ty"
  then have "h ma = andThen (sa_puts xs ma) g" using assms(1,3) by (simp add: puts_as_def)
  also have "\<dots> = andThen (sa_puts xs ma) (sa_puts ys)"
    using assms(2) ma by (intro andThen_cong) (auto simp: puts_as_def dest: sa_puts_ty)
  finally show "h ma = sa_puts (xs @ ys) ma" by (simp add: sa_puts_append)
qed

lemma beginStruct_Ok: "typeDecl ty = DStruct fs \<Longrightarrow> beginStruct ty = Ok (newStructAsm ty False)"
  by (simp add: beginStruct_def)

lemma newStructAsm_ty [simp]: "sa_ty (newStructAsm ty b) = ty"
  by (simp add: newStructAsm_def)

text \<open>A table of functions that puts the fields in order assembles the struct of the values.\<close>

lemma struct_in_order:
  assumes "list_all2 (puts_as ty) fns ess" "map fst (concat ess) = fieldNames ty"
    and "list_all (\<lambda>e. snd e = None \<longrightarrow> nullableIn ty (fst e)) (concat ess)"
  shows "andThen (runAll fns (newStructAsm ty False)) sa_done = Ok (TnStruct ty (map snd (concat ess)))"
proof -
  have "map (\<lambda>k. the (map_of (concat ess) k)) (map fst (concat ess)) = map snd (concat ess)"
    by (intro map_of_keys) (simp only: assms(2) distinct_fieldNames)
  then have "andThen (sa_puts (concat ess) (newStructAsm ty False)) sa_done =
      Ok (TnStruct ty (map snd (concat ess)))"
    using sa_struct [of "concat ess" ty] assms(2,3) by simp
  then show ?thesis using runAll_puts [OF assms(1), of "newStructAsm ty False"] by simp
qed

end
