(* ===== verification/Header.thy ===== *)
theory Header
  imports Codec_Iface
begin

text \<open>
  The package \<open>header\<close>: encoding and decoding of block headers (multicodec 0x90).  The hashes of
  the parent, the uncles and the three tries become links; the base fee is nullable.  The lemmas
  show that unpacking then packing is the identity and that the codec satisfies the
  \<open>struct_codec\<close> contract.
\<close>

section \<open>marshal.go\<close>

definition newHeader :: header where
  "newHeader =
     \<lparr>h_ParentHash = replicate HashLength 0, h_UncleHash = replicate HashLength 0,
      h_Coinbase = replicate AddressLength 0, h_Root = replicate HashLength 0,
      h_TxHash = replicate HashLength 0, h_ReceiptHash = replicate HashLength 0,
      h_Bloom = replicate BloomByteLength 0, h_Difficulty = None, h_Number = None, h_GasLimit = 0,
      h_GasUsed = 0, h_Time = 0, h_Extra = [], h_MixDigest = replicate HashLength 0,
      h_Nonce = replicate BlockNonceLength 0, h_BaseFee = None,
      h_WithdrawalsHash = None\<rparr>"

definition header_packNonce :: "ext \<Rightarrow> node \<Rightarrow> header \<Rightarrow> header res" where
  "header_packNonce E node header =
     andThen (bytesField node ''Nonce'') (\<lambda>nBytes.
     if length nBytes \<noteq> BlockNonceLength then Fail (Err ''header must have a 8 byte Nonce'')
     else Ok (header\<lparr>h_Nonce := nBytes\<rparr>))"

definition header_packMixDigest :: "ext \<Rightarrow> node \<Rightarrow> header \<Rightarrow> header res" where
  "header_packMixDigest E node header =
     andThen (bytesField node ''MixDigest'') (\<lambda>mdBytes.
     Ok (header\<lparr>h_MixDigest := bytesToHash E mdBytes\<rparr>))"

definition header_packExtra :: "ext \<Rightarrow> node \<Rightarrow> header \<Rightarrow> header res" where
  "header_packExtra E node header =
     andThen (bytesField node ''Extra'') (\<lambda>extra.
     Ok (header\<lparr>h_Extra := extra\<rparr>))"

definition header_packTime :: "ext \<Rightarrow> node \<Rightarrow> header \<Rightarrow> header res" where
  "header_packTime E node header =
     andThen (bytesField node ''Time'') (\<lambda>tBytes.
     andThen (uint64 tBytes) (\<lambda>v. Ok (header\<lparr>h_Time := v\<rparr>)))"

definition header_packGasUsed :: "ext \<Rightarrow> node \<Rightarrow> header \<Rightarrow> header res" where
  "header_packGasUsed E node header =
     andThen (bytesField node ''GasUsed'') (\<lambda>guBytes.
     andThen (uint64 guBytes) (\<lambda>v. Ok (header\<lparr>h_GasUsed := v\<rparr>)))"

definition header_packGasLimit :: "ext \<Rightarrow> node \<Rightarrow> header \<Rightarrow> header res" where
  "header_packGasLimit E node header =
     andThen (bytesField node ''GasLimit'') (\<lambda>glBytes.
     andThen (uint64 glBytes) (\<lambda>v. Ok (header\<lparr>h_GasLimit := v\<rparr>)))"

definition header_packNumber :: "ext \<Rightarrow> node \<Rightarrow> header \<Rightarrow> header res" where
  "header_packNumber E node header =
     andThen (bytesField node ''Number'') (\<lambda>numBytes.
     Ok (header\<lparr>h_Number := Some (bigSetBytes numBytes)\<rparr>))"

definition header_packDifficulty :: "ext \<Rightarrow> node \<Rightarrow> header \<Rightarrow> header res" where
  "header_packDifficulty E node header =
     andThen (bytesField node ''Difficulty'') (\<lambda>diffBytes.
     Ok (header\<lparr>h_Difficulty := Some (bigSetBytes diffBytes)\<rparr>))"

definition header_packBloom :: "ext \<Rightarrow> node \<Rightarrow> header \<Rightarrow> header res" where
  "header_packBloom E node header =
     andThen (bytesField node ''Bloom'') (\<lambda>blmBytes.
     if length blmBytes \<noteq> BloomByteLength then Fail (Err ''header must have a 256 byte Bloom'')
     else andThen (bytesToBloom E blmBytes) (\<lambda>bloom. Ok (header\<lparr>h_Bloom := bloom\<rparr>)))"

definition header_packRctRootCID :: "ext \<Rightarrow> node \<Rightarrow> header \<Rightarrow> header res" where
  "header_packRctRootCID E node header =
     andThen (linkField E node ''RctRootCID'' ''header must have a RctRootCID''
       ''unable to decode RctRootCID multihash'') (\<lambda>digest.
     Ok (header\<lparr>h_ReceiptHash := bytesToHash E digest\<rparr>))"

definition header_packTxRootCID :: "ext \<Rightarrow> node \<Rightarrow> header \<Rightarrow> header res" where
  "header_packTxRootCID E node header =
     andThen (linkField E node ''TxRootCID'' ''header must have a TxRootCID''
       ''unable to decode TxRootCID multihash'') (\<lambda>digest.
     Ok (header\<lparr>h_TxHash := bytesToHash E digest\<rparr>))"

definition header_packStateRootCID :: "ext \<Rightarrow> node \<Rightarrow> header \<Rightarrow> header res" where
  "header_packStateRootCID E node header =
     andThen (linkField E node ''StateRootCID'' ''header must have a StateRootCID''
       ''unable to decode StateRootCID multihash'') (\<lambda>digest.
     Ok (header\<lparr>h_Root := bytesToHash E digest\<rparr>))"

definition header_packCoinbase :: "ext \<Rightarrow> node \<Rightarrow> header \<Rightarrow> header res" where
  "header_packCoinbase E node header =
     andThen (bytesField node ''Coinbase'') (\<lambda>coinbaseBytes.
     Ok (header\<lparr>h_Coinbase := bytesToAddress E coinbaseBytes\<rparr>))"

definition header_packUnclesCID :: "ext \<Rightarrow> node \<Rightarrow> header \<Rightarrow> header res" where
  "header_packUnclesCID E node header =
     andThen (linkField E node ''UnclesCID'' ''header must have an UnclesCID''
       ''unable to decode UnclesCID multihash'') (\<lambda>digest.
     Ok (header\<lparr>h_UncleHash := bytesToHash E digest\<rparr>))"

definition header_packParentCID :: "ext \<Rightarrow> node \<Rightarrow> header \<Rightarrow> header res" where
  "header_packParentCID E node header =
     andThen (linkField E node ''ParentCID'' ''header must have a ParentCID''
       ''unable to decode ParentCID multihash'') (\<lambda>digest.
     Ok (header\<lparr>h_ParentHash := bytesToHash E digest\<rparr>))"

definition header_packBaseFee :: "ext \<Rightarrow> node \<Rightarrow> header \<Rightarrow> header res" where
  "header_packBaseFee E node header =
     andThen (lookupByString node ''BaseFee'') (\<lambda>baseFeeNode.
     if isNull baseFeeNode then Ok header
     else andThen (asBytes baseFeeNode) (\<lambda>baseFeeBytes.
       Ok (header\<lparr>h_BaseFee := Some (bigSetBytes baseFeeBytes)\<rparr>)))"

definition header_requiredPackFuncs :: "(ext \<Rightarrow> node \<Rightarrow> header \<Rightarrow> header res) list" where
  "header_requiredPackFuncs =
     [header_packParentCID, header_packUnclesCID, header_packCoinbase, header_packStateRootCID,
      header_packTxRootCID, header_packRctRootCID, header_packBloom, header_packDifficulty,
      header_packNumber, header_packGasLimit, header_packGasUsed, header_packTime,
      header_packExtra, header_packMixDigest, header_packNonce, header_packBaseFee]"

definition EncodeHeader :: "ext \<Rightarrow> header \<Rightarrow> node \<Rightarrow> header res" where
  "EncodeHeader E header inNode =
     andThen (wrapTyped TyHeader inNode) (\<lambda>node.
     wrapErr ''invalid DAG-ETH Header form''
       (runAll (map (\<lambda>pFunc. pFunc E node) header_requiredPackFuncs) header))"

definition header_AppendEncode :: "ext \<Rightarrow> bytes \<Rightarrow> node \<Rightarrow> bytes res" where
  "header_AppendEncode E enc inNode =
     andThen (EncodeHeader E newHeader inNode) (\<lambda>header.
     andThen (wrapErr ''invalid DAG-ETH Header form (unable to RLP encode header)''
       (rlpEncodeHeader E header)) (\<lambda>b. Ok (writeSlice enc b)))"

definition header_Encode :: "ext \<Rightarrow> node \<Rightarrow> 'w writer \<Rightarrow> 'w res" where
  "header_Encode E node w = andThen (header_AppendEncode E [] node) (\<lambda>enc. w enc)"

section \<open>unmarshal.go\<close>

definition header_unpackNonce :: "ext \<Rightarrow> header \<Rightarrow> sasm \<Rightarrow> sasm res" where
  "header_unpackNonce E header ma =
     andThen (ma_key ma ''Nonce'')
       (\<lambda>ma. ma_val ma (\<lambda>ty nul. assignBytes ty (h_Nonce header)))"

definition header_unpackMixDigest :: "ext \<Rightarrow> header \<Rightarrow> sasm \<Rightarrow> sasm res" where
  "header_unpackMixDigest E header ma =
     andThen (ma_key ma ''MixDigest'')
       (\<lambda>ma. ma_val ma (\<lambda>ty nul. assignBytes ty (h_MixDigest header)))"

definition header_unpackExtra :: "ext \<Rightarrow> header \<Rightarrow> sasm \<Rightarrow> sasm res" where
  "header_unpackExtra E header ma =
     andThen (ma_key ma ''Extra'')
       (\<lambda>ma. ma_val ma (\<lambda>ty nul. assignBytes ty (h_Extra header)))"

definition header_unpackTime :: "ext \<Rightarrow> header \<Rightarrow> sasm \<Rightarrow> sasm res" where
  "header_unpackTime E header ma =
     andThen (ma_key ma ''Time'')
       (\<lambda>ma. ma_val ma (\<lambda>ty nul. assignBytes ty (putUint64 (h_Time header))))"

definition header_unpackGasUsed :: "ext \<Rightarrow> header \<Rightarrow> sasm \<Rightarrow> sasm res" where
  "header_unpackGasUsed E header ma =
     andThen (ma_key ma ''GasUsed'')
       (\<lambda>ma. ma_val ma (\<lambda>ty nul. assignBytes ty (putUint64 (h_GasUsed header))))"

definition header_unpackGasLimit :: "ext \<Rightarrow> header \<Rightarrow> sasm \<Rightarrow> sasm res" where
  "header_unpackGasLimit E header ma =
     andThen (ma_key ma ''GasLimit'')
       (\<lambda>ma. ma_val ma (\<lambda>ty nul. assignBytes ty (putUint64 (h_GasLimit header))))"

definition header_unpackNumber :: "ext \<Rightarrow> header \<Rightarrow> sasm \<Rightarrow> sasm res" where
  "header_unpackNumber E header ma =
     (case h_Number header of
        None \<Rightarrow> Fail (Err ''header cannot have `nil` Number'')
      | Some v \<Rightarrow>
          andThen (ma_key ma ''Number'')
            (\<lambda>ma. ma_val ma (\<lambda>ty nul. assignBytes ty (bigBytes v))))"

definition header_unpackDifficulty :: "ext \<Rightarrow> header \<Rightarrow> sasm \<Rightarrow> sasm res" where
  "header_unpackDifficulty E header ma =
     (case h_Difficulty header of
        None \<Rightarrow> Fail (Err ''header cannot have `nil` Difficulty'')
      | Some v \<Rightarrow>
          andThen (ma_key ma ''Difficulty'')
            (\<lambda>ma. ma_val ma (\<lambda>ty nul. assignBytes ty (bigBytes v))))"

definition header_unpackBloom :: "ext \<Rightarrow> header \<Rightarrow> sasm \<Rightarrow> sasm res" where
  "header_unpackBloom E header ma =
     andThen (ma_key ma ''Bloom'')
       (\<lambda>ma. ma_val ma (\<lambda>ty nul. assignBytes ty (h_Bloom header)))"

definition header_unpackRctRootCID :: "ext \<Rightarrow> header \<Rightarrow> sasm \<Rightarrow> sasm res" where
  "header_unpackRctRootCID E header ma =
     andThen (hashLink E EthTxReceiptTrie KECCAK_256 (h_ReceiptHash header)) (\<lambda>rctLinkCID.
     andThen (ma_key ma ''RctRootCID'')
       (\<lambda>ma. ma_val ma (\<lambda>ty nul. assignLink ty rctLinkCID)))"

definition header_unpackTxRootCID :: "ext \<Rightarrow> header \<Rightarrow> sasm \<Rightarrow> sasm res" where
  "header_unpackTxRootCID E header ma =
     andThen (hashLink E EthTxTrie KECCAK_256 (h_TxHash header)) (\<lambda>txLinkCID.
     andThen (ma_key ma ''TxRootCID'')
       (\<lambda>ma. ma_val ma (\<lambda>ty nul. assignLink ty txLinkCID)))"

definition header_unpackStateRootCID :: "ext \<Rightarrow> header \<Rightarrow> sasm \<Rightarrow> sasm res" where
  "header_unpackStateRootCID E header ma =
     andThen (hashLink E EthStateTrie KECCAK_256 (h_Root header)) (\<lambda>srLinkCID.
     andThen (ma_key ma ''StateRootCID'')
       (\<lambda>ma. ma_val ma (\<lambda>ty nul. assignLink ty srLinkCID)))"

definition header_unpackCoinbase :: "ext \<Rightarrow> header \<Rightarrow> sasm \<Rightarrow> sasm res" where
  "header_unpackCoinbase E header ma =
     andThen (ma_key ma ''Coinbase'')
       (\<lambda>ma. ma_val ma (\<lambda>ty nul. assignBytes ty (h_Coinbase header)))"

definition header_unpackUnclesCID :: "ext \<Rightarrow> header \<Rightarrow> sasm \<Rightarrow> sasm res" where
  "header_unpackUnclesCID E header ma =
     andThen (hashLink E EthBlockList KECCAK_256 (h_UncleHash header)) (\<lambda>unclesLinkCID.
     andThen (ma_key ma ''UnclesCID'')
       (\<lambda>ma. ma_val ma (\<lambda>ty nul. assignLink ty unclesLinkCID)))"

definition header_unpackParentCID :: "ext \<Rightarrow> header \<Rightarrow> sasm \<Rightarrow> sasm res" where
  "header_unpackParentCID E header ma =
     andThen (hashLink E EthBlock KECCAK_256 (h_ParentHash header)) (\<lambda>parentLinkCID.
     andThen (ma_key ma ''ParentCID'')
       (\<lambda>ma. ma_val ma (\<lambda>ty nul. assignLink ty parentLinkCID)))"

definition header_unpackBaseFee :: "ext \<Rightarrow> header \<Rightarrow> sasm \<Rightarrow> sasm res" where
  "header_unpackBaseFee E header ma =
     andThen (ma_key ma ''BaseFee'')
       (\<lambda>ma. ma_val ma (\<lambda>ty nul.
          case h_BaseFee header of
            None \<Rightarrow> assignNull ty nul
          | Some v \<Rightarrow> assignBytes ty (bigBytes v)))"

definition header_requiredUnpackFuncs :: "(ext \<Rightarrow> header \<Rightarrow> sasm \<Rightarrow> sasm res) list" where
  "header_requiredUnpackFuncs =
     [header_unpackParentCID, header_unpackUnclesCID, header_unpackCoinbase, header_unpackStateRootCID,
      header_unpackTxRootCID, header_unpackRctRootCID, header_unpackBloom, header_unpackDifficulty,
      header_unpackNumber, header_unpackGasLimit, header_unpackGasUsed, header_unpackTime,
      header_unpackExtra, header_unpackMixDigest, header_unpackNonce, header_unpackBaseFee]"

definition DecodeHeader :: "ext \<Rightarrow> header \<Rightarrow> tnode res" where
  "DecodeHeader E header =
     andThen (beginStruct TyHeader) (\<lambda>ma.
     andThen (wrapErr ''invalid DAG-ETH Header binary''
       (runAll (map (\<lambda>upFunc. upFunc E header) header_requiredUnpackFuncs) ma)) sa_done)"

definition header_DecodeBytes :: "ext \<Rightarrow> bytes \<Rightarrow> tnode res" where
  "header_DecodeBytes E src = andThen (rlpDecodeHeader E src) (DecodeHeader E)"

definition header_Decode :: "ext \<Rightarrow> reader \<Rightarrow> tnode res" where
  "header_Decode E rd = andThen (readSrc rd) (header_DecodeBytes E)"

section \<open>Correctness\<close>

text \<open>Headers that RLP decoding yields have fixed-size arrays of the right size, non-negative big
  integers, a base fee that may be missing and, only after a base fee, a withdrawals hash.  The
  codec carries those without a withdrawals hash: the schema has no field for it.\<close>

definition headerCanon :: "header \<Rightarrow> bool" where
  "headerCanon h \<longleftrightarrow>
     length (h_ParentHash h) = HashLength \<and> length (h_UncleHash h) = HashLength \<and>
     length (h_Coinbase h) = AddressLength \<and> length (h_Root h) = HashLength \<and>
     length (h_TxHash h) = HashLength \<and> length (h_ReceiptHash h) = HashLength \<and>
     length (h_Bloom h) = BloomByteLength \<and> length (h_MixDigest h) = HashLength \<and>
     length (h_Nonce h) = BlockNonceLength \<and>
     (\<exists>d \<ge> 0. h_Difficulty h = Some d) \<and> (\<exists>n \<ge> 0. h_Number h = Some n) \<and>
     (\<forall>f. h_BaseFee h = Some f \<longrightarrow> 0 \<le> f) \<and>
     (\<forall>w. h_WithdrawalsHash h = Some w \<longrightarrow> length w = HashLength \<and> h_BaseFee h \<noteq> None)"

definition headerGood :: "header \<Rightarrow> bool" where
  "headerGood h \<longleftrightarrow> headerCanon h \<and> h_WithdrawalsHash h = None"

definition headerEntries :: "ext \<Rightarrow> header \<Rightarrow> (string \<times> tnode option) list list" where
  "headerEntries E h =
     [[(''ParentCID'', Some (TnLink TyLink (linkOf E EthBlock (h_ParentHash h))))],
      [(''UnclesCID'', Some (TnLink TyLink (linkOf E EthBlockList (h_UncleHash h))))],
      [(''Coinbase'', Some (TnBytes TyAddress (h_Coinbase h)))],
      [(''StateRootCID'', Some (TnLink TyLink (linkOf E EthStateTrie (h_Root h))))],
      [(''TxRootCID'', Some (TnLink TyLink (linkOf E EthTxTrie (h_TxHash h))))],
      [(''RctRootCID'', Some (TnLink TyLink (linkOf E EthTxReceiptTrie (h_ReceiptHash h))))],
      [(''Bloom'', Some (TnBytes TyBloom (h_Bloom h)))],
      [(''Difficulty'', Some (TnBytes TyBigInt (bigBytes (the (h_Difficulty h)))))],
      [(''Number'', Some (TnBytes TyBigInt (bigBytes (the (h_Number h)))))],
      [(''GasLimit'', Some (TnBytes TyUint (putUint64 (h_GasLimit h))))],
      [(''GasUsed'', Some (TnBytes TyUint (putUint64 (h_GasUsed h))))],
      [(''Time'', Some (TnBytes TyTime (putUint64 (h_Time h))))],
      [(''Extra'', Some (TnBytes TyBytes (h_Extra h)))],
      [(''MixDigest'', Some (TnBytes TyHash (h_MixDigest h)))],
      [(''Nonce'', Some (TnBytes TyUint (h_Nonce h)))],
      [(''BaseFee'', map_option (\<lambda>v. TnBytes TyBigInt (bigBytes v)) (h_BaseFee h))]]"

definition headerNode :: "ext \<Rightarrow> header \<Rightarrow> tnode" where
  "headerNode E h = TnStruct TyHeader (map snd (concat (headerEntries E h)))"

lemma fields_Header: "fieldsOf TyHeader = go_Header"
  by (simp add: fieldsOf.simps)

lemma fieldNames_Header [simp]:
  "fieldNames TyHeader =
    [''ParentCID'', ''UnclesCID'', ''Coinbase'', ''StateRootCID'', ''TxRootCID'', ''RctRootCID'', ''Bloom'', ''Difficulty'',
     ''Number'', ''GasLimit'', ''GasUsed'', ''Time'', ''Extra'', ''MixDigest'', ''Nonce'', ''BaseFee'']"
  by (simp add: fieldNames_def fields_Header go_defs go_field_defs)

lemma fieldAt_Header:
  "fieldAt TyHeader ''ParentCID'' = goField ''ParentCID'' TyLink"
  "fieldAt TyHeader ''UnclesCID'' = goField ''UnclesCID'' TyLink"
  "fieldAt TyHeader ''Coinbase'' = goField ''Coinbase'' TyAddress"
  "fieldAt TyHeader ''StateRootCID'' = goField ''StateRootCID'' TyLink"
  "fieldAt TyHeader ''TxRootCID'' = goField ''TxRootCID'' TyLink"
  "fieldAt TyHeader ''RctRootCID'' = goField ''RctRootCID'' TyLink"
  "fieldAt TyHeader ''Bloom'' = goField ''Bloom'' TyBloom"
  "fieldAt TyHeader ''Difficulty'' = goField ''Difficulty'' TyBigInt"
  "fieldAt TyHeader ''Number'' = goField ''Number'' TyBigInt"
  "fieldAt TyHeader ''GasLimit'' = goField ''GasLimit'' TyUint"
  "fieldAt TyHeader ''GasUsed'' = goField ''GasUsed'' TyUint"
  "fieldAt TyHeader ''Time'' = goField ''Time'' TyTime"
  "fieldAt TyHeader ''Extra'' = goField ''Extra'' TyBytes"
  "fieldAt TyHeader ''MixDigest'' = goField ''MixDigest'' TyHash"
  "fieldAt TyHeader ''Nonce'' = goField ''Nonce'' TyUint"
  "fieldAt TyHeader ''BaseFee'' = goMaybe ''BaseFee'' TyBigInt"
  by (simp_all add: fieldAt_def fields_Header go_defs)

lemma nullableIn_BaseFee [simp]: "nullableIn TyHeader ''BaseFee''"
  by (simp add: nullableIn_def fields_Header go_defs go_field_defs)

lemma header_unpack_puts:
  assumes "cid_laws E" "headerCanon h"
  shows "list_all2 (puts_as TyHeader) (map (\<lambda>f. f E h) header_requiredUnpackFuncs) (headerEntries E h)"
  using assms unfolding header_requiredUnpackFuncs_def headerEntries_def
  by (auto simp: fieldAt_Header goField_def goMaybe_def headerCanon_def split: option.splits
      intro!: puts_as_link [OF header_unpackParentCID_def]
        puts_as_link [OF header_unpackUnclesCID_def]
        puts_as_entry [OF _ _ header_unpackCoinbase_def]
        puts_as_link [OF header_unpackStateRootCID_def]
        puts_as_link [OF header_unpackTxRootCID_def]
        puts_as_link [OF header_unpackRctRootCID_def]
        puts_as_entry [OF _ _ header_unpackBloom_def]
        puts_as_some [OF header_unpackDifficulty_def]
        puts_as_some [OF header_unpackNumber_def]
        puts_as_entry [OF _ _ header_unpackGasLimit_def]
        puts_as_entry [OF _ _ header_unpackGasUsed_def]
        puts_as_entry [OF _ _ header_unpackTime_def]
        puts_as_entry [OF _ _ header_unpackExtra_def]
        puts_as_entry [OF _ _ header_unpackMixDigest_def]
        puts_as_entry [OF _ _ header_unpackNonce_def]
        puts_as_entry [OF _ _ header_unpackBaseFee_def])

lemma DecodeHeader_node:
  assumes "cid_laws E" "headerCanon h"
  shows "DecodeHeader E h = Ok (headerNode E h)"
proof -
  have "andThen (sa_puts (concat (headerEntries E h)) (newStructAsm TyHeader False)) sa_done =
      Ok (headerNode E h)"
    by (subst sa_struct) (auto simp: headerEntries_def headerNode_def)
  then show ?thesis
    using runAll_puts [OF header_unpack_puts [OF assms], of "newStructAsm TyHeader False"]
    by (auto simp: DecodeHeader_def beginStruct_def)
qed

lemmas header_pack_defs =
  header_packParentCID_def
  header_packUnclesCID_def
  header_packCoinbase_def
  header_packStateRootCID_def
  header_packTxRootCID_def
  header_packRctRootCID_def
  header_packBloom_def
  header_packDifficulty_def
  header_packNumber_def
  header_packGasLimit_def
  header_packGasUsed_def
  header_packTime_def
  header_packExtra_def
  header_packMixDigest_def
  header_packNonce_def
  header_packBaseFee_def

lemma EncodeHeader_node:
  assumes "conv_laws E" "cid_laws E" "headerCanon h" "h_BaseFee h0 = None"
  shows "EncodeHeader E h0 (NTyped (headerNode E h)) =
    Ok (h\<lparr>h_WithdrawalsHash := h_WithdrawalsHash h0\<rparr>)"
  using assms
  by (cases "h_BaseFee h")
    (auto simp: EncodeHeader_def header_requiredPackFuncs_def header_pack_defs bytesField_def
      linkField_def headerNode_def headerEntries_def headerCanon_def conv_lawsD)

definition header_lawful :: "ext \<Rightarrow> bool" where
  "header_lawful E \<longleftrightarrow> conv_laws E \<and> cid_laws E \<and>
     rlp_laws headerCanon (rlpEncodeHeader E) (rlpDecodeHeader E)"

interpretation header: struct_codec "header_lawful E" headerCanon headerGood "headerNode E" "DecodeHeader E"
    "EncodeHeader E newHeader"
    "\<lambda>h. wrapErr ''invalid DAG-ETH Header form (unable to RLP encode header)'' (rlpEncodeHeader E h)"
    "rlpDecodeHeader E" for E
  by unfold_locales
    (auto simp: header_lawful_def DecodeHeader_node EncodeHeader_node newHeader_def
      headerGood_def)

lemma header_Encode_buffer: "header_Encode E n bytesBuffer = header.encodes E n"
  by (auto simp: header_Encode_def header_AppendEncode_def header.encodes_def bytesBuffer_def
      writeSlice_def andThen_assoc)

lemma header_DecodeBytes_decodes: "header_DecodeBytes E = header.decodes E"
  by (auto simp: header_DecodeBytes_def header.decodes_def)

end
