(* ===== verification/Uncles.thy ===== *)
theory Uncles
  imports Header
begin

text \<open>
  The package \<open>uncles\<close>: encoding and decoding of lists of uncle headers (multicodec 0x91), built
  on the header package.
\<close>

section \<open>marshal.go\<close>

definition EncodeUncles :: "ext \<Rightarrow> header list \<Rightarrow> node \<Rightarrow> header list res" where
  "EncodeUncles E uncles inNode =
     andThen (wrapTyped TyUncles inNode) (\<lambda>node.
     forEach (\<lambda>uncleNode uncles.
         andThen (wrapErr ''invalid DAG-ETH Uncles form'' (EncodeHeader E newHeader uncleNode))
           (\<lambda>uncle. Ok (uncles @ [uncle])))
       (listEntries node) uncles)"

definition uncles_AppendEncode :: "ext \<Rightarrow> bytes \<Rightarrow> node \<Rightarrow> bytes res" where
  "uncles_AppendEncode E enc inNode =
     (if nodeLength inNode < 0 then Panic ''makeslice: cap out of range''
      else
        andThen (EncodeUncles E [] inNode) (\<lambda>uncles.
        andThen (wrapErr ''invalid DAG-ETH Uncles form (unable to RLP encode uncles)''
          (rlpEncodeHeaders E uncles)) (\<lambda>b. Ok (writeSlice enc b))))"

definition uncles_Encode :: "ext \<Rightarrow> node \<Rightarrow> 'w writer \<Rightarrow> 'w res" where
  "uncles_Encode E node w = andThen (uncles_AppendEncode E [] node) (\<lambda>enc. w enc)"

section \<open>unmarshal.go\<close>

definition DecodeUncles :: "ext \<Rightarrow> header list \<Rightarrow> tnode res" where
  "DecodeUncles E uncles =
     andThen (beginList TyUncles) (\<lambda>la.
     andThen (forEach (\<lambda>uncle la.
         andThen (wrapErr ''invalid DAG-ETH Uncles binary'' (DecodeHeader E uncle)) (\<lambda>node.
           la_val la (\<lambda>ty nul. assignNode ty nul False (NTyped node)))) uncles la) la_done)"

definition uncles_DecodeBytes :: "ext \<Rightarrow> bytes \<Rightarrow> tnode res" where
  "uncles_DecodeBytes E src = andThen (rlpDecodeHeaders E src) (DecodeUncles E)"

definition uncles_Decode :: "ext \<Rightarrow> reader \<Rightarrow> tnode res" where
  "uncles_Decode E rd = andThen (readSrc rd) (uncles_DecodeBytes E)"

section \<open>Correctness\<close>

definition unclesNode :: "ext \<Rightarrow> header list \<Rightarrow> tnode" where
  "unclesNode E hs = TnList TyUncles (map (headerNode E) hs)"

lemma tnType_headerNode [simp]: "tnType (headerNode E h) = TyHeader"
  by (simp add: headerNode_def)

lemma DecodeUncles_node:
  assumes "cid_laws E" "list_all headerCanon hs"
  shows "DecodeUncles E hs = Ok (unclesNode E hs)"
proof -
  have "forEach (\<lambda>uncle la.
         andThen (wrapErr ''invalid DAG-ETH Uncles binary'' (DecodeHeader E uncle)) (\<lambda>node.
           la_val la (\<lambda>ty nul. assignNode ty nul False (NTyped node)))) hs (newListAsm TyUncles) =
      forEach (\<lambda>uncle la. la_val la (\<lambda>ty nul. assignNode ty nul False (NTyped (headerNode E uncle))))
        hs (newListAsm TyUncles)"
    using assms by (intro forEach_cong) (auto simp: DecodeHeader_node list_all_iff)
  moreover have "andThen (forEach (\<lambda>uncle la.
        la_val la (\<lambda>ty nul. assignNode ty nul False (NTyped (headerNode E uncle)))) hs
          (newListAsm TyUncles)) la_done = Ok (unclesNode E hs)"
    unfolding unclesNode_def
    by (intro la_list) (simp_all add: assignNode_same elemType_def)
  ultimately show ?thesis
    by (simp add: DecodeUncles_def beginList_def)
qed

lemma EncodeUncles_node:
  assumes "conv_laws E" "cid_laws E" "list_all headerGood hs"
  shows "EncodeUncles E us (NTyped (unclesNode E hs)) = Ok (us @ hs)"
proof -
  have "forEach (\<lambda>uncleNode uncles.
         andThen (wrapErr ''invalid DAG-ETH Uncles form'' (EncodeHeader E newHeader uncleNode))
           (\<lambda>uncle. Ok (uncles @ [uncle])))
       (map (\<lambda>h. NTyped (headerNode E h)) hs) us = Ok (us @ hs)"
    using assms(3)
  proof (induction hs arbitrary: us)
    case (Cons h hs)
    then have "EncodeHeader E newHeader (NTyped (headerNode E h)) = Ok h"
      using assms(1,2) by (simp add: EncodeHeader_node headerGood_def newHeader_def)
    with Cons show ?case by simp
  qed simp
  then show ?thesis by (simp add: EncodeUncles_def unclesNode_def comp_def)
qed

definition uncles_lawful :: "ext \<Rightarrow> bool" where
  "uncles_lawful E \<longleftrightarrow> conv_laws E \<and> cid_laws E \<and>
     rlp_laws (list_all headerCanon) (rlpEncodeHeaders E) (rlpDecodeHeaders E)"

text \<open>What \<open>AppendEncode\<close> does before RLP.\<close>

definition packUncles :: "ext \<Rightarrow> node \<Rightarrow> header list res" where
  "packUncles E n =
     (if nodeLength n < 0 then Panic ''makeslice: cap out of range'' else EncodeUncles E [] n)"

interpretation uncles: struct_codec "uncles_lawful E" "list_all headerCanon" "list_all headerGood"
    "unclesNode E" "DecodeUncles E" "packUncles E"
    "\<lambda>hs. wrapErr ''invalid DAG-ETH Uncles form (unable to RLP encode uncles)'' (rlpEncodeHeaders E hs)"
    "rlpDecodeHeaders E" for E
proof (unfold_locales, goal_cases)
  case (1 hs)
  then show ?case
    by (intro DecodeUncles_node) (auto simp: uncles_lawful_def headerGood_def list_all_iff)
next
  case (2 hs)
  then have "EncodeUncles E [] (NTyped (unclesNode E hs)) = Ok hs"
    by (subst EncodeUncles_node) (auto simp: uncles_lawful_def)
  then show ?case by (simp add: packUncles_def unclesNode_def)
qed (auto simp: uncles_lawful_def headerGood_def list_all_iff)

lemma uncles_Encode_buffer: "uncles_Encode E n bytesBuffer = uncles.encodes E n"
  by (auto simp: uncles_Encode_def uncles_AppendEncode_def uncles.encodes_def packUncles_def
      bytesBuffer_def writeSlice_def andThen_assoc)

lemma uncles_DecodeBytes_decodes: "uncles_DecodeBytes E = uncles.decodes E"
  by (auto simp: uncles_DecodeBytes_def uncles.decodes_def)

end
