(* ===== verification/State_Account.thy ===== *)
theory State_Account
  imports Codec_Iface
begin

text \<open>
  The package \<open>state_account\<close>: encoding and decoding of state trie accounts (multicodec 0x97).
  The storage root and the code hash become links; the lemmas show the codec satisfies the
  \<open>struct_codec\<close> contract.
\<close>

section \<open>marshal.go\<close>

definition newAccount :: stateAccount where
  "newAccount = \<lparr>a_Nonce = 0, a_Balance = None, a_Root = replicate HashLength 0, a_CodeHash = []\<rparr>"

definition account_packNonce :: "ext \<Rightarrow> node \<Rightarrow> stateAccount \<Rightarrow> stateAccount res" where
  "account_packNonce E node account =
     andThen (bytesField node ''Nonce'') (\<lambda>nBytes.
     andThen (uint64 nBytes) (\<lambda>n. Ok (account\<lparr>a_Nonce := n\<rparr>)))"

definition account_packBalance :: "ext \<Rightarrow> node \<Rightarrow> stateAccount \<Rightarrow> stateAccount res" where
  "account_packBalance E node account =
     andThen (bytesField node ''Balance'') (\<lambda>bBytes.
     Ok (account\<lparr>a_Balance := Some (bigSetBytes bBytes)\<rparr>))"

definition account_packStorageRootCID :: "ext \<Rightarrow> node \<Rightarrow> stateAccount \<Rightarrow> stateAccount res" where
  "account_packStorageRootCID E node account =
     andThen (linkField E node ''StorageRootCID'' ''account must have a StateRootCID''
       ''unable to decode StorageRootCID multihash'') (\<lambda>digest.
     Ok (account\<lparr>a_Root := bytesToHash E digest\<rparr>))"

definition account_packCodeCID :: "ext \<Rightarrow> node \<Rightarrow> stateAccount \<Rightarrow> stateAccount res" where
  "account_packCodeCID E node account =
     andThen (linkField E node ''CodeCID'' ''account must have a CodeCID''
       ''unable to decode CodeCID multihash'') (\<lambda>digest.
     Ok (account\<lparr>a_CodeHash := digest\<rparr>))"

definition account_requiredPackFuncs :: "(ext \<Rightarrow> node \<Rightarrow> stateAccount \<Rightarrow> stateAccount res) list" where
  "account_requiredPackFuncs =
     [account_packNonce, account_packBalance, account_packStorageRootCID, account_packCodeCID]"

definition EncodeAccount :: "ext \<Rightarrow> stateAccount \<Rightarrow> node \<Rightarrow> stateAccount res" where
  "EncodeAccount E account inNode =
     andThen (wrapTyped TyAccount inNode) (\<lambda>node.
     wrapErr ''invalid DAG-ETH Account form''
       (runAll (map (\<lambda>pFunc. pFunc E node) account_requiredPackFuncs) account))"

definition account_AppendEncode :: "ext \<Rightarrow> bytes \<Rightarrow> node \<Rightarrow> bytes res" where
  "account_AppendEncode E enc inNode =
     andThen (EncodeAccount E newAccount inNode) (\<lambda>account.
     andThen (wrapErr ''invalid DAG-ETH Account form (unable to RLP encode account)''
       (rlpEncodeAccount E account)) (\<lambda>b. Ok (writeSlice enc b)))"

definition account_Encode :: "ext \<Rightarrow> node \<Rightarrow> 'w writer \<Rightarrow> 'w res" where
  "account_Encode E node w = andThen (account_AppendEncode E [] node) (\<lambda>enc. w enc)"

section \<open>unmarshal.go\<close>

definition account_unpackNonce :: "ext \<Rightarrow> stateAccount \<Rightarrow> sasm \<Rightarrow> sasm res" where
  "account_unpackNonce E account ma =
     andThen (ma_key ma ''Nonce'')
       (\<lambda>ma. ma_val ma (\<lambda>ty nul. assignBytes ty (putUint64 (a_Nonce account))))"

definition account_unpackBalance :: "ext \<Rightarrow> stateAccount \<Rightarrow> sasm \<Rightarrow> sasm res" where
  "account_unpackBalance E account ma =
     (case a_Balance account of
        None \<Rightarrow> Fail (Err ''account balance cannot be null'')
      | Some balance \<Rightarrow>
          andThen (ma_key ma ''Balance'')
            (\<lambda>ma. ma_val ma (\<lambda>ty nul. assignBytes ty (bigBytes balance))))"

definition account_unpackStorageRootCID :: "ext \<Rightarrow> stateAccount \<Rightarrow> sasm \<Rightarrow> sasm res" where
  "account_unpackStorageRootCID E account ma =
     andThen (hashLink E EthStorageTrie KECCAK_256 (a_Root account)) (\<lambda>srLinkCID.
     andThen (ma_key ma ''StorageRootCID'')
       (\<lambda>ma. ma_val ma (\<lambda>ty nul. assignLink ty srLinkCID)))"

definition account_unpackCodeCID :: "ext \<Rightarrow> stateAccount \<Rightarrow> sasm \<Rightarrow> sasm res" where
  "account_unpackCodeCID E account ma =
     andThen (hashLink E cid_Raw KECCAK_256 (a_CodeHash account)) (\<lambda>cLinkCID.
     andThen (ma_key ma ''CodeCID'')
       (\<lambda>ma. ma_val ma (\<lambda>ty nul. assignLink ty cLinkCID)))"

definition account_requiredUnpackFuncs :: "(ext \<Rightarrow> stateAccount \<Rightarrow> sasm \<Rightarrow> sasm res) list" where
  "account_requiredUnpackFuncs =
     [account_unpackNonce, account_unpackBalance, account_unpackStorageRootCID, account_unpackCodeCID]"

definition DecodeAccount :: "ext \<Rightarrow> stateAccount \<Rightarrow> tnode res" where
  "DecodeAccount E account =
     andThen (beginStruct TyAccount) (\<lambda>ma.
     andThen (wrapErr ''invalid DAG-ETH Account binary''
       (runAll (map (\<lambda>upFunc. upFunc E account) account_requiredUnpackFuncs) ma)) sa_done)"

definition account_DecodeBytes :: "ext \<Rightarrow> bytes \<Rightarrow> tnode res" where
  "account_DecodeBytes E src = andThen (rlpDecodeAccount E src) (DecodeAccount E)"

definition account_Decode :: "ext \<Rightarrow> reader \<Rightarrow> tnode res" where
  "account_Decode E rd = andThen (readSrc rd) (account_DecodeBytes E)"

section \<open>Correctness\<close>

text \<open>Accounts that RLP decoding yields have a 32-byte root, a non-negative balance and any byte
  string as code hash; the codec carries those whose code hash has a size that multihash
  supports.\<close>

definition accountCanon :: "stateAccount \<Rightarrow> bool" where
  "accountCanon a \<longleftrightarrow> length (a_Root a) = HashLength \<and> (\<exists>b \<ge> 0. a_Balance a = Some b)"

definition accountGood :: "stateAccount \<Rightarrow> bool" where
  "accountGood a \<longleftrightarrow> accountCanon a \<and> length (a_CodeHash a) < maxDigest"

definition accountEntries :: "ext \<Rightarrow> stateAccount \<Rightarrow> (string \<times> tnode option) list list" where
  "accountEntries E a =
     [[(''Nonce'', Some (TnBytes TyUint (putUint64 (a_Nonce a))))],
      [(''Balance'', Some (TnBytes TyBalance (bigBytes (the (a_Balance a)))))],
      [(''StorageRootCID'', Some (TnLink TyLink (linkOf E EthStorageTrie (a_Root a))))],
      [(''CodeCID'', Some (TnLink TyLink (linkOf E cid_Raw (a_CodeHash a))))]]"

definition accountNode :: "ext \<Rightarrow> stateAccount \<Rightarrow> tnode" where
  "accountNode E a = TnStruct TyAccount (map snd (concat (accountEntries E a)))"

lemma fields_Account: "fieldsOf TyAccount = go_Account"
  by (simp add: fieldsOf.simps)

lemma fieldNames_Account [simp]:
  "fieldNames TyAccount = [''Nonce'', ''Balance'', ''StorageRootCID'', ''CodeCID'']"
  by (simp add: fieldNames_def fields_Account go_defs go_field_defs)

lemma fieldAt_Account:
  "fieldAt TyAccount ''Nonce'' = goField ''Nonce'' TyUint"
  "fieldAt TyAccount ''Balance'' = goField ''Balance'' TyBalance"
  "fieldAt TyAccount ''StorageRootCID'' = goField ''StorageRootCID'' TyLink"
  "fieldAt TyAccount ''CodeCID'' = goField ''CodeCID'' TyLink"
  by (simp_all add: fieldAt_def fields_Account go_defs)

lemma account_unpack_puts:
  assumes "cid_laws E" "accountGood a"
  shows "list_all2 (puts_as TyAccount) (map (\<lambda>f. f E a) account_requiredUnpackFuncs) (accountEntries E a)"
  using assms unfolding account_requiredUnpackFuncs_def accountEntries_def
  by (auto simp: fieldAt_Account goField_def accountGood_def accountCanon_def
      intro!: puts_as_entry [OF _ _ account_unpackNonce_def] puts_as_some [OF account_unpackBalance_def]
        puts_as_link [OF account_unpackStorageRootCID_def] puts_as_link [OF account_unpackCodeCID_def])

lemma DecodeAccount_node:
  assumes "cid_laws E" "accountGood a"
  shows "DecodeAccount E a = Ok (accountNode E a)"
proof -
  have "andThen (sa_puts (concat (accountEntries E a)) (newStructAsm TyAccount False)) sa_done =
      Ok (accountNode E a)"
    by (subst sa_struct) (auto simp: accountEntries_def accountNode_def)
  then show ?thesis
    using runAll_puts [OF account_unpack_puts [OF assms], of "newStructAsm TyAccount False"]
    by (auto simp: DecodeAccount_def beginStruct_def)
qed

lemma EncodeAccount_node:
  assumes "conv_laws E" "cid_laws E" "accountGood a"
  shows "EncodeAccount E a0 (NTyped (accountNode E a)) = Ok a"
  using assms
  by (auto simp: EncodeAccount_def account_requiredPackFuncs_def account_packNonce_def
      account_packBalance_def account_packStorageRootCID_def account_packCodeCID_def bytesField_def
      linkField_def accountNode_def accountEntries_def accountGood_def accountCanon_def conv_lawsD)

definition account_lawful :: "ext \<Rightarrow> bool" where
  "account_lawful E \<longleftrightarrow> conv_laws E \<and> cid_laws E \<and>
     rlp_laws accountCanon (rlpEncodeAccount E) (rlpDecodeAccount E)"

interpretation account: struct_codec "account_lawful E" accountCanon accountGood "accountNode E" "DecodeAccount E"
    "EncodeAccount E newAccount"
    "\<lambda>a. wrapErr ''invalid DAG-ETH Account form (unable to RLP encode account)'' (rlpEncodeAccount E a)"
    "rlpDecodeAccount E" for E
  by unfold_locales (auto simp: account_lawful_def DecodeAccount_node EncodeAccount_node accountGood_def)

lemma account_Encode_buffer: "account_Encode E n bytesBuffer = account.encodes E n"
  by (auto simp: account_Encode_def account_AppendEncode_def account.encodes_def bytesBuffer_def
      writeSlice_def andThen_assoc)

lemma account_DecodeBytes_decodes: "account_DecodeBytes E = account.decodes E"
  by (auto simp: account_DecodeBytes_def account.decodes_def)

end
