(* ===== verification/Tx.thy ===== *)
theory Tx
  imports Codec_Iface
begin

text \<open>
  The package \<open>tx\<close>: encoding and decoding of transactions (multicodec 0x93), legacy ones and the
  typed ones with an access list or a dynamic fee.  The lemmas show that the node of a
  transaction packs back into the struct it came from, whatever its type, and that the codec
  satisfies the \<open>struct_codec\<close> contract.
\<close>

section \<open>marshal.go: access lists and signatures\<close>

definition accessElement :: "ext \<Rightarrow> node \<Rightarrow> accessTuple res" where
  "accessElement E accessElementNode =
     andThen (bytesField accessElementNode ''Address'') (\<lambda>addrBytes.
     andThen (lookupByString accessElementNode ''StorageKeys'') (\<lambda>storageKeysNode.
     andThen (listNodes storageKeysNode) (\<lambda>storageKeyNodes.
     andThen (traverse (\<lambda>storageKeyNode. andThen (asBytes storageKeyNode) (\<lambda>storageKeyBytes.
         Ok (bytesToHash E storageKeyBytes))) storageKeyNodes) (\<lambda>storageKeys.
     Ok \<lparr>at_Address = bytesToAddress E addrBytes, at_StorageKeys = storageKeys\<rparr>))))"

definition createAccessList :: "ext \<Rightarrow> node \<Rightarrow> accessTuple list res" where
  "createAccessList E node =
     andThen (lookupByString node ''AccessList'') (\<lambda>alNode.
     andThen (listNodes alNode) (\<lambda>accessElementNodes.
     traverse (accessElement E) accessElementNodes))"

definition createVRS :: "node \<Rightarrow> (int \<times> int \<times> int) res" where
  "createVRS node =
     andThen (bytesField node ''V'') (\<lambda>vBytes.
     andThen (bytesField node ''R'') (\<lambda>rBytes.
     andThen (bytesField node ''S'') (\<lambda>sBytes.
     Ok (bigSetBytes vBytes, bigSetBytes rBytes, bigSetBytes sBytes))))"

section \<open>marshal.go: fields of the three transaction structs\<close>

definition tx_packChainIDAL :: "ext \<Rightarrow> node \<Rightarrow> accessListTx \<Rightarrow> accessListTx res" where
  "tx_packChainIDAL E node tx =
     andThen (bytesField node ''ChainID'') (\<lambda>chainIDBytes.
     Ok (tx\<lparr>al_ChainID := Some (bigSetBytes chainIDBytes)\<rparr>))"

definition tx_packChainIDDF :: "ext \<Rightarrow> node \<Rightarrow> dynamicFeeTx \<Rightarrow> dynamicFeeTx res" where
  "tx_packChainIDDF E node tx =
     andThen (bytesField node ''ChainID'') (\<lambda>chainIDBytes.
     Ok (tx\<lparr>df_ChainID := Some (bigSetBytes chainIDBytes)\<rparr>))"

definition tx_packAccountNonce :: "ext \<Rightarrow> node \<Rightarrow> legacyTx \<Rightarrow> legacyTx res" where
  "tx_packAccountNonce E node tx =
     andThen (bytesField node ''AccountNonce'') (\<lambda>nonceBytes.
     andThen (uint64 nonceBytes) (\<lambda>nonce. Ok (tx\<lparr>lt_Nonce := nonce\<rparr>)))"

definition tx_packAccountNonceAL :: "ext \<Rightarrow> node \<Rightarrow> accessListTx \<Rightarrow> accessListTx res" where
  "tx_packAccountNonceAL E node tx =
     andThen (bytesField node ''AccountNonce'') (\<lambda>nonceBytes.
     andThen (uint64 nonceBytes) (\<lambda>nonce. Ok (tx\<lparr>al_Nonce := nonce\<rparr>)))"

definition tx_packAccountNonceDF :: "ext \<Rightarrow> node \<Rightarrow> dynamicFeeTx \<Rightarrow> dynamicFeeTx res" where
  "tx_packAccountNonceDF E node tx =
     andThen (bytesField node ''AccountNonce'') (\<lambda>nonceBytes.
     andThen (uint64 nonceBytes) (\<lambda>nonce. Ok (tx\<lparr>df_Nonce := nonce\<rparr>)))"

definition tx_packGasPrice :: "ext \<Rightarrow> node \<Rightarrow> legacyTx \<Rightarrow> legacyTx res" where
  "tx_packGasPrice E node tx =
     andThen (bytesField node ''GasPrice'') (\<lambda>gpBytes.
     Ok (tx\<lparr>lt_GasPrice := Some (bigSetBytes gpBytes)\<rparr>))"

definition tx_packGasPriceAL :: "ext \<Rightarrow> node \<Rightarrow> accessListTx \<Rightarrow> accessListTx res" where
  "tx_packGasPriceAL E node tx =
     andThen (bytesField node ''GasPrice'') (\<lambda>gpBytes.
     Ok (tx\<lparr>al_GasPrice := Some (bigSetBytes gpBytes)\<rparr>))"

definition tx_packGasTipCap :: "ext \<Rightarrow> node \<Rightarrow> dynamicFeeTx \<Rightarrow> dynamicFeeTx res" where
  "tx_packGasTipCap E node tx =
     andThen (bytesField node ''GasTipCap'') (\<lambda>gtcBytes.
     Ok (tx\<lparr>df_GasTipCap := Some (bigSetBytes gtcBytes)\<rparr>))"

definition tx_packGasFeeCap :: "ext \<Rightarrow> node \<Rightarrow> dynamicFeeTx \<Rightarrow> dynamicFeeTx res" where
  "tx_packGasFeeCap E node tx =
     andThen (bytesField node ''GasFeeCap'') (\<lambda>gfcBytes.
     Ok (tx\<lparr>df_GasFeeCap := Some (bigSetBytes gfcBytes)\<rparr>))"

definition tx_packGasLimit :: "ext \<Rightarrow> node \<Rightarrow> legacyTx \<Rightarrow> legacyTx res" where
  "tx_packGasLimit E node tx =
     andThen (bytesField node ''GasLimit'') (\<lambda>glBytes.
     andThen (uint64 glBytes) (\<lambda>gl. Ok (tx\<lparr>lt_Gas := gl\<rparr>)))"

definition tx_packGasLimitAL :: "ext \<Rightarrow> node \<Rightarrow> accessListTx \<Rightarrow> accessListTx res" where
  "tx_packGasLimitAL E node tx =
     andThen (bytesField node ''GasLimit'') (\<lambda>glBytes.
     andThen (uint64 glBytes) (\<lambda>gl. Ok (tx\<lparr>al_Gas := gl\<rparr>)))"

definition tx_packGasLimitDF :: "ext \<Rightarrow> node \<Rightarrow> dynamicFeeTx \<Rightarrow> dynamicFeeTx res" where
  "tx_packGasLimitDF E node tx =
     andThen (bytesField node ''GasLimit'') (\<lambda>glBytes.
     andThen (uint64 glBytes) (\<lambda>gl. Ok (tx\<lparr>df_Gas := gl\<rparr>)))"

definition tx_packRecipient :: "ext \<Rightarrow> node \<Rightarrow> legacyTx \<Rightarrow> legacyTx res" where
  "tx_packRecipient E node tx =
     andThen (lookupByString node ''Recipient'') (\<lambda>rNode.
     if isNull rNode then Ok tx
     else andThen (asBytes rNode) (\<lambda>rBytes.
       Ok (tx\<lparr>lt_To := Some (bytesToAddress E rBytes)\<rparr>)))"

definition tx_packRecipientAL :: "ext \<Rightarrow> node \<Rightarrow> accessListTx \<Rightarrow> accessListTx res" where
  "tx_packRecipientAL E node tx =
     andThen (lookupByString node ''Recipient'') (\<lambda>rNode.
     if isNull rNode then Ok tx
     else andThen (asBytes rNode) (\<lambda>rBytes.
       Ok (tx\<lparr>al_To := Some (bytesToAddress E rBytes)\<rparr>)))"

definition tx_packRecipientDF :: "ext \<Rightarrow> node \<Rightarrow> dynamicFeeTx \<Rightarrow> dynamicFeeTx res" where
  "tx_packRecipientDF E node tx =
     andThen (lookupByString node ''Recipient'') (\<lambda>rNode.
     if isNull rNode then Ok tx
     else andThen (asBytes rNode) (\<lambda>rBytes.
       Ok (tx\<lparr>df_To := Some (bytesToAddress E rBytes)\<rparr>)))"

definition tx_packAmount :: "ext \<Rightarrow> node \<Rightarrow> legacyTx \<Rightarrow> legacyTx res" where
  "tx_packAmount E node tx =
     andThen (bytesField node ''Amount'') (\<lambda>aBytes.
     Ok (tx\<lparr>lt_Value := Some (bigSetBytes aBytes)\<rparr>))"

definition tx_packAmountAL :: "ext \<Rightarrow> node \<Rightarrow> accessListTx \<Rightarrow> accessListTx res" where
  "tx_packAmountAL E node tx =
     andThen (bytesField node ''Amount'') (\<lambda>aBytes.
     Ok (tx\<lparr>al_Value := Some (bigSetBytes aBytes)\<rparr>))"

definition tx_packAmountDF :: "ext \<Rightarrow> node \<Rightarrow> dynamicFeeTx \<Rightarrow> dynamicFeeTx res" where
  "tx_packAmountDF E node tx =
     andThen (bytesField node ''Amount'') (\<lambda>aBytes.
     Ok (tx\<lparr>df_Value := Some (bigSetBytes aBytes)\<rparr>))"

definition tx_packData :: "ext \<Rightarrow> node \<Rightarrow> legacyTx \<Rightarrow> legacyTx res" where
  "tx_packData E node tx =
     andThen (bytesField node ''Data'') (\<lambda>dBytes. Ok (tx\<lparr>lt_Data := dBytes\<rparr>))"

definition tx_packDataAL :: "ext \<Rightarrow> node \<Rightarrow> accessListTx \<Rightarrow> accessListTx res" where
  "tx_packDataAL E node tx =
     andThen (bytesField node ''Data'') (\<lambda>dBytes. Ok (tx\<lparr>al_Data := dBytes\<rparr>))"

definition tx_packDataDF :: "ext \<Rightarrow> node \<Rightarrow> dynamicFeeTx \<Rightarrow> dynamicFeeTx res" where
  "tx_packDataDF E node tx =
     andThen (bytesField node ''Data'') (\<lambda>dBytes. Ok (tx\<lparr>df_Data := dBytes\<rparr>))"

definition tx_packAccessListAL :: "ext \<Rightarrow> node \<Rightarrow> accessListTx \<Rightarrow> accessListTx res" where
  "tx_packAccessListAL E node tx =
     andThen (createAccessList E node) (\<lambda>accessList. Ok (tx\<lparr>al_AccessList := accessList\<rparr>))"

definition tx_packAccessListDF :: "ext \<Rightarrow> node \<Rightarrow> dynamicFeeTx \<Rightarrow> dynamicFeeTx res" where
  "tx_packAccessListDF E node tx =
     andThen (createAccessList E node) (\<lambda>accessList. Ok (tx\<lparr>df_AccessList := accessList\<rparr>))"

definition tx_packSignatureValues :: "ext \<Rightarrow> node \<Rightarrow> legacyTx \<Rightarrow> legacyTx res" where
  "tx_packSignatureValues E node tx =
     andThen (createVRS node) (\<lambda>(v, r, s).
     Ok (tx\<lparr>lt_V := Some v, lt_R := Some r, lt_S := Some s\<rparr>))"

definition tx_packSignatureValuesAL :: "ext \<Rightarrow> node \<Rightarrow> accessListTx \<Rightarrow> accessListTx res" where
  "tx_packSignatureValuesAL E node tx =
     andThen (createVRS node) (\<lambda>(v, r, s).
     Ok (tx\<lparr>al_V := Some v, al_R := Some r, al_S := Some s\<rparr>))"

definition tx_packSignatureValuesDF :: "ext \<Rightarrow> node \<Rightarrow> dynamicFeeTx \<Rightarrow> dynamicFeeTx res" where
  "tx_packSignatureValuesDF E node tx =
     andThen (createVRS node) (\<lambda>(v, r, s).
     Ok (tx\<lparr>df_V := Some v, df_R := Some r, df_S := Some s\<rparr>))"

section \<open>marshal.go: the structs and the entry points\<close>

definition requiredPackLegacyTxFuncs :: "(ext \<Rightarrow> node \<Rightarrow> legacyTx \<Rightarrow> legacyTx res) list" where
  "requiredPackLegacyTxFuncs =
     [tx_packAccountNonce, tx_packGasPrice, tx_packGasLimit, tx_packRecipient,
      tx_packAmount, tx_packData, tx_packSignatureValues]"

definition requiredPackAccessListTxFuncs :: "(ext \<Rightarrow> node \<Rightarrow> accessListTx \<Rightarrow> accessListTx res) list" where
  "requiredPackAccessListTxFuncs =
     [tx_packChainIDAL, tx_packAccountNonceAL, tx_packGasPriceAL, tx_packGasLimitAL,
      tx_packRecipientAL, tx_packAmountAL, tx_packDataAL, tx_packAccessListAL,
      tx_packSignatureValuesAL]"

definition requiredPackDynamicFeeTxFuncs :: "(ext \<Rightarrow> node \<Rightarrow> dynamicFeeTx \<Rightarrow> dynamicFeeTx res) list" where
  "requiredPackDynamicFeeTxFuncs =
     [tx_packChainIDDF, tx_packAccountNonceDF, tx_packGasTipCap, tx_packGasFeeCap,
      tx_packGasLimitDF, tx_packRecipientDF, tx_packAmountDF, tx_packDataDF,
      tx_packAccessListDF, tx_packSignatureValuesDF]"

definition newLegacyTx :: "legacyTx" where
  "newLegacyTx =
     \<lparr>lt_Nonce = 0, lt_GasPrice = None, lt_Gas = 0, lt_To = None, lt_Value = None, lt_Data = [],
      lt_V = None, lt_R = None, lt_S = None\<rparr>"

definition newAccessListTx :: "accessListTx" where
  "newAccessListTx =
     \<lparr>al_ChainID = None, al_Nonce = 0, al_GasPrice = None, al_Gas = 0, al_To = None, al_Value = None,
      al_Data = [], al_AccessList = [], al_V = None, al_R = None, al_S = None\<rparr>"

definition newDynamicFeeTx :: "dynamicFeeTx" where
  "newDynamicFeeTx =
     \<lparr>df_ChainID = None, df_Nonce = 0, df_GasTipCap = None, df_GasFeeCap = None, df_Gas = 0,
      df_To = None, df_Value = None, df_Data = [], df_AccessList = [], df_V = None, df_R = None,
      df_S = None\<rparr>"

definition packLegacyTx :: "ext \<Rightarrow> node \<Rightarrow> legacyTx res" where
  "packLegacyTx E node = runAll (map (\<lambda>pFunc. pFunc E node) requiredPackLegacyTxFuncs) newLegacyTx"

definition packAccessListTx :: "ext \<Rightarrow> node \<Rightarrow> accessListTx res" where
  "packAccessListTx E node = runAll (map (\<lambda>pFunc. pFunc E node) requiredPackAccessListTxFuncs) newAccessListTx"

definition packDynamicFeeTx :: "ext \<Rightarrow> node \<Rightarrow> dynamicFeeTx res" where
  "packDynamicFeeTx E node = runAll (map (\<lambda>pFunc. pFunc E node) requiredPackDynamicFeeTxFuncs) newDynamicFeeTx"

definition txForm :: string where
  "txForm = ''invalid DAG-ETH Transaction form''"

definition tx_AppendEncode :: "ext \<Rightarrow> bytes \<Rightarrow> node \<Rightarrow> bytes res" where
  "tx_AppendEncode E enc inNode =
     andThen (wrapTyped TyTransaction inNode) (\<lambda>node.
     andThen (wrapErr txForm (GetTxType node)) (\<lambda>txType.
     if txType = LegacyTxType then
       andThen (wrapErr txForm (packLegacyTx E node)) (\<lambda>tx.
       andThen (wrapErr txForm (rlpEncodeLegacyTx E tx)) (\<lambda>b. Ok (writeSlice enc b)))
     else if txType = AccessListTxType then
       andThen (wrapErr txForm (packAccessListTx E node)) (\<lambda>tx.
       andThen (wrapErr txForm (rlpEncodeAccessListTx E tx)) (\<lambda>b.
       Ok (writeSlice (enc @ [txType]) b)))
     else if txType = DynamicFeeTxType then
       andThen (wrapErr txForm (packDynamicFeeTx E node)) (\<lambda>tx.
       andThen (wrapErr txForm (rlpEncodeDynamicFeeTx E tx)) (\<lambda>b.
       Ok (writeSlice (enc @ [txType]) b)))
     else Fail (Err ''invalid DAG-ETH Transaction form (unrecognized TxType)'')))"

definition tx_Encode :: "ext \<Rightarrow> node \<Rightarrow> 'w writer \<Rightarrow> 'w res" where
  "tx_Encode E node w = andThen (tx_AppendEncode E [] node) (\<lambda>enc. w enc)"

definition EncodeTx :: "ext \<Rightarrow> node \<Rightarrow> transaction res" where
  "EncodeTx E inNode = andThen (tx_Encode E inNode bytesBuffer) (txUnmarshalBinary E)"

section \<open>unmarshal.go\<close>

definition tx_unpackTxType :: "transaction \<Rightarrow> sasm \<Rightarrow> sasm res" where
  "tx_unpackTxType tx ma =
     andThen (ma_key ma ''TxType'') (\<lambda>ma. ma_val ma (\<lambda>ty nul. assignBytes ty [t_Type tx]))"

definition tx_unpackChainID :: "transaction \<Rightarrow> sasm \<Rightarrow> sasm res" where
  "tx_unpackChainID tx ma =
     andThen (ma_key ma ''ChainID'') (\<lambda>ma. ma_val ma (\<lambda>ty nul. 
       if t_Type tx = LegacyTxType then assignNull ty nul else assignBytes ty (bigBytes (t_ChainId tx))))"

definition tx_unpackAccountNonce :: "transaction \<Rightarrow> sasm \<Rightarrow> sasm res" where
  "tx_unpackAccountNonce tx ma =
     andThen (ma_key ma ''AccountNonce'') (\<lambda>ma. ma_val ma (\<lambda>ty nul. assignBytes ty (putUint64 (t_Nonce tx))))"

definition tx_unpackGasPrice :: "transaction \<Rightarrow> sasm \<Rightarrow> sasm res" where
  "tx_unpackGasPrice tx ma =
     andThen (ma_key ma ''GasPrice'') (\<lambda>ma. ma_val ma (\<lambda>ty nul. 
       if t_Type tx = DynamicFeeTxType then assignNull ty nul
       else assignBytes ty (bigBytes (t_GasPrice tx))))"

definition tx_unpackGasFeeCap :: "transaction \<Rightarrow> sasm \<Rightarrow> sasm res" where
  "tx_unpackGasFeeCap tx ma =
     andThen (ma_key ma ''GasTipCap'') (\<lambda>ma. ma_val ma (\<lambda>ty nul. 
       if t_Type tx \<noteq> DynamicFeeTxType then assignNull ty nul
       else assignBytes ty (bigBytes (t_GasTipCap tx))))"

definition tx_unpackGasTipCap :: "transaction \<Rightarrow> sasm \<Rightarrow> sasm res" where
  "tx_unpackGasTipCap tx ma =
     andThen (ma_key ma ''GasFeeCap'') (\<lambda>ma. ma_val ma (\<lambda>ty nul. 
       if t_Type tx \<noteq> DynamicFeeTxType then assignNull ty nul
       else assignBytes ty (bigBytes (t_GasFeeCap tx))))"

definition tx_unpackGasLimit :: "transaction \<Rightarrow> sasm \<Rightarrow> sasm res" where
  "tx_unpackGasLimit tx ma =
     andThen (ma_key ma ''GasLimit'') (\<lambda>ma. ma_val ma (\<lambda>ty nul. assignBytes ty (putUint64 (t_Gas tx))))"

definition tx_unpackRecipient :: "transaction \<Rightarrow> sasm \<Rightarrow> sasm res" where
  "tx_unpackRecipient tx ma =
     andThen (ma_key ma ''Recipient'') (\<lambda>ma. ma_val ma (\<lambda>ty nul. 
       case t_To tx of None \<Rightarrow> assignNull ty nul | Some to \<Rightarrow> assignBytes ty to))"

definition tx_unpackAmount :: "transaction \<Rightarrow> sasm \<Rightarrow> sasm res" where
  "tx_unpackAmount tx ma =
     andThen (ma_key ma ''Amount'') (\<lambda>ma. ma_val ma (\<lambda>ty nul. assignBytes ty (bigBytes (t_Value tx))))"

definition tx_unpackData :: "transaction \<Rightarrow> sasm \<Rightarrow> sasm res" where
  "tx_unpackData tx ma =
     andThen (ma_key ma ''Data'') (\<lambda>ma. ma_val ma (\<lambda>ty nul. assignBytes ty (t_Data tx)))"

definition assembleAccessElement :: "accessTuple \<Rightarrow> tyname \<Rightarrow> bool \<Rightarrow> tnode option res" where
  "assembleAccessElement el ty nul =
     andThen (beginStruct ty) (\<lambda>ma.
     andThen (ma_key ma ''Address'') (\<lambda>ma.
     andThen (ma_val ma (\<lambda>ty nul. assignBytes ty (at_Address el))) (\<lambda>ma.
     andThen (ma_key ma ''StorageKeys'') (\<lambda>ma.
     andThen (ma_val ma (\<lambda>ty nul. assembleBytesList ty (at_StorageKeys el))) (\<lambda>ma.
     andThen (sa_done ma) (\<lambda>t. Ok (Some t)))))))"

definition tx_unpackAccessList :: "transaction \<Rightarrow> sasm \<Rightarrow> sasm res" where
  "tx_unpackAccessList tx ma =
     andThen (ma_key ma ''AccessList'') (\<lambda>ma. ma_val ma (\<lambda>ty nul.
       if t_Type tx = LegacyTxType then assignNull ty nul
       else
         andThen (beginList ty) (\<lambda>la.
         andThen (forEach (\<lambda>el la. la_val la (assembleAccessElement el)) (t_AccessList tx) la) (\<lambda>la.
         andThen (la_done la) (\<lambda>t. Ok (Some t))))))"

definition tx_unpackSignatureValues :: "transaction \<Rightarrow> sasm \<Rightarrow> sasm res" where
  "tx_unpackSignatureValues tx ma =
     andThen (ma_key ma ''R'') (\<lambda>ma.
     andThen (ma_val ma (\<lambda>ty nul. assignBytes ty (bigBytes (t_R tx)))) (\<lambda>ma.
     andThen (ma_key ma ''S'') (\<lambda>ma.
     andThen (ma_val ma (\<lambda>ty nul. assignBytes ty (bigBytes (t_S tx)))) (\<lambda>ma.
     andThen (ma_key ma ''V'') (\<lambda>ma.
     ma_val ma (\<lambda>ty nul. assignBytes ty (bigBytes (t_V tx))))))))"

definition tx_requiredUnpackFuncs :: "(transaction \<Rightarrow> sasm \<Rightarrow> sasm res) list" where
  "tx_requiredUnpackFuncs =
     [tx_unpackTxType, tx_unpackChainID, tx_unpackAccountNonce, tx_unpackGasPrice, tx_unpackGasTipCap,
      tx_unpackGasFeeCap, tx_unpackGasLimit, tx_unpackRecipient, tx_unpackAmount, tx_unpackData,
      tx_unpackAccessList, tx_unpackSignatureValues]"

definition DecodeTx :: "transaction \<Rightarrow> tnode res" where
  "DecodeTx tx =
     andThen (beginStruct TyTransaction) (\<lambda>ma.
     andThen (wrapErr ''invalid DAG-ETH Transaction binary''
       (runAll (map (\<lambda>upFunc. upFunc tx) tx_requiredUnpackFuncs) ma)) sa_done)"

definition tx_DecodeBytes :: "ext \<Rightarrow> bytes \<Rightarrow> tnode res" where
  "tx_DecodeBytes E src = andThen (txUnmarshalBinary E src) DecodeTx"

definition tx_Decode :: "ext \<Rightarrow> reader \<Rightarrow> tnode res" where
  "tx_Decode E rd = andThen (readSrc rd) (tx_DecodeBytes E)"

section \<open>The node of a transaction\<close>

definition accessNode :: "accessTuple \<Rightarrow> tnode" where
  "accessNode el = TnStruct TyAccessElement
     [Some (TnBytes TyAddress (at_Address el)),
      Some (TnList TyStorageKeys (map (TnBytes TyHash) (at_StorageKeys el)))]"

definition bigNode :: "int \<Rightarrow> tnode" where
  "bigNode v = TnBytes TyBigInt (bigBytes v)"

definition txEntries :: "transaction \<Rightarrow> (string \<times> tnode option) list list" where
  "txEntries t =
     (let legacy = (t_Type t = LegacyTxType); dynamic = (t_Type t = DynamicFeeTxType) in
     [[(''TxType'', Some (TnBytes TyTxType [t_Type t]))],
      [(''ChainID'', if legacy then None else Some (bigNode (t_ChainId t)))],
      [(''AccountNonce'', Some (TnBytes TyUint (putUint64 (t_Nonce t))))],
      [(''GasPrice'', if dynamic then None else Some (bigNode (t_GasPrice t)))],
      [(''GasFeeCap'', if dynamic then Some (bigNode (t_GasFeeCap t)) else None)],
      [(''GasTipCap'', if dynamic then Some (bigNode (t_GasTipCap t)) else None)],
      [(''GasLimit'', Some (TnBytes TyUint (putUint64 (t_Gas t))))],
      [(''Recipient'', map_option (TnBytes TyAddress) (t_To t))],
      [(''Amount'', Some (bigNode (t_Value t)))],
      [(''Data'', Some (TnBytes TyBytes (t_Data t)))],
      [(''AccessList'', if legacy then None
         else Some (TnList TyAccessList (map accessNode (t_AccessList t))))],
      [(''R'', Some (bigNode (t_R t))), (''S'', Some (bigNode (t_S t))), (''V'', Some (bigNode (t_V t)))]])"

lemma fields_Transaction: "fieldsOf TyTransaction = go_Transaction"
  by (simp add: fieldsOf.simps)

lemma fieldNames_Transaction [simp]:
  "fieldNames TyTransaction =
    [''TxType'', ''ChainID'', ''AccountNonce'', ''GasPrice'', ''GasTipCap'', ''GasFeeCap'', ''GasLimit'',
     ''Recipient'', ''Amount'', ''Data'', ''AccessList'', ''V'', ''R'', ''S'']"
  by (simp add: fieldNames_def fields_Transaction go_defs go_field_defs)

definition txNode :: "transaction \<Rightarrow> tnode" where
  "txNode t = TnStruct TyTransaction
     (map (\<lambda>k. the (map_of (concat (txEntries t)) k)) (fieldNames TyTransaction))"

lemma fieldAt_Transaction:
  "fieldAt TyTransaction ''TxType'' = goField ''TxType'' TyTxType"
  "fieldAt TyTransaction ''ChainID'' = goMaybe ''ChainID'' TyBigInt"
  "fieldAt TyTransaction ''AccountNonce'' = goField ''AccountNonce'' TyUint"
  "fieldAt TyTransaction ''GasPrice'' = goMaybe ''GasPrice'' TyBigInt"
  "fieldAt TyTransaction ''GasTipCap'' = goMaybe ''GasTipCap'' TyBigInt"
  "fieldAt TyTransaction ''GasFeeCap'' = goMaybe ''GasFeeCap'' TyBigInt"
  "fieldAt TyTransaction ''GasLimit'' = goField ''GasLimit'' TyUint"
  "fieldAt TyTransaction ''Recipient'' = goMaybe ''Recipient'' TyAddress"
  "fieldAt TyTransaction ''Amount'' = goField ''Amount'' TyBigInt"
  "fieldAt TyTransaction ''Data'' = goField ''Data'' TyBytes"
  "fieldAt TyTransaction ''AccessList'' = goMaybe ''AccessList'' TyAccessList"
  "fieldAt TyTransaction ''V'' = goField ''V'' TyBigInt"
  "fieldAt TyTransaction ''R'' = goField ''R'' TyBigInt"
  "fieldAt TyTransaction ''S'' = goField ''S'' TyBigInt"
  by (simp_all add: fieldAt_def fields_Transaction go_defs)

lemma fields_AccessElement: "fieldsOf TyAccessElement = go_AccessElement"
  by (simp add: fieldsOf.simps)

lemma fieldNames_AccessElement [simp]: "fieldNames TyAccessElement = [''Address'', ''StorageKeys'']"
  by (simp add: fieldNames_def fields_AccessElement go_defs go_field_defs)

lemma fieldAt_AccessElement:
  "fieldAt TyAccessElement ''Address'' = goField ''Address'' TyAddress"
  "fieldAt TyAccessElement ''StorageKeys'' = goField ''StorageKeys'' TyStorageKeys"
  by (simp_all add: fieldAt_def fields_AccessElement go_defs)

lemma nullableIn_Transaction [simp]:
  "nullableIn TyTransaction ''ChainID''" "nullableIn TyTransaction ''GasPrice''"
  "nullableIn TyTransaction ''GasTipCap''" "nullableIn TyTransaction ''GasFeeCap''"
  "nullableIn TyTransaction ''Recipient''" "nullableIn TyTransaction ''AccessList''"
  by (simp_all add: nullableIn_def fields_Transaction go_defs go_field_defs)

lemma assembleAccessElement_node:
  "assembleAccessElement el TyAccessElement nul = Ok (Some (accessNode el))"
proof -
  let ?ma = "newStructAsm TyAccessElement False"
  let ?fs = "[putVal ''Address'' (\<lambda>ty nul. assignBytes ty (at_Address el)),
    putVal ''StorageKeys'' (\<lambda>ty nul. assembleBytesList ty (at_StorageKeys el))]"
  let ?es = "[[(''Address'', Some (TnBytes TyAddress (at_Address el)))],
    [(''StorageKeys'', Some (TnList TyStorageKeys (map (TnBytes TyHash) (at_StorageKeys el))))]]"
  have "list_all2 (puts_as TyAccessElement) ?fs ?es"
    by (auto simp: fieldAt_AccessElement goField_def assembleBytesList_Ok [of TyStorageKeys TyHash]
        intro!: puts_as_putVal)
  from runAll_puts [OF this, of ?ma]
  have "andThen (runAll ?fs ?ma) sa_done = andThen (sa_puts (concat ?es) ?ma) sa_done"
    by (simp only: newStructAsm_ty simp_thms)
  also have "\<dots> = Ok (accessNode el)"
    by (subst sa_struct) (auto simp: accessNode_def)
  finally have "andThen (andThen (runAll ?fs ?ma) sa_done) (\<lambda>t. Ok (Some t)) = Ok (Some (accessNode el))"
    by (simp only: andThen.simps)
  then show ?thesis
    by (simp add: assembleAccessElement_def beginStruct_def putVal_def andThen_assoc)
qed

lemma assembleAccessList_node:
  "andThen (forEach (\<lambda>el la. la_val la (assembleAccessElement el)) els (newListAsm TyAccessList)) la_done
    = Ok (TnList TyAccessList (map accessNode els))"
  by (intro la_list) (simp add: elemType_def assembleAccessElement_node)

lemma tx_unpackSignatureValues_puts:
  "puts_as TyTransaction (tx_unpackSignatureValues t)
     [(''R'', Some (bigNode (t_R t))), (''S'', Some (bigNode (t_S t))), (''V'', Some (bigNode (t_V t)))]"
proof -
  let ?val = "\<lambda>v (ty :: tyname) (nul :: bool). assignBytes ty (bigBytes v)"
  let ?fs = "[putVal ''R'' (?val (t_R t)), putVal ''S'' (?val (t_S t)), putVal ''V'' (?val (t_V t))]"
  let ?es = "[[(''R'', Some (bigNode (t_R t)))], [(''S'', Some (bigNode (t_S t)))],
    [(''V'', Some (bigNode (t_V t)))]]"
  have "list_all2 (puts_as TyTransaction) ?fs ?es"
    by (auto simp: fieldAt_Transaction goField_def bigNode_def intro!: puts_as_putVal)
  note runAll_puts [OF this]
  moreover have "tx_unpackSignatureValues t ma = runAll ?fs ma" for ma
    by (simp add: tx_unpackSignatureValues_def putVal_def [abs_def] runAll_eta andThen_assoc)
  ultimately show ?thesis by (simp add: puts_as_def)
qed

lemma tx_unpack_puts:
  "list_all2 (puts_as TyTransaction) (map (\<lambda>f. f t) tx_requiredUnpackFuncs) (txEntries t)"
  unfolding tx_requiredUnpackFuncs_def txEntries_def Let_def
  using assembleAccessList_node [of "t_AccessList t"] tx_unpackSignatureValues_puts [of t]
  by (auto simp: fieldAt_Transaction goField_def goMaybe_def bigNode_def beginList_def
      split: option.splits
      intro!: puts_as_entry [OF _ _ tx_unpackTxType_def] puts_as_entry [OF _ _ tx_unpackChainID_def]
        puts_as_entry [OF _ _ tx_unpackAccountNonce_def] puts_as_entry [OF _ _ tx_unpackGasPrice_def]
        puts_as_entry [OF _ _ tx_unpackGasTipCap_def] puts_as_entry [OF _ _ tx_unpackGasFeeCap_def]
        puts_as_entry [OF _ _ tx_unpackGasLimit_def] puts_as_entry [OF _ _ tx_unpackRecipient_def]
        puts_as_entry [OF _ _ tx_unpackAmount_def] puts_as_entry [OF _ _ tx_unpackData_def]
        puts_as_entry [OF _ _ tx_unpackAccessList_def])

lemma DecodeTx_node: "DecodeTx t = Ok (txNode t)"
proof -
  have "andThen (sa_puts (concat (txEntries t)) (newStructAsm TyTransaction False)) sa_done = Ok (txNode t)"
    unfolding txNode_def by (subst sa_struct) (auto simp: txEntries_def Let_def)
  then show ?thesis
    using runAll_puts [OF tx_unpack_puts [of t], of "newStructAsm TyTransaction False"]
    by (auto simp: DecodeTx_def beginStruct_def)
qed

section \<open>Packing the node of a transaction\<close>

lemmas tx_pack_defs =
  tx_packChainIDAL_def tx_packChainIDDF_def tx_packAccountNonce_def tx_packAccountNonceAL_def
  tx_packAccountNonceDF_def tx_packGasPrice_def tx_packGasPriceAL_def tx_packGasTipCap_def
  tx_packGasFeeCap_def tx_packGasLimit_def tx_packGasLimitAL_def tx_packGasLimitDF_def
  tx_packRecipient_def tx_packRecipientAL_def tx_packRecipientDF_def tx_packAmount_def
  tx_packAmountAL_def tx_packAmountDF_def tx_packData_def tx_packDataAL_def tx_packDataDF_def
  tx_packAccessListAL_def tx_packAccessListDF_def tx_packSignatureValues_def
  tx_packSignatureValuesAL_def tx_packSignatureValuesDF_def createVRS_def createAccessList_def

lemmas packTx_defs = packLegacyTx_def packAccessListTx_def packDynamicFeeTx_def
  requiredPackLegacyTxFuncs_def requiredPackAccessListTxFuncs_def requiredPackDynamicFeeTxFuncs_def
  newLegacyTx_def newAccessListTx_def newDynamicFeeTx_def

lemma accessElement_node:
  assumes "conv_laws E" "accessCanon el"
  shows "accessElement E (NTyped (accessNode el)) = Ok el"
proof -
  have "traverse (\<lambda>n. andThen (asBytes n) (\<lambda>b. Ok (bytesToHash E b)))
      (map (\<lambda>x. NTyped (TnBytes TyHash x)) (at_StorageKeys el)) = Ok (at_StorageKeys el)"
    using assms by (subst traverse_map, subst traverse_map_Ok [where g = id])
      (auto simp: accessCanon_def list_all_iff conv_lawsD)
  then show ?thesis
    using assms by (simp add: accessElement_def accessNode_def bytesField_def accessCanon_def
        conv_lawsD comp_def)
qed

lemma accessElements_node:
  assumes "conv_laws E" "list_all accessCanon els"
  shows "traverse (accessElement E) (map (NTyped \<circ> accessNode) els) = Ok els"
  using assms by (subst traverse_map, subst traverse_map_Ok [where g = id])
    (auto simp: list_all_iff accessElement_node)

lemma nonneg_Some: "nonneg x \<Longrightarrow> \<exists>v. x = Some v \<and> 0 \<le> v"
  by (auto simp: nonneg_def split: option.splits)

lemma packLegacyTx_node:
  assumes "conv_laws E" "txCanon (LegacyTxData d)"
  shows "packLegacyTx E (NTyped (txNode (txView E (LegacyTxData d)))) = Ok d"
  using assms
  by (cases "lt_To d")
    (auto simp: packTx_defs tx_pack_defs bytesField_def txNode_def txEntries_def txtype_defs bigNode_def
      toCanon_def conv_lawsD dest!: nonneg_Some)

lemma packAccessListTx_node:
  assumes "conv_laws E" "txCanon (AccessListTxData d)"
  shows "packAccessListTx E (NTyped (txNode (txView E (AccessListTxData d)))) = Ok d"
  using assms
  by (cases "al_To d")
    (auto simp: packTx_defs tx_pack_defs bytesField_def txNode_def txEntries_def txtype_defs bigNode_def
      toCanon_def conv_lawsD accessElements_node dest!: nonneg_Some)

lemma packDynamicFeeTx_node:
  assumes "conv_laws E" "txCanon (DynamicFeeTxData d)"
  shows "packDynamicFeeTx E (NTyped (txNode (txView E (DynamicFeeTxData d)))) = Ok d"
  using assms
  by (cases "df_To d")
    (auto simp: packTx_defs tx_pack_defs bytesField_def txNode_def txEntries_def txtype_defs bigNode_def
      toCanon_def conv_lawsD accessElements_node dest!: nonneg_Some)

section \<open>The codec\<close>

text \<open>What \<open>AppendEncode\<close> does before RLP, as one function, and the struct behind the accessors.\<close>

definition packTx :: "ext \<Rightarrow> node \<Rightarrow> txData res" where
  "packTx E inNode =
     andThen (wrapTyped TyTransaction inNode) (\<lambda>node.
     andThen (wrapErr txForm (GetTxType node)) (\<lambda>txType.
     if txType = LegacyTxType then
       andThen (wrapErr txForm (packLegacyTx E node)) (\<lambda>tx. Ok (LegacyTxData tx))
     else if txType = AccessListTxType then
       andThen (wrapErr txForm (packAccessListTx E node)) (\<lambda>tx. Ok (AccessListTxData tx))
     else if txType = DynamicFeeTxType then
       andThen (wrapErr txForm (packDynamicFeeTx E node)) (\<lambda>tx. Ok (DynamicFeeTxData tx))
     else Fail (Err ''invalid DAG-ETH Transaction form (unrecognized TxType)'')))"

definition txDataOf :: "transaction \<Rightarrow> txData" where
  "txDataOf t =
     (if t_Type t = LegacyTxType then
        LegacyTxData \<lparr>lt_Nonce = t_Nonce t, lt_GasPrice = Some (t_GasPrice t), lt_Gas = t_Gas t,
          lt_To = t_To t, lt_Value = Some (t_Value t), lt_Data = t_Data t, lt_V = Some (t_V t),
          lt_R = Some (t_R t), lt_S = Some (t_S t)\<rparr>
      else if t_Type t = AccessListTxType then
        AccessListTxData \<lparr>al_ChainID = Some (t_ChainId t), al_Nonce = t_Nonce t,
          al_GasPrice = Some (t_GasPrice t), al_Gas = t_Gas t, al_To = t_To t,
          al_Value = Some (t_Value t), al_Data = t_Data t, al_AccessList = t_AccessList t,
          al_V = Some (t_V t), al_R = Some (t_R t), al_S = Some (t_S t)\<rparr>
      else
        DynamicFeeTxData \<lparr>df_ChainID = Some (t_ChainId t), df_Nonce = t_Nonce t,
          df_GasTipCap = Some (t_GasTipCap t), df_GasFeeCap = Some (t_GasFeeCap t), df_Gas = t_Gas t,
          df_To = t_To t, df_Value = Some (t_Value t), df_Data = t_Data t,
          df_AccessList = t_AccessList t, df_V = Some (t_V t), df_R = Some (t_R t),
          df_S = Some (t_S t)\<rparr>)"

lemma txDataOf_txView: "txCanon d \<Longrightarrow> txDataOf (txView E d) = d"
  by (cases d) (auto simp: txDataOf_def txtype_defs dest!: nonneg_Some)

definition txDec :: "ext \<Rightarrow> bytes \<Rightarrow> txData res" where
  "txDec E b = andThen (txUnmarshalBinary E b) (\<lambda>t. Ok (txDataOf t))"

lemma tnType_txNode [simp]: "tnType (txNode t) = TyTransaction"
  by (simp add: txNode_def)

lemma GetTxType_txNode: "GetTxType (NTyped (txNode t)) = Ok (t_Type t)"
  by (simp add: GetTxType_def txNode_def txEntries_def Let_def)

lemma packTx_node:
  assumes "conv_laws E" "txCanon d"
  shows "packTx E (NTyped (txNode (txView E d))) = Ok d"
  using packLegacyTx_node [OF assms(1)] packAccessListTx_node [OF assms(1)]
    packDynamicFeeTx_node [OF assms(1)] assms(2)
  by (cases d) (simp_all add: packTx_def GetTxType_txNode txtype_defs del: txCanon.simps)

lemma tx_laws_rlp: "tx_laws E \<Longrightarrow> rlp_laws txCanon (txMarshal E) (txDec E)"
  by (force simp: tx_laws_def rlp_laws_def txDec_def txDataOf_txView)

definition tx_lawful :: "ext \<Rightarrow> bool" where
  "tx_lawful E \<longleftrightarrow> conv_laws E \<and> tx_laws E"

interpretation tx: struct_codec "tx_lawful E" txCanon txCanon "\<lambda>d. txNode (txView E d)"
    "\<lambda>d. DecodeTx (txView E d)" "packTx E" "\<lambda>d. wrapErr txForm (txMarshal E d)" "txDec E" for E
  by unfold_locales (auto simp: tx_lawful_def DecodeTx_node packTx_node tx_laws_rlp)

lemma wrapErr_andThen_Ok: "wrapErr m (andThen r (\<lambda>x. Ok (f x))) = andThen (wrapErr m r) (\<lambda>x. Ok (f x))"
  by (cases r) auto

lemma tx_Encode_buffer: "tx_Encode E n bytesBuffer = tx.encodes E n"
  by (simp add: tx_Encode_def tx_AppendEncode_def tx.encodes_def packTx_def bytesBuffer_def
      writeSlice_def andThen_assoc wrapErr_andThen_Ok if_distrib [of "\<lambda>r. andThen r f" for f] cong: if_cong)

lemma tx_DecodeBytes_decodes:
  assumes "tx_laws E"
  shows "tx_DecodeBytes E b = tx.decodes E b"
  unfolding tx_DecodeBytes_def tx.decodes_def txDec_def andThen_assoc
proof (intro andThen_cong refl)
  fix t assume "txUnmarshalBinary E b = Ok t"
  then obtain d where "txCanon d" "t = txView E d" using assms by (auto simp: tx_laws_def)
  then show "DecodeTx t = andThen (Ok (txDataOf t)) (\<lambda>d. DecodeTx (txView E d))"
    by (simp add: txDataOf_txView)
qed

end

