(* ===== verification/Log_Codec.thy ===== *)
theory Log_Codec
  imports Codec_Iface
begin

text \<open>
  The package \<open>log\<close>: encoding and decoding of event logs (multicodec 0x9a).  The lemmas show that
  decoding a log yields the node with its three fields, that packing that node gives the log back,
  and that the codec satisfies the \<open>dag_codec\<close> contract.
\<close>

section \<open>multicodec.go: constants\<close>

definition log_MultiCodecType :: u64 where "log_MultiCodecType = 0x9a"
definition log_MultiHashType :: u64 where "log_MultiHashType = KECCAK_256"

section \<open>marshal.go\<close>

definition newLog :: log where
  "newLog = \<lparr>l_Address = replicate AddressLength 0, l_Topics = [], l_Data = []\<rparr>"

definition log_packAddress :: "ext \<Rightarrow> node \<Rightarrow> log \<Rightarrow> log res" where
  "log_packAddress E node log =
     andThen (wrapErr ''receipt log is missing an Address node'' (lookupByString node ''Address'')) (\<lambda>addrNode.
     andThen (asBytes addrNode) (\<lambda>addrBytes.
     Ok (log\<lparr>l_Address := bytesToAddress E addrBytes\<rparr>)))"

definition log_packTopics :: "ext \<Rightarrow> node \<Rightarrow> log \<Rightarrow> log res" where
  "log_packTopics E node log =
     andThen (wrapErr ''receipt log is missing a Topics node'' (lookupByString node ''Topics'')) (\<lambda>topicsNode.
     andThen (listNodes topicsNode) (\<lambda>topicNodes.
     andThen (traverse (\<lambda>topicNode. andThen (asBytes topicNode) (\<lambda>topicBytes.
         Ok (bytesToHash E topicBytes))) topicNodes) (\<lambda>topics.
     Ok (log\<lparr>l_Topics := topics\<rparr>))))"

definition log_packData :: "ext \<Rightarrow> node \<Rightarrow> log \<Rightarrow> log res" where
  "log_packData E node log =
     andThen (wrapErr ''receipt log is missing a Data node'' (lookupByString node ''Data'')) (\<lambda>dataNode.
     andThen (asBytes dataNode) (\<lambda>data.
     Ok (log\<lparr>l_Data := data\<rparr>)))"

definition log_requiredPackFuncs :: "(ext \<Rightarrow> node \<Rightarrow> log \<Rightarrow> log res) list" where
  "log_requiredPackFuncs = [log_packAddress, log_packTopics, log_packData]"

definition EncodeLog :: "ext \<Rightarrow> log \<Rightarrow> node \<Rightarrow> log res" where
  "EncodeLog E log inNode =
     andThen (wrapTyped TyLog inNode) (\<lambda>node.
     wrapErr ''invalid DAG-ETH Log form''
       (runAll (map (\<lambda>pFunc. pFunc E node) log_requiredPackFuncs) log))"

definition log_AppendEncode :: "ext \<Rightarrow> bytes \<Rightarrow> node \<Rightarrow> bytes res" where
  "log_AppendEncode E enc inNode =
     andThen (EncodeLog E newLog inNode) (\<lambda>log.
     andThen (rlpEncodeLog E log) (\<lambda>b. Ok (writeSlice enc b)))"

definition log_Encode :: "ext \<Rightarrow> node \<Rightarrow> 'w writer \<Rightarrow> 'w res" where
  "log_Encode E node w = andThen (log_AppendEncode E [] node) (\<lambda>enc. w enc)"

section \<open>unmarshal.go\<close>

definition log_unpackAddress :: "log \<Rightarrow> sasm \<Rightarrow> sasm res" where
  "log_unpackAddress log ma =
     andThen (ma_key ma ''Address'') (\<lambda>ma. ma_val ma (\<lambda>ty nul. assignBytes ty (l_Address log)))"

definition log_unpackTopics :: "log \<Rightarrow> sasm \<Rightarrow> sasm res" where
  "log_unpackTopics log ma =
     andThen (ma_key ma ''Topics'') (\<lambda>ma. ma_val ma (\<lambda>ty nul. assembleBytesList ty (l_Topics log)))"

definition log_unpackData :: "log \<Rightarrow> sasm \<Rightarrow> sasm res" where
  "log_unpackData log ma =
     andThen (ma_key ma ''Data'') (\<lambda>ma. ma_val ma (\<lambda>ty nul. assignBytes ty (l_Data log)))"

definition log_requiredUnpackFuncs :: "(log \<Rightarrow> sasm \<Rightarrow> sasm res) list" where
  "log_requiredUnpackFuncs = [log_unpackAddress, log_unpackTopics, log_unpackData]"

definition DecodeLog :: "log \<Rightarrow> tnode res" where
  "DecodeLog log =
     andThen (beginStruct TyLog) (\<lambda>ma.
     andThen (wrapErr ''invalid DAG-ETH Log binary''
       (runAll (map (\<lambda>upFunc. upFunc log) log_requiredUnpackFuncs) ma)) sa_done)"

definition log_DecodeBytes :: "ext \<Rightarrow> bytes \<Rightarrow> tnode res" where
  "log_DecodeBytes E src = andThen (rlpDecodeLog E src) DecodeLog"

definition log_Decode :: "ext \<Rightarrow> reader \<Rightarrow> tnode res" where
  "log_Decode E rd = andThen (readSrc rd) (log_DecodeBytes E)"

section \<open>Correctness\<close>

text \<open>The node of a log.\<close>

definition logNode :: "log \<Rightarrow> tnode" where
  "logNode l = TnStruct TyLog
     [Some (TnBytes TyAddress (l_Address l)),
      Some (TnList TyTopics (map (TnBytes TyHash) (l_Topics l))),
      Some (TnBytes TyBytes (l_Data l))]"

definition logEntries :: "log \<Rightarrow> (string \<times> tnode option) list list" where
  "logEntries l =
     [[(''Address'', Some (TnBytes TyAddress (l_Address l)))],
      [(''Topics'', Some (TnList TyTopics (map (TnBytes TyHash) (l_Topics l))))],
      [(''Data'', Some (TnBytes TyBytes (l_Data l)))]]"

lemma fields_Log: "fieldsOf TyLog = go_Log"
  by (simp add: fieldsOf.simps)

lemma fieldNames_Log [simp]: "fieldNames TyLog = [''Address'', ''Topics'', ''Data'']"
  by (simp add: fieldNames_def fields_Log go_defs go_field_defs)

lemma fieldAt_Log:
  "fieldAt TyLog ''Address'' = goField ''Address'' TyAddress"
  "fieldAt TyLog ''Topics'' = goField ''Topics'' TyTopics"
  "fieldAt TyLog ''Data'' = goField ''Data'' TyBytes"
  by (simp_all add: fieldAt_def fields_Log go_defs)

lemma log_unpack_puts:
  "list_all2 (puts_as TyLog) (map (\<lambda>f. f l) log_requiredUnpackFuncs) (logEntries l)"
  unfolding log_requiredUnpackFuncs_def logEntries_def
  by (auto simp: fieldAt_Log goField_def assembleBytesList_Ok [of TyTopics TyHash]
      intro!: puts_as_entry [OF _ _ log_unpackAddress_def] puts_as_entry [OF _ _ log_unpackTopics_def]
        puts_as_entry [OF _ _ log_unpackData_def])

lemma DecodeLog_node: "DecodeLog l = Ok (logNode l)"
proof -
  have "andThen (sa_puts (concat (logEntries l)) (newStructAsm TyLog False)) sa_done = Ok (logNode l)"
    by (subst sa_struct) (auto simp: logEntries_def logNode_def)
  then show ?thesis
    using runAll_puts [OF log_unpack_puts, of "newStructAsm TyLog False" l]
    by (auto simp: DecodeLog_def beginStruct_def)
qed

lemma EncodeLog_node:
  assumes "conv_laws E" "logGood l"
  shows "EncodeLog E l0 (NTyped (logNode l)) = Ok l"
proof -
  have "traverse (\<lambda>n. andThen (asBytes n) (\<lambda>b. Ok (bytesToHash E b)))
      (map (\<lambda>x. NTyped (TnBytes TyHash x)) (l_Topics l)) = Ok (l_Topics l)"
    using assms by (subst traverse_map, subst traverse_map_Ok [where g = id])
      (auto simp: logGood_def list_all_iff conv_lawsD)
  then show ?thesis
    using assms
    by (simp add: EncodeLog_def log_requiredPackFuncs_def log_packAddress_def log_packTopics_def
        log_packData_def logNode_def logGood_def conv_lawsD comp_def)
qed

definition log_lawful :: "ext \<Rightarrow> bool" where
  "log_lawful E \<longleftrightarrow> conv_laws E \<and> rlp_laws logGood (rlpEncodeLog E) (rlpDecodeLog E)"

interpretation log: struct_codec "log_lawful E" logGood logGood logNode DecodeLog "EncodeLog E newLog"
    "rlpEncodeLog E" "rlpDecodeLog E" for E
  by unfold_locales (auto simp: log_lawful_def DecodeLog_node EncodeLog_node)

lemma log_Encode_buffer: "log_Encode E n bytesBuffer = log.encodes E n"
  by (auto simp: log_Encode_def log_AppendEncode_def log.encodes_def bytesBuffer_def writeSlice_def
      andThen_assoc)

lemma log_DecodeBytes_decodes: "log_DecodeBytes E = log.decodes E"
  by (auto simp: log_DecodeBytes_def log.decodes_def)

end
