(* ===== verification/Rct.thy ===== *)
theory Rct
  imports Log_Codec
begin

text \<open>
  The package \<open>rct\<close>: encoding and decoding of transaction receipts (multicodec 0x95).  A node
  carries either a post state or a status, the logs, and a link to the root of a trie built from
  the logs, which encoding ignores.  The lemmas show that the node of a receipt packs back into its
  consensus fields and that the codec satisfies the \<open>struct_codec\<close> contract.
\<close>

section \<open>marshal.go\<close>

definition receiptStatusFailedRLP :: bytes where "receiptStatusFailedRLP = []"
definition receiptStatusSuccessfulRLP :: bytes where "receiptStatusSuccessfulRLP = [0x01]"
definition receiptStatusFailed :: bytes where "receiptStatusFailed = [0, 0, 0, 0, 0, 0, 0, 0]"
definition receiptStatusSuccessful :: bytes where "receiptStatusSuccessful = [0, 0, 0, 0, 0, 0, 0, 1]"

lemmas rct_status_defs = receiptStatusFailedRLP_def receiptStatusSuccessfulRLP_def
  receiptStatusFailed_def receiptStatusSuccessful_def

definition newReceiptRLP :: receiptRLP where
  "newReceiptRLP = \<lparr>rr_PostStateOrStatus = [], rr_CumulativeGasUsed = 0,
     rr_Bloom = replicate BloomByteLength 0, rr_Logs = []\<rparr>"

definition rct_packPostStateOrStatus :: "ext \<Rightarrow> node \<Rightarrow> receiptRLP \<Rightarrow> receiptRLP res" where
  "rct_packPostStateOrStatus E node rct =
     andThen (wrapErr ''receipt is missing a PostState node'' (lookupByString node ''PostState'')) (\<lambda>psNode.
     if \<not> isNull psNode then
       andThen (replErr (Err ''receipt PostState should be of type Bytes'') (asBytes psNode)) (\<lambda>psBytes.
       Ok (rct\<lparr>rr_PostStateOrStatus := psBytes\<rparr>))
     else
       andThen (wrapErr ''receipt is missing a Status node'' (lookupByString node ''Status'')) (\<lambda>sNode.
       if isNull sNode then Fail (Err ''receipt Node must have either PostState or Status'')
       else
         andThen (replErr (Err ''receipt Status should be of type Bytes'') (asBytes sNode)) (\<lambda>sBytes.
         if sBytes = receiptStatusFailed then
           Ok (rct\<lparr>rr_PostStateOrStatus := receiptStatusFailedRLP\<rparr>)
         else if sBytes = receiptStatusSuccessful then
           Ok (rct\<lparr>rr_PostStateOrStatus := receiptStatusSuccessfulRLP\<rparr>)
         else Fail (Err ''unrecognized tx type''))))"

definition rct_packCumulativeGasUsed :: "ext \<Rightarrow> node \<Rightarrow> receiptRLP \<Rightarrow> receiptRLP res" where
  "rct_packCumulativeGasUsed E node rct =
     andThen (wrapErr ''receipt is missing a CumulativeGasUsed node''
       (lookupByString node ''CumulativeGasUsed'')) (\<lambda>cguNode.
     andThen (asBytes cguNode) (\<lambda>cguBytes.
     andThen (uint64 cguBytes) (\<lambda>v. Ok (rct\<lparr>rr_CumulativeGasUsed := v\<rparr>))))"

definition rct_packBloom :: "ext \<Rightarrow> node \<Rightarrow> receiptRLP \<Rightarrow> receiptRLP res" where
  "rct_packBloom E node rct =
     andThen (wrapErr ''receipt is missing a Bloom node'' (lookupByString node ''Bloom'')) (\<lambda>bloomNode.
     andThen (asBytes bloomNode) (\<lambda>bloomBytes.
     andThen (bytesToBloom E bloomBytes) (\<lambda>bloom. Ok (rct\<lparr>rr_Bloom := bloom\<rparr>))))"

text \<open>The body of the loop over the logs, and the loop.\<close>

definition rct_packLog :: "ext \<Rightarrow> node \<Rightarrow> log res" where
  "rct_packLog E lNode =
     andThen (wrapErr ''receipt log is missing an Address node'' (lookupByString lNode ''Address'')) (\<lambda>addrNode.
     andThen (asBytes addrNode) (\<lambda>addrBytes.
     andThen (wrapErr ''receipt log is missing a Topics node'' (lookupByString lNode ''Topics'')) (\<lambda>topicsNode.
     andThen (listNodes topicsNode) (\<lambda>topicNodes.
     andThen (traverse (\<lambda>topicNode. andThen (asBytes topicNode) (\<lambda>topicBytes.
         Ok (bytesToHash E topicBytes))) topicNodes) (\<lambda>topics.
     andThen (wrapErr ''receipt log is missing a Data node'' (lookupByString lNode ''Data'')) (\<lambda>dataNode.
     andThen (asBytes dataNode) (\<lambda>data.
     Ok \<lparr>l_Address = bytesToAddress E addrBytes, l_Topics = topics, l_Data = data\<rparr>)))))))"

definition rct_packLogs :: "ext \<Rightarrow> node \<Rightarrow> receiptRLP \<Rightarrow> receiptRLP res" where
  "rct_packLogs E node rct =
     andThen (wrapErr ''receipt is missing a Logs node'' (lookupByString node ''Logs'')) (\<lambda>logsNode.
     andThen (listNodes logsNode) (\<lambda>logNodes.
     andThen (traverse (rct_packLog E) logNodes) (\<lambda>logs.
     Ok (rct\<lparr>rr_Logs := logs\<rparr>))))"

definition rct_requiredPackFuncs :: "(ext \<Rightarrow> node \<Rightarrow> receiptRLP \<Rightarrow> receiptRLP res) list" where
  "rct_requiredPackFuncs =
     [rct_packPostStateOrStatus, rct_packCumulativeGasUsed, rct_packBloom, rct_packLogs]"

definition packReceiptRLP :: "ext \<Rightarrow> receiptRLP \<Rightarrow> node \<Rightarrow> (byte \<times> receiptRLP) res" where
  "packReceiptRLP E rct inNode =
     andThen (wrapTyped TyReceipt inNode) (\<lambda>node.
     andThen (wrapErr ''unable to get TxType from receiptRLP'' (GetTxType node)) (\<lambda>txType.
     andThen (wrapErr ''invalid DAG-ETH Receipt form''
       (runAll (map (\<lambda>pFunc. pFunc E node) rct_requiredPackFuncs) rct)) (\<lambda>rct.
     Ok (txType, rct))))"

definition rct_AppendEncode :: "ext \<Rightarrow> bytes \<Rightarrow> node \<Rightarrow> bytes res" where
  "rct_AppendEncode E enc inNode =
     andThen (wrapErr ''unable to encode receiptRLP'' (packReceiptRLP E newReceiptRLP inNode)) (\<lambda>(txType, rct).
     if txType = LegacyTxType then
       andThen (wrapErr ''invalid DAG-ETH Receipt form'' (rlpEncodeReceiptRLP E rct))
         (\<lambda>b. Ok (writeSlice enc b))
     else if txType = AccessListTxType \<or> txType = DynamicFeeTxType then
       andThen (wrapErr ''invalid DAG-ETH Receipt form'' (rlpEncodeReceiptRLP E rct))
         (\<lambda>b. Ok (writeSlice (enc @ [txType]) b))
     else Fail (Err ''invalid DAG-ETH Receipt form (unrecognized TxType)''))"

definition rct_Encode :: "ext \<Rightarrow> node \<Rightarrow> 'w writer \<Rightarrow> 'w res" where
  "rct_Encode E node w = andThen (rct_AppendEncode E [] node) (\<lambda>enc. w enc)"

definition newReceipt :: receipt where
  "newReceipt = \<lparr>r_Type = 0, r_PostState = [], r_Status = 0, r_CumulativeGasUsed = 0,
     r_Bloom = replicate BloomByteLength 0, r_Logs = []\<rparr>"

definition EncodeReceipt :: "ext \<Rightarrow> receipt \<Rightarrow> node \<Rightarrow> receipt res" where
  "EncodeReceipt E receipt inNode =
     andThen (wrapErr ''unable to pack receiptRLP struct'' (packReceiptRLP E newReceiptRLP inNode)) (\<lambda>(txType, rct).
     let receipt = receipt\<lparr>r_Type := txType, r_Bloom := rr_Bloom rct,
           r_CumulativeGasUsed := rr_CumulativeGasUsed rct, r_Logs := rr_Logs rct\<rparr> in
     if rr_PostStateOrStatus rct = receiptStatusSuccessfulRLP then
       Ok (receipt\<lparr>r_Status := ReceiptStatusSuccessful\<rparr>)
     else if rr_PostStateOrStatus rct = receiptStatusFailedRLP then
       Ok (receipt\<lparr>r_Status := ReceiptStatusFailed\<rparr>)
     else if length (rr_PostStateOrStatus rct) = HashLength then
       Ok (receipt\<lparr>r_PostState := rr_PostStateOrStatus rct\<rparr>)
     else Fail (Err ''invalid DAG-ETH Receipt PostStateOrStatus''))"

section \<open>unmarshal.go: the log trie\<close>

text \<open>A \<open>localTrie\<close> wraps a go-ethereum trie over a memory database.\<close>

record localTrie =
  lt_trie :: ethTrie

definition newlocalTrie :: "ext \<Rightarrow> localTrie res" where
  "newlocalTrie E =
     (case trieNew E of
        Ok t \<Rightarrow> Ok \<lparr>lt_trie = t\<rparr>
      | Fail _ \<Rightarrow> Panic ''trie.New''
      | Panic m \<Rightarrow> Panic m)"

definition localTrie_add :: "ext \<Rightarrow> localTrie \<Rightarrow> nat \<Rightarrow> bytes \<Rightarrow> localTrie res" where
  "localTrie_add E lt idx rawdata =
     (case rlpEncodeUint E idx of
        Ok key \<Rightarrow> andThen (trieUpdate E (lt_trie lt) key rawdata) (\<lambda>t. Ok (lt\<lparr>lt_trie := t\<rparr>))
      | Fail _ \<Rightarrow> Panic ''rlp.EncodeToBytes''
      | Panic m \<Rightarrow> Panic m)"

definition localTrie_rootHash :: "ext \<Rightarrow> localTrie \<Rightarrow> bytes" where
  "localTrie_rootHash E lt = trieHash E (lt_trie lt)"

definition processLogs :: "ext \<Rightarrow> log list \<Rightarrow> bytes res" where
  "processLogs E logs =
     andThen (newlocalTrie E) (\<lambda>lTrie.
     andThen (forEach (\<lambda>(idx, l) lTrie.
         andThen (rlpEncodeLog E l) (\<lambda>logRLP. localTrie_add E lTrie idx logRLP))
       (enumerate 0 logs) lTrie) (\<lambda>lTrie.
     Ok (localTrie_rootHash E lTrie)))"

section \<open>unmarshal.go\<close>

definition rct_unpackTxType :: "ext \<Rightarrow> receipt \<Rightarrow> sasm \<Rightarrow> sasm res" where
  "rct_unpackTxType E rct ma =
     andThen (ma_key ma ''TxType'') (\<lambda>ma. ma_val ma (\<lambda>ty nul. assignBytes ty [r_Type rct]))"

definition rct_unpackPostStateOrStatus :: "ext \<Rightarrow> receipt \<Rightarrow> sasm \<Rightarrow> sasm res" where
  "rct_unpackPostStateOrStatus E rct ma =
     (if length (r_PostState rct) > 0 then
        andThen (ma_key ma ''PostState'') (\<lambda>ma.
        andThen (ma_val ma (\<lambda>ty nul. assignBytes ty (r_PostState rct))) (\<lambda>ma.
        andThen (ma_key ma ''Status'') (\<lambda>ma.
        ma_val ma (\<lambda>ty nul. assignNull ty nul))))
      else
        andThen (ma_key ma ''Status'') (\<lambda>ma.
        andThen
          (if r_Status rct = ReceiptStatusFailed then
             ma_val ma (\<lambda>ty nul. assignBytes ty receiptStatusFailed)
           else if r_Status rct = ReceiptStatusSuccessful then
             ma_val ma (\<lambda>ty nul. assignBytes ty receiptStatusSuccessful)
           else Fail (Err ''unrecognized Receipt Status'')) (\<lambda>ma.
        andThen (ma_key ma ''PostState'') (\<lambda>ma.
        ma_val ma (\<lambda>ty nul. assignNull ty nul)))))"

definition rct_unpackCumulativeGasUsed :: "ext \<Rightarrow> receipt \<Rightarrow> sasm \<Rightarrow> sasm res" where
  "rct_unpackCumulativeGasUsed E rct ma =
     andThen (ma_key ma ''CumulativeGasUsed'')
       (\<lambda>ma. ma_val ma (\<lambda>ty nul. assignBytes ty (putUint64 (r_CumulativeGasUsed rct))))"

definition rct_unpackBloom :: "ext \<Rightarrow> receipt \<Rightarrow> sasm \<Rightarrow> sasm res" where
  "rct_unpackBloom E rct ma =
     andThen (ma_key ma ''Bloom'') (\<lambda>ma. ma_val ma (\<lambda>ty nul. assignBytes ty (r_Bloom rct)))"

definition rct_assembleLog :: "log \<Rightarrow> tyname \<Rightarrow> bool \<Rightarrow> tnode option res" where
  "rct_assembleLog log ty nul =
     andThen (beginStruct ty) (\<lambda>logMa.
     andThen (ma_key logMa ''Address'') (\<lambda>logMa.
     andThen (ma_val logMa (\<lambda>ty nul. assignBytes ty (l_Address log))) (\<lambda>logMa.
     andThen (ma_key logMa ''Data'') (\<lambda>logMa.
     andThen (ma_val logMa (\<lambda>ty nul. assignBytes ty (l_Data log))) (\<lambda>logMa.
     andThen (ma_key logMa ''Topics'') (\<lambda>logMa.
     andThen (ma_val logMa (\<lambda>ty nul. assembleBytesList ty (l_Topics log))) (\<lambda>logMa.
     andThen (sa_done logMa) (\<lambda>t. Ok (Some t)))))))))"

definition rct_unpackLogs :: "ext \<Rightarrow> receipt \<Rightarrow> sasm \<Rightarrow> sasm res" where
  "rct_unpackLogs E rct ma =
     andThen (ma_key ma ''Logs'') (\<lambda>ma. ma_val ma (\<lambda>ty nul.
       andThen (beginList ty) (\<lambda>la.
       andThen (forEach (\<lambda>log la. la_val la (rct_assembleLog log)) (r_Logs rct) la) (\<lambda>la.
       andThen (la_done la) (\<lambda>t. Ok (Some t))))))"

definition rct_unpackLogRootCID :: "ext \<Rightarrow> receipt \<Rightarrow> sasm \<Rightarrow> sasm res" where
  "rct_unpackLogRootCID E rct ma =
     andThen (andThen (processLogs E (r_Logs rct)) (\<lambda>logTrieRoot.
       hashLink E log_MultiCodecType log_MultiHashType logTrieRoot)) (\<lambda>logLinkCID.
     andThen (ma_key ma ''LogRootCID'')
       (\<lambda>ma. ma_val ma (\<lambda>ty nul. assignLink ty logLinkCID)))"

definition rct_requiredUnpackFuncs :: "(ext \<Rightarrow> receipt \<Rightarrow> sasm \<Rightarrow> sasm res) list" where
  "rct_requiredUnpackFuncs =
     [rct_unpackTxType, rct_unpackPostStateOrStatus, rct_unpackCumulativeGasUsed, rct_unpackBloom,
      rct_unpackLogs, rct_unpackLogRootCID]"

definition DecodeReceipt :: "ext \<Rightarrow> receipt \<Rightarrow> tnode res" where
  "DecodeReceipt E receipt =
     andThen (beginStruct TyReceipt) (\<lambda>ma.
     andThen (wrapErr ''invalid DAG-ETH Receipt binary''
       (runAll (map (\<lambda>upFunc. upFunc E receipt) rct_requiredUnpackFuncs) ma)) sa_done)"

definition rct_DecodeBytes :: "ext \<Rightarrow> bytes \<Rightarrow> tnode res" where
  "rct_DecodeBytes E src = andThen (rctUnmarshalBinary E src) (DecodeReceipt E)"

definition rct_Decode :: "ext \<Rightarrow> reader \<Rightarrow> tnode res" where
  "rct_Decode E rd = andThen (readSrc rd) (rct_DecodeBytes E)"

section \<open>The node of a receipt\<close>

definition logRoot :: "ext \<Rightarrow> log list \<Rightarrow> bytes" where
  "logRoot E logs = (case processLogs E logs of Ok r \<Rightarrow> r | _ \<Rightarrow> [])"

definition statusEntries :: "receipt \<Rightarrow> (string \<times> tnode option) list" where
  "statusEntries r =
     (if r_PostState r \<noteq> [] then
        [(''PostState'', Some (TnBytes TyBytes (r_PostState r))), (''Status'', None)]
      else
        [(''Status'', Some (TnBytes TyUint (putUint64 (r_Status r)))), (''PostState'', None)])"

definition rctEntries :: "ext \<Rightarrow> receipt \<Rightarrow> (string \<times> tnode option) list list" where
  "rctEntries E r =
     [[(''TxType'', Some (TnBytes TyTxType [r_Type r]))],
      statusEntries r,
      [(''CumulativeGasUsed'', Some (TnBytes TyUint (putUint64 (r_CumulativeGasUsed r))))],
      [(''Bloom'', Some (TnBytes TyBloom (r_Bloom r)))],
      [(''Logs'', Some (TnList TyLogs (map logNode (r_Logs r))))],
      [(''LogRootCID'', Some (TnLink TyLink (linkOf E log_MultiCodecType (logRoot E (r_Logs r)))))]]"

lemma fields_Receipt: "fieldsOf TyReceipt = go_Receipt"
  by (simp add: fieldsOf.simps)

lemma fieldNames_Receipt [simp]:
  "fieldNames TyReceipt =
    [''TxType'', ''PostState'', ''Status'', ''CumulativeGasUsed'', ''Bloom'', ''Logs'', ''LogRootCID'']"
  by (simp add: fieldNames_def fields_Receipt go_defs go_field_defs)

definition rctNode :: "ext \<Rightarrow> receipt \<Rightarrow> tnode" where
  "rctNode E r = TnStruct TyReceipt
     (map (\<lambda>k. the (map_of (concat (rctEntries E r)) k)) (fieldNames TyReceipt))"

lemma fieldAt_Receipt:
  "fieldAt TyReceipt ''TxType'' = goField ''TxType'' TyTxType"
  "fieldAt TyReceipt ''PostState'' = goMaybe ''PostState'' TyBytes"
  "fieldAt TyReceipt ''Status'' = goMaybe ''Status'' TyUint"
  "fieldAt TyReceipt ''CumulativeGasUsed'' = goField ''CumulativeGasUsed'' TyUint"
  "fieldAt TyReceipt ''Bloom'' = goField ''Bloom'' TyBloom"
  "fieldAt TyReceipt ''Logs'' = goField ''Logs'' TyLogs"
  "fieldAt TyReceipt ''LogRootCID'' = goField ''LogRootCID'' TyLink"
  by (simp_all add: fieldAt_def fields_Receipt go_defs)

lemma nullableIn_Receipt [simp]: "nullableIn TyReceipt ''PostState''" "nullableIn TyReceipt ''Status''"
  by (simp_all add: nullableIn_def fields_Receipt go_defs go_field_defs)

lemma rct_assembleLog_node: "rct_assembleLog l TyLog nul = Ok (Some (logNode l))"
proof -
  let ?ma = "newStructAsm TyLog False"
  let ?fs = "[putVal ''Address'' (\<lambda>ty nul. assignBytes ty (l_Address l)),
    putVal ''Data'' (\<lambda>ty nul. assignBytes ty (l_Data l)),
    putVal ''Topics'' (\<lambda>ty nul. assembleBytesList ty (l_Topics l))]"
  let ?es = "[[(''Address'', Some (TnBytes TyAddress (l_Address l)))],
    [(''Data'', Some (TnBytes TyBytes (l_Data l)))],
    [(''Topics'', Some (TnList TyTopics (map (TnBytes TyHash) (l_Topics l))))]]"
  have "list_all2 (puts_as TyLog) ?fs ?es"
    by (auto simp: fieldAt_Log goField_def assembleBytesList_Ok [of TyTopics TyHash]
        intro!: puts_as_putVal)
  from runAll_puts [OF this, of ?ma]
  have "andThen (runAll ?fs ?ma) sa_done = andThen (sa_puts (concat ?es) ?ma) sa_done"
    by (simp only: newStructAsm_ty simp_thms)
  also have "\<dots> = Ok (logNode l)"
    by (subst sa_struct) (auto simp: logNode_def)
  finally have "andThen (andThen (runAll ?fs ?ma) sa_done) (\<lambda>t. Ok (Some t)) = Ok (Some (logNode l))"
    by (simp only: andThen.simps)
  then show ?thesis
    by (simp add: rct_assembleLog_def beginStruct_def putVal_def [abs_def] runAll_eta andThen_assoc)
qed

lemma rct_assembleLogs_node:
  "andThen (forEach (\<lambda>l la. la_val la (rct_assembleLog l)) ls (newListAsm TyLogs)) la_done
    = Ok (TnList TyLogs (map logNode ls))"
  by (intro la_list) (simp add: elemType_def rct_assembleLog_node)

lemma status_distinct [simp]: "ReceiptStatusSuccessful \<noteq> ReceiptStatusFailed"
  by (simp add: status_defs)

lemma putUint64_status:
  "putUint64 ReceiptStatusFailed = receiptStatusFailed"
  "putUint64 ReceiptStatusSuccessful = receiptStatusSuccessful"
  by (simp_all add: putUint64_def status_defs rct_status_defs)

lemma rct_unpackPostStateOrStatus_puts:
  assumes "r_PostState r = [] \<Longrightarrow> r_Status r \<in> {ReceiptStatusFailed, ReceiptStatusSuccessful}"
  shows "puts_as TyReceipt (rct_unpackPostStateOrStatus E r) (statusEntries r)"
proof -
  let ?null = "\<lambda>ty nul. assignNull ty nul"
  let ?ps = "[putVal ''PostState'' (\<lambda>ty nul. assignBytes ty (r_PostState r)), putVal ''Status'' ?null]"
  let ?st = "[putVal ''Status'' (\<lambda>ty nul. assignBytes ty (putUint64 (r_Status r))), putVal ''PostState'' ?null]"
  let ?fs = "if r_PostState r \<noteq> [] then ?ps else ?st"
  have "list_all2 (puts_as TyReceipt) ?fs (map (\<lambda>e. [e]) (statusEntries r))"
    by (auto simp: statusEntries_def fieldAt_Receipt goMaybe_def intro!: puts_as_putVal)
  note runAll_puts [OF this]
  moreover have "rct_unpackPostStateOrStatus E r ma = runAll ?fs ma" for ma
    using assms
    by (auto simp: rct_unpackPostStateOrStatus_def putVal_def [abs_def] runAll_eta andThen_assoc
        putUint64_status simp del: assignNull.simps)
  ultimately show ?thesis by (simp add: puts_as_def)
qed

lemma processLogs_ok:
  assumes "trie_laws E"
  shows "\<exists>h. processLogs E ls = Ok h \<and> length h = HashLength"
proof -
  have "is_ok (forEach (\<lambda>(idx, l) lt.
         andThen (rlpEncodeLog E l) (\<lambda>logRLP. localTrie_add E lt idx logRLP)) es lt)" for es lt
  proof (induction es arbitrary: lt)
    case (Cons e es)
    obtain b k t where "rlpEncodeLog E (snd e) = Ok b" "rlpEncodeUint E (fst e) = Ok k"
      "trieUpdate E (lt_trie lt) k b = Ok t"
      using assms unfolding trie_laws_def is_ok_iff by blast
    with Cons show ?case by (cases e) (simp add: localTrie_add_def)
  qed simp
  moreover obtain t where t: "trieNew E = Ok t" using assms by (auto simp: trie_laws_def is_ok_iff)
  ultimately obtain lt where "forEach (\<lambda>(idx, l) lt.
         andThen (rlpEncodeLog E l) (\<lambda>logRLP. localTrie_add E lt idx logRLP))
       (enumerate 0 ls) \<lparr>lt_trie = t\<rparr> = Ok lt"
    unfolding is_ok_iff by blast
  with t show ?thesis
    using assms by (simp add: processLogs_def newlocalTrie_def localTrie_rootHash_def trie_laws_def)
qed

lemma processLogs_logRoot:
  "trie_laws E \<Longrightarrow> processLogs E ls = Ok (logRoot E ls)" "trie_laws E \<Longrightarrow> length (logRoot E ls) = HashLength"
  using processLogs_ok [of E ls] by (auto simp: logRoot_def)

lemma rct_unpack_puts:
  assumes "cid_laws E" "trie_laws E" "rctCanon r"
  shows "list_all2 (puts_as TyReceipt) (map (\<lambda>f. f E r) rct_requiredUnpackFuncs) (rctEntries E r)"
proof -
  have "puts_as TyReceipt (rct_unpackPostStateOrStatus E r) (statusEntries r)"
    using assms(3) by (intro rct_unpackPostStateOrStatus_puts) (auto simp: rctCanon_def HashLength_def)
  then show ?thesis
    using assms rct_assembleLogs_node [of "r_Logs r"]
    unfolding rct_requiredUnpackFuncs_def rctEntries_def
    by (auto simp: fieldAt_Receipt goField_def beginList_def processLogs_logRoot log_MultiHashType_def
        intro!: puts_as_entry [OF _ _ rct_unpackTxType_def]
          puts_as_entry [OF _ _ rct_unpackCumulativeGasUsed_def] puts_as_entry [OF _ _ rct_unpackBloom_def]
          puts_as_entry [OF _ _ rct_unpackLogs_def] puts_as_link [OF rct_unpackLogRootCID_def])
qed

lemma DecodeReceipt_node:
  assumes "cid_laws E" "trie_laws E" "rctCanon r"
  shows "DecodeReceipt E r = Ok (rctNode E r)"
proof -
  have "andThen (sa_puts (concat (rctEntries E r)) (newStructAsm TyReceipt False)) sa_done =
      Ok (rctNode E r)"
    unfolding rctNode_def by (subst sa_struct) (auto simp: rctEntries_def statusEntries_def)
  then show ?thesis
    using runAll_puts [OF rct_unpack_puts [OF assms], of "newStructAsm TyReceipt False"]
    by (auto simp: DecodeReceipt_def beginStruct_def)
qed

section \<open>Packing the node of a receipt\<close>

lemma rct_packLog_node:
  assumes "conv_laws E" "logGood l"
  shows "rct_packLog E (NTyped (logNode l)) = Ok l"
proof -
  have "traverse (\<lambda>n. andThen (asBytes n) (\<lambda>b. Ok (bytesToHash E b)))
      (map (\<lambda>x. NTyped (TnBytes TyHash x)) (l_Topics l)) = Ok (l_Topics l)"
    using assms by (subst traverse_map, subst traverse_map_Ok [where g = id])
      (auto simp: logGood_def list_all_iff conv_lawsD)
  then show ?thesis
    using assms by (simp add: rct_packLog_def logNode_def logGood_def conv_lawsD comp_def)
qed

lemma rct_packLogs_node:
  assumes "conv_laws E" "list_all logGood ls"
  shows "traverse (rct_packLog E) (map (NTyped \<circ> logNode) ls) = Ok ls"
  using assms by (subst traverse_map, subst traverse_map_Ok [where g = id])
    (auto simp: list_all_iff rct_packLog_node)

lemmas rct_pack_defs = rct_requiredPackFuncs_def rct_packPostStateOrStatus_def
  rct_packCumulativeGasUsed_def rct_packBloom_def rct_packLogs_def

lemma packReceiptRLP_node:
  assumes "conv_laws E" "rctCanon r"
  shows "packReceiptRLP E d (NTyped (rctNode E r)) = Ok (r_Type r, rctRLPOf r)"
  using assms putUint64_status
  by (auto simp: packReceiptRLP_def GetTxType_def rct_pack_defs rctNode_def rctEntries_def
      statusEntries_def rctCanon_def rct_packLogs_node conv_lawsD rctRLPOf_def rctStatusEncoding_def
      rct_status_defs status_defs)

lemma EncodeReceipt_node:
  assumes "conv_laws E" "rctCanon r"
  shows "EncodeReceipt E newReceipt (NTyped (rctNode E r)) = Ok r"
  using assms(2)
  by (auto simp: EncodeReceipt_def packReceiptRLP_node [OF assms] rctCanon_def rctRLPOf_def Let_def
      rctStatusEncoding_def rct_status_defs status_defs length_defs newReceipt_def)

section \<open>The codec\<close>

text \<open>The receipt that the consensus fields stand for, and what \<open>AppendEncode\<close> does before and
  during RLP.\<close>

definition receiptOf :: "byte \<times> receiptRLP \<Rightarrow> receipt" where
  "receiptOf p =
     (let d = snd p; ps = rr_PostStateOrStatus d in
      \<lparr>r_Type = fst p, r_PostState = (if length ps = HashLength then ps else []),
       r_Status = (if ps = [1] then ReceiptStatusSuccessful else ReceiptStatusFailed),
       r_CumulativeGasUsed = rr_CumulativeGasUsed d, r_Bloom = rr_Bloom d, r_Logs = rr_Logs d\<rparr>)"

definition rctData :: "receipt \<Rightarrow> byte \<times> receiptRLP" where
  "rctData r = (r_Type r, rctRLPOf r)"

lemma receiptOf_rctData: "rctCanon r \<Longrightarrow> receiptOf (rctData r) = r"
  by (auto simp: rctCanon_def receiptOf_def rctData_def rctRLPOf_def rctStatusEncoding_def length_defs
      status_defs Let_def)

definition rctDataCanon :: "byte \<times> receiptRLP \<Rightarrow> bool" where
  "rctDataCanon p \<longleftrightarrow> rctCanon (receiptOf p) \<and> rctData (receiptOf p) = p"

lemma rctDataCanon_rctData: "rctCanon r \<Longrightarrow> rctDataCanon (rctData r)"
  by (simp add: rctDataCanon_def receiptOf_rctData)

definition rctEnc :: "ext \<Rightarrow> byte \<times> receiptRLP \<Rightarrow> bytes res" where
  "rctEnc E = (\<lambda>(txType, rct).
     if txType = LegacyTxType then
       wrapErr ''invalid DAG-ETH Receipt form'' (rlpEncodeReceiptRLP E rct)
     else if txType = AccessListTxType \<or> txType = DynamicFeeTxType then
       andThen (wrapErr ''invalid DAG-ETH Receipt form'' (rlpEncodeReceiptRLP E rct))
         (\<lambda>b. Ok (txType # b))
     else Fail (Err ''invalid DAG-ETH Receipt form (unrecognized TxType)''))"

definition rctDec :: "ext \<Rightarrow> bytes \<Rightarrow> (byte \<times> receiptRLP) res" where
  "rctDec E b = andThen (rctUnmarshalBinary E b) (\<lambda>r. Ok (rctData r))"

lemma rctEnc_rctData: "rctCanon r \<Longrightarrow> rctEnc E (rctData r) = Ok b \<longleftrightarrow> rctMarshal E r = Ok b"
  by (auto simp: rctCanon_def rctEnc_def rctData_def rctMarshal_def txtype_defs)

lemma rct_laws_rlp:
  assumes "rlp_laws rctCanon (rctMarshal E) (rctUnmarshalBinary E)"
  shows "rlp_laws rctDataCanon (rctEnc E) (rctDec E)"
  unfolding rlp_laws_def
proof (intro conjI allI impI)
  fix b p assume "rctDec E b = Ok p"
  then obtain r where r: "rctUnmarshalBinary E b = Ok r" "p = rctData r" by (auto simp: rctDec_def)
  with rlp_lawsD(1,2) [OF assms] show "rctDataCanon p" "rctEnc E p = Ok b"
    by (auto simp: rctDataCanon_rctData rctEnc_rctData)
next
  fix b p assume "rctDataCanon p" "rctEnc E p = Ok b"
  then have "rctCanon (receiptOf p)" "rctMarshal E (receiptOf p) = Ok b" "rctData (receiptOf p) = p"
    using rctEnc_rctData [of "receiptOf p" E b] by (auto simp: rctDataCanon_def)
  with rlp_lawsD(3) [OF assms] show "rctDec E b = Ok p" by (simp add: rctDec_def)
qed

definition rct_lawful :: "ext \<Rightarrow> bool" where
  "rct_lawful E \<longleftrightarrow> conv_laws E \<and> cid_laws E \<and> trie_laws E \<and>
     rlp_laws rctCanon (rctMarshal E) (rctUnmarshalBinary E)"

lemma tnType_rctNode [simp]: "tnType (rctNode E r) = TyReceipt"
  by (simp add: rctNode_def)

interpretation rct: struct_codec "rct_lawful E" rctDataCanon rctDataCanon
    "\<lambda>p. rctNode E (receiptOf p)" "\<lambda>p. DecodeReceipt E (receiptOf p)"
    "\<lambda>n. wrapErr ''unable to encode receiptRLP'' (packReceiptRLP E newReceiptRLP n)"
    "rctEnc E" "rctDec E" for E
proof (unfold_locales, goal_cases)
  case (2 p)
  then have "(r_Type (receiptOf p), rctRLPOf (receiptOf p)) = p"
    by (simp add: rctDataCanon_def rctData_def)
  with 2 show ?case by (auto simp: rct_lawful_def rctDataCanon_def packReceiptRLP_node)
qed (auto simp: rct_lawful_def rctDataCanon_def DecodeReceipt_node rct_laws_rlp)

lemma rct_Encode_buffer: "rct_Encode E n bytesBuffer = rct.encodes E n"
  unfolding rct_Encode_def rct_AppendEncode_def rct.encodes_def andThen_assoc
  by (rule andThen_cong)
    (auto simp: rctEnc_def bytesBuffer_def [abs_def] writeSlice_def andThen_assoc split: prod.split)

lemma rct_DecodeBytes_decodes:
  assumes "rct_lawful E"
  shows "rct_DecodeBytes E b = rct.decodes E b"
  unfolding rct_DecodeBytes_def rct.decodes_def rctDec_def andThen_assoc
  using assms rlp_lawsD(1) [of rctCanon "rctMarshal E" "rctUnmarshalBinary E" b]
  by (intro andThen_cong) (auto simp: rct_lawful_def receiptOf_rctData)

end
