(* ===== verification/Trie.thy ===== *)
theory Trie
  imports State_Account Tx Rct
begin

text \<open>
  The package \<open>trie\<close>: encoding and decoding of Merkle Patricia trie nodes, shared by the five trie
  codecs.  A node is a branch, an extension or a leaf; the values at leaves and branches are
  transactions, receipts, accounts, storage bytes or logs, told apart by the multicodec.
\<close>

section \<open>marshal.go: kinds\<close>

datatype NodeKind = UNKNOWN_NODE | BRANCH_NODE | EXTENSION_NODE | LEAF_NODE
datatype ValueKind =
  UNKNOWN_VALUE | TX_VALUE | RCT_VALUE | STATE_VALUE | STORAGE_VALUE | LOG_VALUE

fun NodeKind_String :: "NodeKind \<Rightarrow> string" where
  "NodeKind_String UNKNOWN_NODE = ''unknown''"
| "NodeKind_String BRANCH_NODE = ''TrieBranchNode''"
| "NodeKind_String EXTENSION_NODE = ''TrieExtensionNode''"
| "NodeKind_String LEAF_NODE = ''TrieLeafNode''"

fun ValueKind_String :: "ValueKind \<Rightarrow> string" where
  "ValueKind_String UNKNOWN_VALUE = ''unknown''"
| "ValueKind_String TX_VALUE = ''Transaction''"
| "ValueKind_String RCT_VALUE = ''Receipt''"
| "ValueKind_String STATE_VALUE = ''Account''"
| "ValueKind_String STORAGE_VALUE = ''Bytes''"
| "ValueKind_String LOG_VALUE = ''Log''"

text \<open>Trying keys in turn: the first lookup without an error wins.\<close>

fun firstKey :: "node \<Rightarrow> ('k \<times> string) list \<Rightarrow> string \<Rightarrow> (node \<times> 'k) res" where
  "firstKey n [] msg = Fail (Err msg)"
| "firstKey n ((k, s) # ks) msg =
     (case lookupByString n s of
        Ok m \<Rightarrow> Ok (m, k)
      | Fail _ \<Rightarrow> firstKey n ks msg
      | Panic p \<Rightarrow> Panic p)"

definition ValueAndKind :: "node \<Rightarrow> (node \<times> ValueKind) res" where
  "ValueAndKind node =
     firstKey node (map (\<lambda>k. (k, ValueKind_String k))
         [TX_VALUE, RCT_VALUE, STATE_VALUE, STORAGE_VALUE, LOG_VALUE])
       ''eth trie value IPLD node is missing the expected keyed Union keys''"

definition NodeAndKind :: "node \<Rightarrow> (node \<times> NodeKind) res" where
  "NodeAndKind node =
     firstKey node (map (\<lambda>k. (k, NodeKind_String k)) [LEAF_NODE, BRANCH_NODE, EXTENSION_NODE])
       ''eth trie node IPLD node is missing the expected keyed Union keys''"

section \<open>marshal.go: packing\<close>

definition packValue :: "ext \<Rightarrow> node \<Rightarrow> bytes res" where
  "packValue E node =
     andThen (lookupByString node ''Value'') (\<lambda>valUnionNode.
     if isNull valUnionNode then Ok []
     else
       andThen (ValueAndKind valUnionNode) (\<lambda>(valNode, valKind).
       case valKind of
         TX_VALUE \<Rightarrow> tx_Encode E valNode bytesBuffer
       | RCT_VALUE \<Rightarrow> rct_Encode E valNode bytesBuffer
       | STATE_VALUE \<Rightarrow> account_Encode E valNode bytesBuffer
       | STORAGE_VALUE \<Rightarrow> asBytes valNode
       | LOG_VALUE \<Rightarrow> log_Encode E valNode bytesBuffer
       | UNKNOWN_VALUE \<Rightarrow> Fail (Err ''eth trie value of unexpected kind'')))"

definition packLeafNode :: "ext \<Rightarrow> node \<Rightarrow> rlpItem list res" where
  "packLeafNode E node =
     andThen (bytesField node ''PartialPath'') (\<lambda>pp.
     andThen (HexToCompact pp) (\<lambda>compact.
     andThen (packValue E node) (\<lambda>valueBytes.
     Ok [RBytes compact, RBytes valueBytes])))"

definition packExtensionNode :: "ext \<Rightarrow> node \<Rightarrow> rlpItem list res" where
  "packExtensionNode E node =
     andThen (bytesField node ''PartialPath'') (\<lambda>pp.
     andThen (HexToCompact pp) (\<lambda>compact.
     andThen (linkField E node ''Child'' ''extension node child link needs to be a CID''
       ''unable to decode Child multihash'') (\<lambda>digest.
     Ok [RBytes compact, RBytes digest])))"

text \<open>\<open>fmt.Sprintf("Child%s", strings.ToUpper(strconv.FormatInt(int64(i), 16)))\<close>.\<close>

definition childKey :: "nat \<Rightarrow> string" where
  "childKey i = ''Child'' @ [''0123456789ABCDEF'' ! i]"

definition packChild :: "ext \<Rightarrow> node \<Rightarrow> nat \<Rightarrow> rlpItem res" where
  "packChild E node i =
     andThen (lookupByString node (childKey i)) (\<lambda>childNode.
     if isNull childNode then Ok (RBytes [])
     else
       (case lookupByString childNode ''Link'' of
          Ok childLinkNode \<Rightarrow>
            andThen (linkDigest E ''branch node child link needs to be a CID''
              ''unable to decode Child multihash'' childLinkNode) (\<lambda>digest. Ok (RBytes digest))
        | Panic m \<Rightarrow> Panic m
        | Fail _ \<Rightarrow>
            (case lookupByString childNode ''TrieNode'' of
               Ok childTrieNodeNode \<Rightarrow>
                 andThen (replErr (Err ''only leaf nodes can be less than 32 bytes and stored direclty in a parent node'')
                   (lookupByString childTrieNodeNode (NodeKind_String LEAF_NODE))) (\<lambda>childLeafNode.
                 andThen (packLeafNode E childLeafNode) (\<lambda>childLeafNodeFields.
                 Ok (RList childLeafNodeFields)))
             | Panic m \<Rightarrow> Panic m
             | Fail e \<Rightarrow> Fail (ErrWrap ''branch node child needs to be of kind bytes, link, or null'' e))))"

definition packBranchNode :: "ext \<Rightarrow> node \<Rightarrow> rlpItem list res" where
  "packBranchNode E node =
     andThen (traverse (packChild E node) [0..<16]) (\<lambda>children.
     andThen (packValue E node) (\<lambda>valueBytes.
     Ok (children @ [RBytes valueBytes])))"

definition trie_AppendEncode :: "ext \<Rightarrow> bytes \<Rightarrow> node \<Rightarrow> bytes res" where
  "trie_AppendEncode E enc inNode =
     andThen (wrapTyped TyTrieNode inNode) (\<lambda>n.
     andThen (NodeAndKind n) (\<lambda>(node, kind).
     andThen
       (case kind of
          BRANCH_NODE \<Rightarrow> packBranchNode E node
        | EXTENSION_NODE \<Rightarrow> packExtensionNode E node
        | LEAF_NODE \<Rightarrow> packLeafNode E node
        | UNKNOWN_NODE \<Rightarrow> Fail (Err ''IPLD node is missing the expected Union keys'')) (\<lambda>nodeFields.
     andThen (wrapErr ''invalid DAG-ETH TrieNode form'' (rlpEncodeFields E nodeFields)) (\<lambda>b.
     Ok (writeSlice enc b)))))"

definition trie_Encode :: "ext \<Rightarrow> node \<Rightarrow> 'w writer \<Rightarrow> 'w res" where
  "trie_Encode E node w = andThen (trie_AppendEncode E [] node) (\<lambda>enc. w enc)"

section \<open>unmarshal.go\<close>

definition logTrieMulticodec :: u64 where "logTrieMulticodec = 0x99"

text \<open>Indexing a slice, and the value of a finished child assembler.\<close>

definition idx :: "'a list \<Rightarrow> nat \<Rightarrow> 'a res" where
  "idx xs i = (if i < length xs then Ok (xs ! i) else Panic ''index out of range'')"

definition finished :: "tnode res \<Rightarrow> tnode option res" where
  "finished r = andThen r (\<lambda>t. Ok (Some t))"

definition decodeTwoMemberNode :: "rlpItem list \<Rightarrow> (NodeKind \<times> rlpItem list) res" where
  "decodeTwoMemberNode items =
     andThen (idx items 0) (\<lambda>i0.
     case i0 of
       RList _ \<Rightarrow> Panic ''interface conversion''
     | RBytes first \<Rightarrow>
         andThen (idx items 1) (\<lambda>i1.
         let decodedNode = [RBytes (CompactToHex first), i1] in
         andThen (idx first 0) (\<lambda>b.
         if b div 16 = 0 \<or> b div 16 = 1 then Ok (EXTENSION_NODE, decodedNode)
         else if b div 16 = 2 \<or> b div 16 = 3 then Ok (LEAF_NODE, decodedNode)
         else Fail (Err ''unknown hex prefix''))))"

definition unpackValue :: "ext \<Rightarrow> u64 \<Rightarrow> bytes \<Rightarrow> uasm \<Rightarrow> uasm res" where
  "unpackValue E codec val ma =
     (if codec = EthTxTrie then
        andThen (ua_key ma (ValueKind_String TX_VALUE))
          (\<lambda>ma. ua_val ma (\<lambda>ty nul. finished (tx_DecodeBytes E val)))
      else if codec = EthTxReceiptTrie then
        andThen (ua_key ma (ValueKind_String RCT_VALUE))
          (\<lambda>ma. ua_val ma (\<lambda>ty nul. finished (rct_DecodeBytes E val)))
      else if codec = EthStateTrie then
        andThen (ua_key ma (ValueKind_String STATE_VALUE))
          (\<lambda>ma. ua_val ma (\<lambda>ty nul. finished (account_DecodeBytes E val)))
      else if codec = EthStorageTrie then
        andThen (ua_key ma (ValueKind_String STORAGE_VALUE))
          (\<lambda>ma. ua_val ma (\<lambda>ty nul. assignBytes ty val))
      else if codec = logTrieMulticodec then
        andThen (ua_key ma (ValueKind_String LOG_VALUE))
          (\<lambda>ma. ua_val ma (\<lambda>ty nul. finished (log_DecodeBytes E val)))
      else Fail (Err ''unsupported multicodec type for eth TrieNode unmarshaller''))"

text \<open>\<open>BeginMap\<close> on the assembler of the value union, \<open>unpackValue\<close>, \<open>Finish\<close>.\<close>

definition assembleValueUnion :: "ext \<Rightarrow> u64 \<Rightarrow> bytes \<Rightarrow> tyname \<Rightarrow> bool \<Rightarrow> tnode option res" where
  "assembleValueUnion E codec val ty nul =
     andThen (beginUnion ty) (\<lambda>valUnionNodeMA.
     finished (andThen (unpackValue E codec val valUnionNodeMA) ua_done))"

definition unpackLeafNode :: "ext \<Rightarrow> u64 \<Rightarrow> rlpItem list \<Rightarrow> sasm \<Rightarrow> sasm res" where
  "unpackLeafNode E codec nodeFields ma =
     andThen (idx nodeFields 0) (\<lambda>f0.
     case f0 of
       RList _ \<Rightarrow> Fail (Err ''leaf node requires partial path byte slice'')
     | RBytes partialPath \<Rightarrow>
         andThen (idx nodeFields 1) (\<lambda>f1.
         case f1 of
           RList _ \<Rightarrow> Fail (Err ''leaf node requires value byte slice'')
         | RBytes valBytes \<Rightarrow>
             andThen (ma_key ma ''PartialPath'') (\<lambda>ma.
             andThen (ma_val ma (\<lambda>ty nul. assignBytes ty partialPath)) (\<lambda>ma.
             andThen (ma_key ma ''Value'') (\<lambda>ma.
             ma_val ma (assembleValueUnion E codec valBytes))))))"

definition unpackExtensionNode :: "ext \<Rightarrow> u64 \<Rightarrow> rlpItem list \<Rightarrow> sasm \<Rightarrow> sasm res" where
  "unpackExtensionNode E codec nodeFields ma =
     andThen (idx nodeFields 0) (\<lambda>f0.
     case f0 of
       RList _ \<Rightarrow> Fail (Err ''extension node requires partial path byte slice'')
     | RBytes partialPath \<Rightarrow>
         andThen (ma_key ma ''PartialPath'') (\<lambda>ma.
         andThen (ma_val ma (\<lambda>ty nul. assignBytes ty partialPath)) (\<lambda>ma.
         andThen (ma_key ma ''Child'') (\<lambda>ma.
         andThen (idx nodeFields 1) (\<lambda>f1.
         case f1 of
           RList _ \<Rightarrow> Fail (Err ''unable to assert second member of extension node to type `[]byte`'')
         | RBytes childLink \<Rightarrow>
             andThen (Keccak256ToCid E codec childLink) (\<lambda>childCID.
             ma_val ma (\<lambda>ty nul. assignLink ty (CidLink childCID))))))))"

text \<open>A leaf struct assembled below a union, as \<open>BeginMap(2)\<close>, \<open>unpackLeafNode\<close>, \<open>Finish\<close>; and the
  other two kinds.\<close>

definition assembleStruct :: "(sasm \<Rightarrow> sasm res) \<Rightarrow> tyname \<Rightarrow> bool \<Rightarrow> tnode option res" where
  "assembleStruct f ty nul = andThen (beginStruct ty) (\<lambda>ma. finished (andThen (f ma) sa_done))"

definition assembleUnion ::
    "string \<Rightarrow> (tyname \<Rightarrow> bool \<Rightarrow> tnode option res) \<Rightarrow> tyname \<Rightarrow> tnode res" where
  "assembleUnion k x ty =
     andThen (beginUnion ty) (\<lambda>ma.
     andThen (andThen (ua_key ma k) (\<lambda>ma. ua_val ma x)) ua_done)"

definition embeddedLeaf :: "ext \<Rightarrow> u64 \<Rightarrow> rlpItem list \<Rightarrow> tnode res" where
  "embeddedLeaf E codec childLeaf =
     (if length childLeaf \<noteq> 2 then Fail (Err ''unexpected number of entries for leaf node'')
      else
        andThen (decodeTwoMemberNode childLeaf) (\<lambda>(nodeKind, decodedChildLeaf).
        if nodeKind \<noteq> LEAF_NODE then
          Fail (Err ''child node included directly in branch must be a leaf'')
        else
          assembleUnion ''TrieNode'' (\<lambda>ty nul.
            finished (assembleUnion (NodeKind_String LEAF_NODE)
              (assembleStruct (unpackLeafNode E codec decodedChildLeaf)) ty)) TyChild))"

definition unpackChild :: "ext \<Rightarrow> u64 \<Rightarrow> rlpItem list \<Rightarrow> nat \<Rightarrow> sasm \<Rightarrow> sasm res" where
  "unpackChild E codec nodeFields i ma =
     andThen (ma_key ma (childKey i)) (\<lambda>ma.
     andThen (idx nodeFields i) (\<lambda>item.
     case item of
       RBytes childLink \<Rightarrow>
         (if length childLink = 0 then ma_val ma (\<lambda>ty nul. assignNull ty nul)
          else if length childLink = 32 then
            andThen (Keccak256ToCid E codec childLink) (\<lambda>childCID.
            andThen (assembleUnion ''Link'' (\<lambda>ty nul. assignLink ty (CidLink childCID)) TyChild) (\<lambda>child.
            ma_val ma (\<lambda>ty nul. assignNode ty nul (nul \<and> ptrMaybe ty) (NTyped child))))
          else Fail (Err ''branch node child of unexpected length''))
     | RList childLeaf \<Rightarrow>
         andThen (embeddedLeaf E codec childLeaf) (\<lambda>child.
         ma_val ma (\<lambda>ty nul. assignNode ty nul (nul \<and> ptrMaybe ty) (NTyped child)))))"

definition unpackBranchNode :: "ext \<Rightarrow> u64 \<Rightarrow> rlpItem list \<Rightarrow> sasm \<Rightarrow> sasm res" where
  "unpackBranchNode E codec nodeFields ma =
     andThen (forEach (unpackChild E codec nodeFields) [0..<16] ma) (\<lambda>ma.
     andThen (ma_key ma ''Value'') (\<lambda>ma.
     andThen (idx nodeFields 16) (\<lambda>f16.
     case f16 of
       RList _ \<Rightarrow> Fail (Err ''branch node 17th member should be a byte array (val)'')
     | RBytes valBytes \<Rightarrow>
         if length valBytes = 0 then ma_val ma (\<lambda>ty nul. assignNull ty nul)
         else ma_val ma (assembleValueUnion E codec valBytes))))"

text \<open>The part of \<open>DecodeTrieNodeBytes\<close> after RLP, and the whole.\<close>

definition unpackTrieNode :: "ext \<Rightarrow> u64 \<Rightarrow> rlpItem list \<Rightarrow> tnode res" where
  "unpackTrieNode E codec nodeFields =
     andThen (beginUnion TyTrieNode) (\<lambda>ma.
     andThen
       (if length nodeFields = 2 then
          andThen (decodeTwoMemberNode nodeFields) (\<lambda>(nodeKind, decoded).
          case nodeKind of
            EXTENSION_NODE \<Rightarrow>
              andThen (ua_key ma (NodeKind_String EXTENSION_NODE))
                (\<lambda>ma. ua_val ma (assembleStruct (unpackExtensionNode E codec decoded)))
          | LEAF_NODE \<Rightarrow>
              andThen (ua_key ma (NodeKind_String LEAF_NODE))
                (\<lambda>ma. ua_val ma (assembleStruct (unpackLeafNode E codec decoded)))
          | _ \<Rightarrow> Fail (Err ''unrecognized trie node type''))
        else if length nodeFields = 17 then
          andThen (ua_key ma (NodeKind_String BRANCH_NODE))
            (\<lambda>ma. ua_val ma (assembleStruct (unpackBranchNode E codec nodeFields)))
        else Ok ma) ua_done)"

definition DecodeTrieNodeBytes :: "ext \<Rightarrow> u64 \<Rightarrow> bytes \<Rightarrow> tnode res" where
  "DecodeTrieNodeBytes E codec src = andThen (rlpDecodeFields E src) (unpackTrieNode E codec)"

definition DecodeTrieNode :: "ext \<Rightarrow> u64 \<Rightarrow> reader \<Rightarrow> tnode res" where
  "DecodeTrieNode E codec rd = andThen (readSrc rd) (DecodeTrieNodeBytes E codec)"

end
