(* ===== verification/Trie_Laws.thy ===== *)
theory Trie_Laws
  imports Trie
begin

text \<open>
  Correctness of the trie codec.  The values stored in trie nodes satisfy the \<open>dag_codec\<close> contract
  for each of the five trie multicodecs, by the contracts of the four struct codecs; leaves,
  extensions and branches built on such values then make the trie codec a \<open>struct_codec\<close>.
\<close>

section \<open>Values\<close>

text \<open>The kind of value that a multicodec announces, its tag in the union, and its codec.\<close>

definition codecValue :: "u64 \<Rightarrow> ValueKind" where
  "codecValue c =
     (if c = EthTxTrie then TX_VALUE else if c = EthTxReceiptTrie then RCT_VALUE
      else if c = EthStateTrie then STATE_VALUE else if c = EthStorageTrie then STORAGE_VALUE
      else if c = logTrieMulticodec then LOG_VALUE else UNKNOWN_VALUE)"

fun memberTag :: "ValueKind \<Rightarrow> nat" where
  "memberTag TX_VALUE = 1"
| "memberTag RCT_VALUE = 2"
| "memberTag STATE_VALUE = 3"
| "memberTag STORAGE_VALUE = 4"
| "memberTag LOG_VALUE = 5"
| "memberTag UNKNOWN_VALUE = 0"

fun memberDecode :: "ext \<Rightarrow> ValueKind \<Rightarrow> bytes \<Rightarrow> tnode res" where
  "memberDecode E TX_VALUE b = tx_DecodeBytes E b"
| "memberDecode E RCT_VALUE b = rct_DecodeBytes E b"
| "memberDecode E STATE_VALUE b = account_DecodeBytes E b"
| "memberDecode E STORAGE_VALUE b = Ok (TnBytes TyBytes b)"
| "memberDecode E LOG_VALUE b = log_DecodeBytes E b"
| "memberDecode E UNKNOWN_VALUE b = Fail (Err ''unsupported multicodec type for eth TrieNode unmarshaller'')"

fun memberEncode :: "ext \<Rightarrow> ValueKind \<Rightarrow> node \<Rightarrow> bytes res" where
  "memberEncode E TX_VALUE n = tx_Encode E n bytesBuffer"
| "memberEncode E RCT_VALUE n = rct_Encode E n bytesBuffer"
| "memberEncode E STATE_VALUE n = account_Encode E n bytesBuffer"
| "memberEncode E STORAGE_VALUE n = asBytes n"
| "memberEncode E LOG_VALUE n = log_Encode E n bytesBuffer"
| "memberEncode E UNKNOWN_VALUE n = Fail (Err ''eth trie value of unexpected kind'')"

fun memberWf :: "ext \<Rightarrow> ValueKind \<Rightarrow> tnode \<Rightarrow> bool" where
  "memberWf E TX_VALUE t = tx.canonical E t"
| "memberWf E RCT_VALUE t = rct.canonical E t"
| "memberWf E STATE_VALUE t = account.canonical E t"
| "memberWf E STORAGE_VALUE t = (\<exists>b. t = TnBytes TyBytes b)"
| "memberWf E LOG_VALUE t = log.canonical t"
| "memberWf E UNKNOWN_VALUE t = False"

definition memberSupported :: "ext \<Rightarrow> ValueKind \<Rightarrow> bytes \<Rightarrow> bool" where
  "memberSupported E k b \<longleftrightarrow> k = STATE_VALUE \<longrightarrow> account.carried E b"

definition trie_lawful :: "ext \<Rightarrow> bool" where
  "trie_lawful E \<longleftrightarrow> tx_lawful E \<and> rct_lawful E \<and> account_lawful E \<and> log_lawful E \<and>
     rlp_laws (\<lambda>_. True) (rlpEncodeFields E) (rlpDecodeFields E)"

lemma trie_lawfulD:
  assumes "trie_lawful E"
  shows "tx_lawful E" "rct_lawful E" "account_lawful E" "log_lawful E" "tx_laws E" "cid_laws E"
    "rlp_laws (\<lambda>_. True) (rlpEncodeFields E) (rlpDecodeFields E)"
  using assms by (auto simp: trie_lawful_def tx_lawful_def account_lawful_def)

lemma carried_canon:
  "tx_lawful E \<Longrightarrow> tx.carried E b" "rct_lawful E \<Longrightarrow> rct.carried E b" "log_lawful E \<Longrightarrow> log.carried E b"
  using rlp_lawsD(1) [OF tx.rlp] rlp_lawsD(1) [OF rct.rlp] rlp_lawsD(1) [OF log.rlp]
  unfolding tx.carried_def rct.carried_def log.carried_def by blast+

lemmas buffer_simps = tx_Encode_buffer rct_Encode_buffer account_Encode_buffer log_Encode_buffer
  tx_DecodeBytes_decodes rct_DecodeBytes_decodes account_DecodeBytes_decodes log_DecodeBytes_decodes

interpretation member: dag_codec "trie_lawful E" "memberSupported E k" "memberWf E k" "memberEncode E k"
    "memberDecode E k" for E k
proof (unfold_locales, goal_cases)
  case (1 b t)
  then show ?case
    using tx.decode_wf [of E b t] rct.decode_wf [of E b t] account.decode_wf [of E b t]
      log.decode_wf [of E b t]
    by (cases k) (auto simp: trie_lawfulD buffer_simps carried_canon memberSupported_def)
next
  case (2 b t)
  then show ?case
    using tx.encode_decoded [of E b t] rct.encode_decoded [of E b t] account.encode_decoded [of E b t]
      log.encode_decoded [of E b t]
    by (cases k) (auto simp: trie_lawfulD buffer_simps carried_canon memberSupported_def)
next
  case (3 t b)
  then show ?case
    using tx.decode_encoded [of E t b] rct.decode_encoded [of E t b] account.decode_encoded [of E t b]
      log.decode_encoded [of E t b]
    by (cases k) (auto simp: trie_lawfulD buffer_simps)
next
  case (4 t b)
  then show ?case
    using account.encoded_supported [of E t b]
    by (cases k) (auto simp: trie_lawfulD buffer_simps memberSupported_def)
qed

section \<open>The value union\<close>

definition decodeValue :: "ext \<Rightarrow> u64 \<Rightarrow> bytes \<Rightarrow> tnode res" where
  "decodeValue E c v = andThen (beginUnion TyValue) (\<lambda>ua. andThen (unpackValue E c v ua) ua_done)"

definition packUnion :: "ext \<Rightarrow> node \<Rightarrow> bytes res" where
  "packUnion E n = andThen (ValueAndKind n) (\<lambda>(valNode, valKind). memberEncode E valKind valNode)"

lemma members_Value: "membersOf TyValue = go_Value"
  by (simp add: membersOf.simps)

lemma memberNames_Value [simp]:
  "memberNames TyValue = [''Transaction'', ''Receipt'', ''Account'', ''Bytes'', ''Log'']"
  by (simp add: memberNames_def members_Value go_defs)

lemma union_finished:
  assumes "idxOf (memberNames ty) k = Some i"
  shows "andThen (andThen (ua_key (newUnionAsm ty False) k) (\<lambda>ua. ua_val ua (\<lambda>ty nul. finished r))) ua_done
    = andThen r (\<lambda>t. Ok (TnUnion ty (Suc i) t))"
  using assms idxOf_member [OF assms] by (cases r)
    (simp_all add: finished_def newUnionAsm_def ua_key_eq ua_ready_def ua_val_defs ua_done_def ua_finish_def)

lemma union_bytes:
  assumes "idxOf (memberNames ty) k = Some i" "typeDecl (snd (membersOf ty ! i)) = DBytes"
  shows "andThen (andThen (ua_key (newUnionAsm ty False) k) (\<lambda>ua. ua_val ua (\<lambda>ty nul. assignBytes ty b))) ua_done
    = Ok (TnUnion ty (Suc i) (TnBytes (snd (membersOf ty ! i)) b))"
  using assms by (subst ua_member) auto

lemma decodeValue_member:
  "decodeValue E c v =
     andThen (memberDecode E (codecValue c) v) (\<lambda>t. Ok (TnUnion TyValue (memberTag (codecValue c)) t))"
  by (simp add: decodeValue_def beginUnion_def unpackValue_def codecValue_def union_finished
      union_bytes members_Value go_defs eval_nat_numeral)

lemma packUnion_member:
  "k \<noteq> UNKNOWN_VALUE \<Longrightarrow> packUnion E (NTyped (TnUnion TyValue (memberTag k) t)) = memberEncode E k (NTyped t)"
  by (cases k) (simp_all add: packUnion_def ValueAndKind_def)

lemma packValue_union:
  "packValue E n = andThen (lookupByString n ''Value'') (\<lambda>v. if isNull v then Ok [] else packUnion E v)"
  unfolding packValue_def packUnion_def
  by (intro andThen_cong refl if_cong) (auto split: ValueKind.split)

definition valueWf :: "ext \<Rightarrow> u64 \<Rightarrow> tnode \<Rightarrow> bool" where
  "valueWf E c t \<longleftrightarrow> (\<exists>x. t = TnUnion TyValue (memberTag (codecValue c)) x \<and> memberWf E (codecValue c) x)"

definition valueSupported :: "ext \<Rightarrow> u64 \<Rightarrow> bytes \<Rightarrow> bool" where
  "valueSupported E c b = memberSupported E (codecValue c) b"

lemma memberDecode_known: "memberDecode E k v = Ok t \<Longrightarrow> k \<noteq> UNKNOWN_VALUE"
  by auto

lemma memberWf_known: "memberWf E k t \<Longrightarrow> k \<noteq> UNKNOWN_VALUE"
  by auto

interpretation val: dag_codec "trie_lawful E" "valueSupported E c" "valueWf E c" "packUnion E"
    "decodeValue E c" for E c
proof (unfold_locales, goal_cases)
  case (1 b t)
  then show ?case
    using member.decode_wf by (auto simp: decodeValue_member valueWf_def valueSupported_def)
next
  case (2 b t)
  then show ?case
    using member.encode_decoded
    by (auto simp: decodeValue_member packUnion_member memberDecode_known valueSupported_def)
next
  case (3 t b)
  then show ?case
    using member.decode_encoded
    by (auto simp: decodeValue_member packUnion_member memberWf_known valueWf_def)
next
  case (4 t b)
  then show ?case
    using member.encoded_supported
    by (auto simp: packUnion_member memberWf_known valueWf_def valueSupported_def)
qed

section \<open>Leaves and extensions\<close>

definition leafStruct :: "bytes \<Rightarrow> tnode \<Rightarrow> tnode" where
  "leafStruct p v = TnStruct TyTrieLeafNode [Some (TnBytes TyBytes p), Some v]"

definition extStruct :: "bytes \<Rightarrow> link \<Rightarrow> tnode" where
  "extStruct p l = TnStruct TyTrieExtensionNode [Some (TnBytes TyBytes p), Some (TnLink TyLink l)]"

lemma fields_TwoMember:
  "fieldsOf TyTrieLeafNode = go_TrieLeafNode" "fieldsOf TyTrieExtensionNode = go_TrieExtensionNode"
  by (simp_all add: fieldsOf.simps)

lemma fieldNames_TwoMember [simp]:
  "fieldNames TyTrieLeafNode = [''PartialPath'', ''Value'']"
  "fieldNames TyTrieExtensionNode = [''PartialPath'', ''Child'']"
  by (simp_all add: fieldNames_def fields_TwoMember go_defs go_field_defs)

lemma fieldAt_TwoMember:
  "fieldAt TyTrieLeafNode ''PartialPath'' = goField ''PartialPath'' TyBytes"
  "fieldAt TyTrieLeafNode ''Value'' = goField ''Value'' TyValue"
  "fieldAt TyTrieExtensionNode ''PartialPath'' = goField ''PartialPath'' TyBytes"
  "fieldAt TyTrieExtensionNode ''Child'' = goField ''Child'' TyLink"
  by (simp_all add: fieldAt_def fields_TwoMember go_defs)

lemma assembleValueUnion_decodeValue:
  "assembleValueUnion E c v TyValue nul = finished (decodeValue E c v)"
  by (simp add: assembleValueUnion_def decodeValue_def beginUnion_def)

lemma finished_Ok [simp]: "finished (Ok t) = Ok (Some t)"
  by (simp add: finished_def)

lemma assembleStruct_Ok:
  "typeDecl ty = DStruct fs \<Longrightarrow> andThen (f (newStructAsm ty False)) sa_done = Ok t \<Longrightarrow>
   assembleStruct f ty nul = Ok (Some t)"
  by (simp only: assembleStruct_def beginStruct_def tydecl.case andThen.simps finished_Ok)

lemma unpackLeafNode_struct:
  assumes "decodeValue E c v = Ok t"
  shows "assembleStruct (unpackLeafNode E c [RBytes p, RBytes v]) TyTrieLeafNode nul
    = Ok (Some (leafStruct p t))"
proof -
  let ?fs = "[putVal ''PartialPath'' (\<lambda>ty nul. assignBytes ty p),
    putVal ''Value'' (assembleValueUnion E c v)]"
  let ?es = "[[(''PartialPath'', Some (TnBytes TyBytes p))], [(''Value'', Some t)]]"
  have "list_all2 (puts_as TyTrieLeafNode) ?fs ?es"
    using assms by (auto simp: fieldAt_TwoMember goField_def assembleValueUnion_decodeValue
        intro!: puts_as_putVal)
  from struct_in_order [OF this]
  have "andThen (runAll ?fs (newStructAsm TyTrieLeafNode False)) sa_done = Ok (leafStruct p t)"
    by (simp add: leafStruct_def)
  moreover have unpack: "unpackLeafNode E c [RBytes p, RBytes v] = runAll ?fs"
    by (simp add: fun_eq_iff unpackLeafNode_def idx_def putVal_def [abs_def] runAll_eta andThen_assoc)
  ultimately show ?thesis
    unfolding unpack by (intro assembleStruct_Ok [where fs = go_TrieLeafNode]) simp_all
qed

lemma unpackExtensionNode_struct:
  assumes "cid_laws E" "length l < maxDigest"
  shows "assembleStruct (unpackExtensionNode E c [RBytes p, RBytes l]) TyTrieExtensionNode nul
    = Ok (Some (extStruct p (linkOf E c l)))"
proof -
  have cid: "Keccak256ToCid E c l = Ok (newCidV1 E c (mhOf E l))"
    using assms by (simp add: Keccak256ToCid_def)
  let ?fs = "[putVal ''PartialPath'' (\<lambda>ty nul. assignBytes ty p),
    putVal ''Child'' (\<lambda>ty nul. assignLink ty (linkOf E c l))]"
  let ?es = "[[(''PartialPath'', Some (TnBytes TyBytes p))], [(''Child'', Some (TnLink TyLink (linkOf E c l)))]]"
  have "list_all2 (puts_as TyTrieExtensionNode) ?fs ?es"
    by (auto simp: fieldAt_TwoMember goField_def intro!: puts_as_putVal)
  from struct_in_order [OF this]
  have "andThen (runAll ?fs (newStructAsm TyTrieExtensionNode False)) sa_done = Ok (extStruct p (linkOf E c l))"
    by (simp add: extStruct_def)
  moreover have unpack: "unpackExtensionNode E c [RBytes p, RBytes l] = runAll ?fs"
    by (simp add: fun_eq_iff unpackExtensionNode_def idx_def putVal_def [abs_def] runAll_eta andThen_assoc
        cid linkOf_def)
  ultimately show ?thesis
    unfolding unpack by (intro assembleStruct_Ok [where fs = go_TrieExtensionNode]) simp_all
qed

lemma packLeafNode_struct:
  assumes "hexToCompact p = Ok c" "packUnion E (NTyped t) = Ok v"
  shows "packLeafNode E (NTyped (leafStruct p t)) = Ok [RBytes c, RBytes v]"
  using assms
  by (simp add: packLeafNode_def leafStruct_def bytesField_def HexToCompact_def packValue_union)

lemma packExtensionNode_struct:
  assumes "cid_laws E" "length l < maxDigest" "hexToCompact p = Ok c"
  shows "packExtensionNode E (NTyped (extStruct p (linkOf E cd l))) = Ok [RBytes c, RBytes l]"
  using assms
  by (simp add: packExtensionNode_def extStruct_def bytesField_def linkField_def HexToCompact_def)

text \<open>\<open>decodeTwoMemberNode\<close> tells leaves from extensions by the flag nibble.\<close>

lemma decodeTwoMemberNode_valid:
  assumes "validCompact p"
  shows "decodeTwoMemberNode [RBytes p, it] =
    Ok (if hd p div 16 < 2 then EXTENSION_NODE else LEAF_NODE, [RBytes (compactToHex p), it])"
proof -
  obtain f cs where p: "p = f # cs" "f div 16 < 4" using assms by (cases p) (auto simp: validCompact_def)
  then show ?thesis
    using byte_less_4 [of "f div 16"]
    by (auto simp: decodeTwoMemberNode_def idx_def CompactToHex_def Let_def)
qed

section \<open>Branches\<close>

text \<open>What a member of a branch block may be: empty, a hash, or a leaf stored in place.\<close>

definition valueGood :: "ext \<Rightarrow> u64 \<Rightarrow> bytes \<Rightarrow> bool" where
  "valueGood E c v \<longleftrightarrow> is_ok (decodeValue E c v) \<and> valueSupported E c v"

definition leafPath :: "bytes \<Rightarrow> bool" where
  "leafPath p \<longleftrightarrow> validCompact p \<and> \<not> hd p div 16 < 2"

fun childGood :: "ext \<Rightarrow> u64 \<Rightarrow> rlpItem \<Rightarrow> bool" where
  "childGood E c (RBytes l) \<longleftrightarrow> length l = 0 \<or> length l = 32"
| "childGood E c (RList [RBytes p, RBytes v]) \<longleftrightarrow> leafPath p \<and> valueGood E c v"
| "childGood E c (RList _) \<longleftrightarrow> False"

definition valueNode :: "ext \<Rightarrow> u64 \<Rightarrow> bytes \<Rightarrow> tnode" where
  "valueNode E c v = (case decodeValue E c v of Ok t \<Rightarrow> t | _ \<Rightarrow> TnBytes TyBytes v)"

fun childNodeOf :: "ext \<Rightarrow> u64 \<Rightarrow> rlpItem \<Rightarrow> tnode option" where
  "childNodeOf E c (RBytes l) =
     (if l = [] then None else Some (TnUnion TyChild 1 (TnLink TyLink (linkOf E c l))))"
| "childNodeOf E c (RList [RBytes p, RBytes v]) =
     Some (TnUnion TyChild 2 (TnUnion TyTrieNode 3 (leafStruct (compactToHex p) (valueNode E c v))))"
| "childNodeOf E c (RList _) = None"

lemma valueGood_decode: "valueGood E c v \<Longrightarrow> decodeValue E c v = Ok (valueNode E c v)"
  by (auto simp: valueGood_def is_ok_iff valueNode_def)

lemma valueGood_pack: "trie_lawful E \<Longrightarrow> valueGood E c v \<Longrightarrow> packUnion E (NTyped (valueNode E c v)) = Ok v"
  using val.encode_decoded valueGood_decode by (auto simp: valueGood_def)

lemma memberNames_TrieNode [simp]:
  "memberNames TyTrieNode = [''TrieBranchNode'', ''TrieExtensionNode'', ''TrieLeafNode'']"
  "memberNames TyChild = [''Link'', ''TrieNode'']"
  by (simp_all add: memberNames_def membersOf.simps go_defs)

lemma membersOf_TrieNode:
  "membersOf TyTrieNode = go_TrieNode" "membersOf TyChild = go_Child"
  by (simp_all add: membersOf.simps)

lemma assembleUnion_Ok:
  assumes "typeDecl ty = DUnion ms" "idxOf (memberNames ty) k = Some i"
    and "x (snd (membersOf ty ! i)) False = Ok (Some t)"
  shows "assembleUnion k x ty = Ok (TnUnion ty (Suc i) t)"
  using assms ua_member [OF assms(2), of x t] by (simp add: assembleUnion_def beginUnion_def)

lemma embeddedLeaf_node:
  assumes "leafPath p" "valueGood E c v"
  shows "embeddedLeaf E c [RBytes p, RBytes v] =
    Ok (TnUnion TyChild 2 (TnUnion TyTrieNode 3 (leafStruct (compactToHex p) (valueNode E c v))))"
proof -
  let ?leaf = "leafStruct (compactToHex p) (valueNode E c v)"
  have "assembleUnion (NodeKind_String LEAF_NODE)
      (assembleStruct (unpackLeafNode E c [RBytes (compactToHex p), RBytes v])) TyTrieNode
      = Ok (TnUnion TyTrieNode (Suc 2) ?leaf)"
    using unpackLeafNode_struct [OF valueGood_decode [OF assms(2)]]
    by (intro assembleUnion_Ok [where ms = go_TrieNode]) (simp_all add: membersOf_TrieNode go_defs)
  then have "assembleUnion ''TrieNode'' (\<lambda>ty nul. finished (assembleUnion (NodeKind_String LEAF_NODE)
      (assembleStruct (unpackLeafNode E c [RBytes (compactToHex p), RBytes v])) ty)) TyChild
      = Ok (TnUnion TyChild (Suc 1) (TnUnion TyTrieNode (Suc 2) ?leaf))"
    by (intro assembleUnion_Ok [where ms = go_Child]) (simp_all add: membersOf_TrieNode go_defs)
  then show ?thesis
    using assms(1) by (simp add: embeddedLeaf_def decodeTwoMemberNode_valid leafPath_def eval_nat_numeral)
qed

lemma fields_Branch: "fieldsOf TyTrieBranchNode = go_TrieBranchNode"
  by (simp add: fieldsOf.simps)

lemma fieldNames_Branch: "fieldNames TyTrieBranchNode = map childKey [0..<16] @ [''Value'']"
  by (simp add: fieldNames_def fields_Branch go_defs go_field_defs childKey_def upt_rec)

lemma idxOf_childKey: "i < 16 \<Longrightarrow> idxOf (fieldNames TyTrieBranchNode) (childKey i) = Some i"
  using idxOf_nth [OF distinct_fieldNames, of i TyTrieBranchNode]
  by (simp add: fieldNames_Branch nth_append fields_Branch go_defs)

lemma idxOf_Value: "idxOf (fieldNames TyTrieBranchNode) ''Value'' = Some 16"
  using idxOf_nth [OF distinct_fieldNames, of 16 TyTrieBranchNode]
  by (simp add: fieldNames_Branch nth_append fields_Branch go_defs)

lemma branch_field:
  "i < 16 \<Longrightarrow> ftype (go_TrieBranchNode ! i) = TyChild \<and> fnullable (go_TrieBranchNode ! i)"
  "ftype (go_TrieBranchNode ! 16) = TyValue" "fnullable (go_TrieBranchNode ! 16)"
proof -
  have "list_all (\<lambda>f. ftype f = TyChild \<and> fnullable f) (take 16 go_TrieBranchNode)"
    by (simp add: go_defs go_field_defs)
  moreover have "length go_TrieBranchNode = 17" by (simp add: go_defs)
  ultimately show "i < 16 \<Longrightarrow> ftype (go_TrieBranchNode ! i) = TyChild \<and> fnullable (go_TrieBranchNode ! i)"
    by (simp add: list_all_length)
qed (simp_all add: go_defs go_field_defs)

lemma fieldAt_childKey:
  "i < 16 \<Longrightarrow> ftype (fieldAt TyTrieBranchNode (childKey i)) = TyChild"
  "i < 16 \<Longrightarrow> fnullable (fieldAt TyTrieBranchNode (childKey i))"
  "ftype (fieldAt TyTrieBranchNode ''Value'') = TyValue" "fnullable (fieldAt TyTrieBranchNode ''Value'')"
  using branch_field by (simp_all add: fieldAt_def idxOf_childKey idxOf_Value fields_Branch)

lemma childKey_field: "i < 16 \<Longrightarrow> childKey i \<in> set (fieldNames TyTrieBranchNode)"
  by (simp add: fieldNames_Branch)

lemma ptrMaybe_Child [simp]: "ptrMaybe TyChild"
  by (simp add: ptrMaybe_def)

lemma assignChild: "tnType t = TyChild \<Longrightarrow> assignNode TyChild nul wnil (NTyped t) = Ok (Some t)"
  by (rule assignNode_same)

lemma unpackChild_puts:
  assumes "trie_lawful E" "i < 16" "i < length fs" "childGood E c (fs ! i)"
  shows "puts_as TyTrieBranchNode (unpackChild E c fs i) [(childKey i, childNodeOf E c (fs ! i))]"
proof -
  let ?node = "\<lambda>t ty nul. assignNode ty nul (nul \<and> ptrMaybe ty) (NTyped t)"
  have put: "puts_as TyTrieBranchNode (putVal (childKey i) x) [(childKey i, r)]"
    if "x TyChild True = Ok r" for x r
    using that assms(2) by (intro puts_as_putVal) (auto simp: fieldAt_childKey childKey_field)
  have "\<exists>x. (\<forall>ma. unpackChild E c fs i ma = putVal (childKey i) x ma) \<and>
      x TyChild True = Ok (childNodeOf E c (fs ! i))"
    using assms(4)
  proof (cases rule: childGood.cases [of "(E, c, fs ! i)"])
    case (1 E' c' l)
    then consider "l = []" | "length l = 32" using assms(4) by auto
    then show ?thesis
    proof cases
      case 2
      define t where "t = TnUnion TyChild 1 (TnLink TyLink (linkOf E c l))"
      have "Keccak256ToCid E c l = Ok (newCidV1 E c (mhOf E l))"
        using trie_lawfulD(6) [OF assms(1)] 2 by (simp add: Keccak256ToCid_def maxDigest_def)
      moreover have "assembleUnion ''Link'' (\<lambda>ty nul. assignLink ty (CidLink (newCidV1 E c (mhOf E l)))) TyChild = Ok t"
        using assembleUnion_Ok [where ms = go_Child and ty = TyChild and k = "''Link''" and i = 0]
        by (simp add: membersOf_TrieNode go_defs t_def linkOf_def)
      ultimately show ?thesis
        using 1 2 assms(3)
        by (intro exI [of _ "?node t"])
          (auto simp: unpackChild_def idx_def putVal_def t_def assignChild)
    qed (use 1 assms(3) in \<open>auto simp: unpackChild_def idx_def putVal_def intro!: exI [of _ assignNull]\<close>)
  next
    case (2 E' c' p v)
    then have "embeddedLeaf E c [RBytes p, RBytes v] = Ok (the (childNodeOf E c (fs ! i)))"
      using assms(4) by (auto simp: embeddedLeaf_node)
    then show ?thesis
      using 2 assms(3)
      by (intro exI [of _ "?node (the (childNodeOf E c (fs ! i)))"])
        (auto simp: unpackChild_def idx_def putVal_def assignChild)
  qed auto
  then obtain x where x: "\<forall>ma. unpackChild E c fs i ma = putVal (childKey i) x ma"
      "x TyChild True = Ok (childNodeOf E c (fs ! i))"
    by auto
  then have "unpackChild E c fs i = putVal (childKey i) x" by (simp add: fun_eq_iff)
  then show ?thesis using put [of x, OF x(2)] by simp
qed

fun branchValue :: "ext \<Rightarrow> u64 \<Rightarrow> rlpItem \<Rightarrow> tnode option" where
  "branchValue E c (RBytes v) = (if v = [] then None else Some (valueNode E c v))"
| "branchValue E c (RList _) = None"

definition branchStruct :: "ext \<Rightarrow> u64 \<Rightarrow> rlpItem list \<Rightarrow> tnode" where
  "branchStruct E c fs = TnStruct TyTrieBranchNode
     (map (\<lambda>i. childNodeOf E c (fs ! i)) [0..<16] @ [branchValue E c (fs ! 16)])"

fun branchValueGood :: "ext \<Rightarrow> u64 \<Rightarrow> rlpItem \<Rightarrow> bool" where
  "branchValueGood E c (RBytes v) \<longleftrightarrow> v = [] \<or> valueGood E c v"
| "branchValueGood E c (RList _) \<longleftrightarrow> False"

definition branchGood :: "ext \<Rightarrow> u64 \<Rightarrow> rlpItem list \<Rightarrow> bool" where
  "branchGood E c fs \<longleftrightarrow> length fs = 17 \<and> list_all (childGood E c) (take 16 fs) \<and>
     branchValueGood E c (fs ! 16)"

lemma branchGood_child: "branchGood E c fs \<Longrightarrow> i < 16 \<Longrightarrow> childGood E c (fs ! i)"
  by (auto simp: branchGood_def list_all_length)

lemma nullableIn_Branch:
  "i < 16 \<Longrightarrow> nullableIn TyTrieBranchNode (childKey i)" "nullableIn TyTrieBranchNode ''Value''"
  using branch_field by (simp_all add: nullableIn_def idxOf_childKey idxOf_Value fields_Branch)

lemma unpackBranchNode_struct:
  assumes "trie_lawful E" "branchGood E c fs"
  shows "assembleStruct (unpackBranchNode E c fs) TyTrieBranchNode nul = Ok (Some (branchStruct E c fs))"
proof -
  obtain v where v: "fs ! 16 = RBytes v" "v = [] \<or> valueGood E c v" "length fs = 17"
    using assms(2) by (cases "fs ! 16") (auto simp: branchGood_def)
  define x where "x = (if v = [] then assignNull else assembleValueUnion E c v)"
  let ?fns = "map (unpackChild E c fs) [0..<16] @ [putVal ''Value'' x]"
  let ?ess = "map (\<lambda>i. [(childKey i, childNodeOf E c (fs ! i))]) [0..<16] @ [[(''Value'', branchValue E c (fs ! 16))]]"
  have "puts_as TyTrieBranchNode (putVal ''Value'' x) [(''Value'', branchValue E c (fs ! 16))]"
    using v by (intro puts_as_putVal)
      (auto simp: fieldNames_Branch fieldAt_childKey x_def assembleValueUnion_decodeValue valueGood_decode)
  then have "list_all2 (puts_as TyTrieBranchNode) ?fns ?ess"
    using unpackChild_puts [OF assms(1)] branchGood_child [OF assms(2)] v(3)
    by (intro list_all2_appendI) (auto simp: list.rel_map list_all2_same)
  from struct_in_order [OF this]
  have "andThen (runAll ?fns (newStructAsm TyTrieBranchNode False)) sa_done = Ok (branchStruct E c fs)"
    using nullableIn_Branch
    by (simp add: branchStruct_def fieldNames_Branch comp_def list_all_iff del: upt_rec_numeral upt_Suc)
  moreover have "unpackBranchNode E c fs = runAll ?fns"
    using v by (auto simp: fun_eq_iff unpackBranchNode_def forEach_runAll runAll_append runAll_eta
        putVal_def [abs_def] x_def idx_def simp del: upt_rec_numeral upt_Suc)
  ultimately show ?thesis
    by (simp only:) (rule assembleStruct_Ok [where fs = go_TrieBranchNode], simp_all only: typeDecl.simps)
qed

lemma lookup_branch:
  "i < 16 \<Longrightarrow> lookupByString (NTyped (branchStruct E c fs)) (childKey i) = Ok (ofMaybe (childNodeOf E c (fs ! i)))"
  "lookupByString (NTyped (branchStruct E c fs)) ''Value'' = Ok (ofMaybe (branchValue E c (fs ! 16)))"
  by (simp_all add: branchStruct_def idxOf_childKey idxOf_Value nth_append del: upt_rec_numeral upt_Suc)

lemma packChild_branch:
  assumes "trie_lawful E" "i < 16" "childGood E c (fs ! i)"
  shows "packChild E (NTyped (branchStruct E c fs)) i = Ok (fs ! i)"
proof (cases rule: childGood.cases [of "(E, c, fs ! i)"])
  case (1 E' c' l)
  then show ?thesis
    using assms trie_lawfulD(6) [OF assms(1)]
    by (auto simp: packChild_def lookup_branch maxDigest_def)
next
  case (2 E' c' p v)
  then have "leafPath p" "valueGood E c v" using assms(3) by auto
  then have "packLeafNode E (NTyped (leafStruct (compactToHex p) (valueNode E c v))) = Ok [RBytes p, RBytes v]"
    using assms(1) by (intro packLeafNode_struct)
      (auto simp: leafPath_def hexToCompact_compactToHex valueGood_pack)
  with 2 assms(2) show ?thesis by (simp add: packChild_def lookup_branch)
qed (use assms(3) in auto)

lemma packBranchNode_struct:
  assumes "trie_lawful E" "branchGood E c fs"
  shows "packBranchNode E (NTyped (branchStruct E c fs)) = Ok fs"
proof -
  have len: "length fs = 17" using assms(2) by (simp add: branchGood_def)
  have "traverse (packChild E (NTyped (branchStruct E c fs))) [0..<16] = Ok (map ((!) fs) [0..<16])"
    using assms by (intro traverse_map_Ok packChild_branch) (auto simp: branchGood_child)
  moreover obtain v where v: "fs ! 16 = RBytes v" "v = [] \<or> valueGood E c v"
    using assms(2) by (cases "fs ! 16") (auto simp: branchGood_def)
  moreover from v have "packValue E (NTyped (branchStruct E c fs)) = Ok v"
    using assms(1) by (auto simp: packValue_union lookup_branch valueGood_pack)
  moreover have "map ((!) fs) [0..<16] @ [fs ! 16] = fs"
    using map_nth [of fs] upt_Suc_append [of 0 16] by (simp add: len del: upt_rec_numeral upt_Suc)
  ultimately show ?thesis by (simp add: packBranchNode_def del: upt_rec_numeral upt_Suc)
qed

section \<open>The codec\<close>

definition twoGood :: "ext \<Rightarrow> u64 \<Rightarrow> bytes \<Rightarrow> bytes \<Rightarrow> bool" where
  "twoGood E c p v \<longleftrightarrow> validCompact p \<and>
     (if hd p div 16 < 2 then length v < maxDigest else valueGood E c v)"

fun trieGood :: "ext \<Rightarrow> u64 \<Rightarrow> rlpItem list \<Rightarrow> bool" where
  "trieGood E c [RBytes p, RBytes v] = twoGood E c p v"
| "trieGood E c fs = branchGood E c fs"

fun trieNodeOf :: "ext \<Rightarrow> u64 \<Rightarrow> rlpItem list \<Rightarrow> tnode" where
  "trieNodeOf E c [RBytes p, RBytes v] =
     (if hd p div 16 < 2 then TnUnion TyTrieNode 2 (extStruct (compactToHex p) (linkOf E c v))
      else TnUnion TyTrieNode 3 (leafStruct (compactToHex p) (valueNode E c v)))"
| "trieNodeOf E c fs = TnUnion TyTrieNode 1 (branchStruct E c fs)"

text \<open>The part of \<open>AppendEncode\<close> before RLP.\<close>

definition packTrieNode :: "ext \<Rightarrow> node \<Rightarrow> rlpItem list res" where
  "packTrieNode E inNode =
     andThen (wrapTyped TyTrieNode inNode) (\<lambda>n.
     andThen (NodeAndKind n) (\<lambda>(node, kind).
     case kind of
       BRANCH_NODE \<Rightarrow> packBranchNode E node
     | EXTENSION_NODE \<Rightarrow> packExtensionNode E node
     | LEAF_NODE \<Rightarrow> packLeafNode E node
     | UNKNOWN_NODE \<Rightarrow> Fail (Err ''IPLD node is missing the expected Union keys'')))"

lemma trieGood_cases:
  assumes "trieGood E c fs"
  obtains (ext) p v where "fs = [RBytes p, RBytes v]" "validCompact p" "hd p div 16 < 2" "length v < maxDigest"
  | (leaf) p v where "fs = [RBytes p, RBytes v]" "validCompact p" "\<not> hd p div 16 < 2" "valueGood E c v"
  | (branch) "branchGood E c fs" "length fs = 17" "trieNodeOf E c fs = TnUnion TyTrieNode 1 (branchStruct E c fs)"
  using assms
  by (cases rule: trieGood.cases [of "(E, c, fs)"]) (auto simp: twoGood_def branchGood_def split: if_splits)

lemma unpackTrieNode_node:
  assumes "trie_lawful E" "trieGood E c fs"
  shows "unpackTrieNode E c fs = Ok (trieNodeOf E c fs)"
  using assms(2)
proof (cases rule: trieGood_cases)
  case (ext p v)
  then show ?thesis
    using unpackExtensionNode_struct [OF trie_lawfulD(6) [OF assms(1)] ext(4)]
      ua_member [of TyTrieNode "''TrieExtensionNode''" 1]
    by (simp add: unpackTrieNode_def beginUnion_def decodeTwoMemberNode_valid membersOf_TrieNode go_defs
        eval_nat_numeral)
next
  case (leaf p v)
  then show ?thesis
    using unpackLeafNode_struct [OF valueGood_decode [OF leaf(4)]]
      ua_member [of TyTrieNode "''TrieLeafNode''" 2]
    by (simp add: unpackTrieNode_def beginUnion_def decodeTwoMemberNode_valid membersOf_TrieNode go_defs
        eval_nat_numeral)
next
  case branch
  then show ?thesis
    using unpackBranchNode_struct [OF assms(1) branch(1)]
      ua_member [of TyTrieNode "''TrieBranchNode''" 0]
    by (simp add: unpackTrieNode_def beginUnion_def membersOf_TrieNode go_defs)
qed

lemma packTrieNode_node:
  assumes "trie_lawful E" "trieGood E c fs"
  shows "packTrieNode E (NTyped (trieNodeOf E c fs)) = Ok fs"
  using assms(2)
proof (cases rule: trieGood_cases)
  case (ext p v)
  then show ?thesis
    using packExtensionNode_struct [OF trie_lawfulD(6) [OF assms(1)] ext(4) hexToCompact_compactToHex [OF ext(2)]]
    by (simp add: packTrieNode_def NodeAndKind_def)
next
  case (leaf p v)
  then show ?thesis
    using packLeafNode_struct [OF hexToCompact_compactToHex [OF leaf(2)] valueGood_pack [OF assms(1) leaf(4)]]
    by (simp add: packTrieNode_def NodeAndKind_def)
next
  case branch
  then show ?thesis
    using packBranchNode_struct [OF assms(1) branch(1)] by (simp add: packTrieNode_def NodeAndKind_def)
qed

interpretation trie: struct_codec "trie_lawful E" "\<lambda>_. True" "trieGood E c" "trieNodeOf E c"
    "unpackTrieNode E c" "packTrieNode E"
    "\<lambda>fs. wrapErr ''invalid DAG-ETH TrieNode form'' (rlpEncodeFields E fs)" "rlpDecodeFields E" for E c
  by unfold_locales (auto simp: unpackTrieNode_node packTrieNode_node trie_lawfulD)

lemma trie_Encode_buffer: "trie_Encode E n bytesBuffer = trie.encodes E n"
  by (simp add: trie_Encode_def trie_AppendEncode_def trie.encodes_def packTrieNode_def bytesBuffer_def
      writeSlice_def andThen_assoc case_prod_unfold)

lemma trie_DecodeBytes_decodes: "DecodeTrieNodeBytes E c b = trie.decodes E c b"
  by (simp add: DecodeTrieNodeBytes_def trie.decodes_def)

end
