(* ===== verification/Multicodec.thy ===== *)
theory Multicodec
  imports Uncles Trie_Laws
begin

text \<open>
  The registration side of the packages: the five trie packages that wrap the trie codec for one
  multicodec each, every package's multicodec type, its \<open>init\<close> that registers the codec, its
  \<open>AddSupportToChooser\<close>, and the plugin that registers all eleven codecs.  A registry is a
  parameter: what the code relies on is that a lookup returns the function registered last.
\<close>

section \<open>The interface of the registry and of choosers\<close>

type_synonym decoder = "reader \<Rightarrow> tnode res"
type_synonym encoder = "node \<Rightarrow> bytes writer \<Rightarrow> bytes res"

record 'r registryOps =
  registerDecoder :: "u64 \<Rightarrow> decoder \<Rightarrow> 'r \<Rightarrow> 'r"
  registerEncoder :: "u64 \<Rightarrow> encoder \<Rightarrow> 'r \<Rightarrow> 'r"
  lookupDecoder :: "'r \<Rightarrow> u64 \<Rightarrow> decoder option"
  lookupEncoder :: "'r \<Rightarrow> u64 \<Rightarrow> encoder option"

definition registry_laws :: "'r registryOps \<Rightarrow> bool" where
  "registry_laws R \<longleftrightarrow>
     (\<forall>c d r. lookupDecoder R (registerDecoder R c d r) = (lookupDecoder R r)(c \<mapsto> d)) \<and>
     (\<forall>c e r. lookupEncoder R (registerDecoder R c e r) = lookupEncoder R r) \<and>
     (\<forall>c e r. lookupEncoder R (registerEncoder R c e r) = (lookupEncoder R r)(c \<mapsto> e)) \<and>
     (\<forall>c d r. lookupDecoder R (registerEncoder R c d r) = lookupDecoder R r)"

text \<open>A node prototype: one of the \<open>dageth.Type\<close> slab, or another one.\<close>

datatype prototype = DagethType tyname | OtherPrototype string

type_synonym 'ctx chooser = "link \<Rightarrow> 'ctx \<Rightarrow> prototype res"

text \<open>The closure that every \<open>AddSupportToChooser\<close> returns, for its code and type.\<close>

definition addSupport :: "ext \<Rightarrow> u64 \<Rightarrow> tyname \<Rightarrow> 'ctx chooser \<Rightarrow> 'ctx chooser" where
  "addSupport E code ty existing lnk lnkCtx =
     (case lnk of
        CidLink c \<Rightarrow> if cidCodec E c = code then Ok (DagethType ty) else existing lnk lnkCtx
      | OtherLink _ \<Rightarrow> existing lnk lnkCtx)"

section \<open>multicodec.go: multicodec types\<close>

definition header_MultiCodecType :: u64 where "header_MultiCodecType = EthBlock"
definition uncles_MultiCodecType :: u64 where "uncles_MultiCodecType = EthBlockList"
definition tx_MultiCodecType :: u64 where "tx_MultiCodecType = EthTx"
definition tx_trie_MultiCodecType :: u64 where "tx_trie_MultiCodecType = EthTxTrie"
definition rct_MultiCodecType :: u64 where "rct_MultiCodecType = EthTxReceipt"
definition rct_trie_MultiCodecType :: u64 where "rct_trie_MultiCodecType = EthTxReceiptTrie"
definition log_trie_MultiCodecType :: u64 where "log_trie_MultiCodecType = 0x99"
definition state_trie_MultiCodecType :: u64 where "state_trie_MultiCodecType = EthStateTrie"
definition account_MultiCodecType :: u64 where "account_MultiCodecType = EthAccountSnapshot"
definition storage_trie_MultiCodecType :: u64 where "storage_trie_MultiCodecType = EthStorageTrie"

lemmas MultiCodecType_defs =
  header_MultiCodecType_def
  uncles_MultiCodecType_def
  tx_MultiCodecType_def
  tx_trie_MultiCodecType_def
  rct_MultiCodecType_def
  rct_trie_MultiCodecType_def
  log_MultiCodecType_def
  log_trie_MultiCodecType_def
  state_trie_MultiCodecType_def
  account_MultiCodecType_def
  storage_trie_MultiCodecType_def

section \<open>The trie packages\<close>

definition tx_trie_Encode :: "ext \<Rightarrow> node \<Rightarrow> 'w writer \<Rightarrow> 'w res" where
  "tx_trie_Encode E node w = trie_Encode E node w"

definition tx_trie_AppendEncode :: "ext \<Rightarrow> bytes \<Rightarrow> node \<Rightarrow> bytes res" where
  "tx_trie_AppendEncode E enc inNode = trie_AppendEncode E enc inNode"

definition tx_trie_Decode :: "ext \<Rightarrow> reader \<Rightarrow> tnode res" where
  "tx_trie_Decode E rd = DecodeTrieNode E tx_trie_MultiCodecType rd"

definition tx_trie_DecodeBytes :: "ext \<Rightarrow> bytes \<Rightarrow> tnode res" where
  "tx_trie_DecodeBytes E src = DecodeTrieNodeBytes E tx_trie_MultiCodecType src"

definition rct_trie_Encode :: "ext \<Rightarrow> node \<Rightarrow> 'w writer \<Rightarrow> 'w res" where
  "rct_trie_Encode E node w = trie_Encode E node w"

definition rct_trie_AppendEncode :: "ext \<Rightarrow> bytes \<Rightarrow> node \<Rightarrow> bytes res" where
  "rct_trie_AppendEncode E enc inNode = trie_AppendEncode E enc inNode"

definition rct_trie_Decode :: "ext \<Rightarrow> reader \<Rightarrow> tnode res" where
  "rct_trie_Decode E rd = DecodeTrieNode E rct_trie_MultiCodecType rd"

definition rct_trie_DecodeBytes :: "ext \<Rightarrow> bytes \<Rightarrow> tnode res" where
  "rct_trie_DecodeBytes E src = DecodeTrieNodeBytes E rct_trie_MultiCodecType src"

definition log_trie_Encode :: "ext \<Rightarrow> node \<Rightarrow> 'w writer \<Rightarrow> 'w res" where
  "log_trie_Encode E node w = trie_Encode E node w"

definition log_trie_AppendEncode :: "ext \<Rightarrow> bytes \<Rightarrow> node \<Rightarrow> bytes res" where
  "log_trie_AppendEncode E enc inNode = trie_AppendEncode E enc inNode"

definition log_trie_Decode :: "ext \<Rightarrow> reader \<Rightarrow> tnode res" where
  "log_trie_Decode E rd = DecodeTrieNode E log_trie_MultiCodecType rd"

definition log_trie_DecodeBytes :: "ext \<Rightarrow> bytes \<Rightarrow> tnode res" where
  "log_trie_DecodeBytes E src = DecodeTrieNodeBytes E log_trie_MultiCodecType src"

definition state_trie_Encode :: "ext \<Rightarrow> node \<Rightarrow> 'w writer \<Rightarrow> 'w res" where
  "state_trie_Encode E node w = trie_Encode E node w"

definition state_trie_AppendEncode :: "ext \<Rightarrow> bytes \<Rightarrow> node \<Rightarrow> bytes res" where
  "state_trie_AppendEncode E enc inNode = trie_AppendEncode E enc inNode"

definition state_trie_Decode :: "ext \<Rightarrow> reader \<Rightarrow> tnode res" where
  "state_trie_Decode E rd = DecodeTrieNode E state_trie_MultiCodecType rd"

definition state_trie_DecodeBytes :: "ext \<Rightarrow> bytes \<Rightarrow> tnode res" where
  "state_trie_DecodeBytes E src = DecodeTrieNodeBytes E state_trie_MultiCodecType src"

definition storage_trie_Encode :: "ext \<Rightarrow> node \<Rightarrow> 'w writer \<Rightarrow> 'w res" where
  "storage_trie_Encode E node w = trie_Encode E node w"

definition storage_trie_AppendEncode :: "ext \<Rightarrow> bytes \<Rightarrow> node \<Rightarrow> bytes res" where
  "storage_trie_AppendEncode E enc inNode = trie_AppendEncode E enc inNode"

definition storage_trie_Decode :: "ext \<Rightarrow> reader \<Rightarrow> tnode res" where
  "storage_trie_Decode E rd = DecodeTrieNode E storage_trie_MultiCodecType rd"

definition storage_trie_DecodeBytes :: "ext \<Rightarrow> bytes \<Rightarrow> tnode res" where
  "storage_trie_DecodeBytes E src = DecodeTrieNodeBytes E storage_trie_MultiCodecType src"

section \<open>multicodec.go: registration and choosers\<close>

definition header_init :: "ext \<Rightarrow> 'r registryOps \<Rightarrow> 'r \<Rightarrow> 'r" where
  "header_init E R reg =
     registerEncoder R header_MultiCodecType (header_Encode E)
       (registerDecoder R header_MultiCodecType (header_Decode E) reg)"

definition header_AddSupportToChooser :: "ext \<Rightarrow> 'ctx chooser \<Rightarrow> 'ctx chooser" where
  "header_AddSupportToChooser E existing = addSupport E header_MultiCodecType TyHeader existing"

definition uncles_init :: "ext \<Rightarrow> 'r registryOps \<Rightarrow> 'r \<Rightarrow> 'r" where
  "uncles_init E R reg =
     registerEncoder R uncles_MultiCodecType (uncles_Encode E)
       (registerDecoder R uncles_MultiCodecType (uncles_Decode E) reg)"

definition uncles_AddSupportToChooser :: "ext \<Rightarrow> 'ctx chooser \<Rightarrow> 'ctx chooser" where
  "uncles_AddSupportToChooser E existing = addSupport E uncles_MultiCodecType TyUncles existing"

definition tx_init :: "ext \<Rightarrow> 'r registryOps \<Rightarrow> 'r \<Rightarrow> 'r" where
  "tx_init E R reg =
     registerEncoder R tx_MultiCodecType (tx_Encode E)
       (registerDecoder R tx_MultiCodecType (tx_Decode E) reg)"

definition tx_AddSupportToChooser :: "ext \<Rightarrow> 'ctx chooser \<Rightarrow> 'ctx chooser" where
  "tx_AddSupportToChooser E existing = addSupport E tx_MultiCodecType TyTransaction existing"

definition tx_trie_init :: "ext \<Rightarrow> 'r registryOps \<Rightarrow> 'r \<Rightarrow> 'r" where
  "tx_trie_init E R reg =
     registerEncoder R tx_trie_MultiCodecType (tx_trie_Encode E)
       (registerDecoder R tx_trie_MultiCodecType (tx_trie_Decode E) reg)"

definition tx_trie_AddSupportToChooser :: "ext \<Rightarrow> 'ctx chooser \<Rightarrow> 'ctx chooser" where
  "tx_trie_AddSupportToChooser E existing = addSupport E tx_trie_MultiCodecType TyTrieNode existing"

definition rct_init :: "ext \<Rightarrow> 'r registryOps \<Rightarrow> 'r \<Rightarrow> 'r" where
  "rct_init E R reg =
     registerEncoder R rct_MultiCodecType (rct_Encode E)
       (registerDecoder R rct_MultiCodecType (rct_Decode E) reg)"

definition rct_AddSupportToChooser :: "ext \<Rightarrow> 'ctx chooser \<Rightarrow> 'ctx chooser" where
  "rct_AddSupportToChooser E existing = addSupport E rct_MultiCodecType TyReceipt existing"

definition rct_trie_init :: "ext \<Rightarrow> 'r registryOps \<Rightarrow> 'r \<Rightarrow> 'r" where
  "rct_trie_init E R reg =
     registerEncoder R rct_trie_MultiCodecType (rct_trie_Encode E)
       (registerDecoder R rct_trie_MultiCodecType (rct_trie_Decode E) reg)"

definition rct_trie_AddSupportToChooser :: "ext \<Rightarrow> 'ctx chooser \<Rightarrow> 'ctx chooser" where
  "rct_trie_AddSupportToChooser E existing = addSupport E rct_trie_MultiCodecType TyTrieNode existing"

definition log_init :: "ext \<Rightarrow> 'r registryOps \<Rightarrow> 'r \<Rightarrow> 'r" where
  "log_init E R reg =
     registerEncoder R log_MultiCodecType (log_Encode E)
       (registerDecoder R log_MultiCodecType (log_Decode E) reg)"

definition log_AddSupportToChooser :: "ext \<Rightarrow> 'ctx chooser \<Rightarrow> 'ctx chooser" where
  "log_AddSupportToChooser E existing = addSupport E log_MultiCodecType TyLog existing"

definition log_trie_init :: "ext \<Rightarrow> 'r registryOps \<Rightarrow> 'r \<Rightarrow> 'r" where
  "log_trie_init E R reg =
     registerEncoder R log_trie_MultiCodecType (log_trie_Encode E)
       (registerDecoder R log_trie_MultiCodecType (log_trie_Decode E) reg)"

definition log_trie_AddSupportToChooser :: "ext \<Rightarrow> 'ctx chooser \<Rightarrow> 'ctx chooser" where
  "log_trie_AddSupportToChooser E existing = addSupport E log_trie_MultiCodecType TyTrieNode existing"

definition state_trie_init :: "ext \<Rightarrow> 'r registryOps \<Rightarrow> 'r \<Rightarrow> 'r" where
  "state_trie_init E R reg =
     registerEncoder R state_trie_MultiCodecType (state_trie_Encode E)
       (registerDecoder R state_trie_MultiCodecType (state_trie_Decode E) reg)"

definition state_trie_AddSupportToChooser :: "ext \<Rightarrow> 'ctx chooser \<Rightarrow> 'ctx chooser" where
  "state_trie_AddSupportToChooser E existing = addSupport E state_trie_MultiCodecType TyTrieNode existing"

definition account_init :: "ext \<Rightarrow> 'r registryOps \<Rightarrow> 'r \<Rightarrow> 'r" where
  "account_init E R reg =
     registerEncoder R account_MultiCodecType (account_Encode E)
       (registerDecoder R account_MultiCodecType (account_Decode E) reg)"

definition account_AddSupportToChooser :: "ext \<Rightarrow> 'ctx chooser \<Rightarrow> 'ctx chooser" where
  "account_AddSupportToChooser E existing = addSupport E account_MultiCodecType TyAccount existing"

definition storage_trie_init :: "ext \<Rightarrow> 'r registryOps \<Rightarrow> 'r \<Rightarrow> 'r" where
  "storage_trie_init E R reg =
     registerEncoder R storage_trie_MultiCodecType (storage_trie_Encode E)
       (registerDecoder R storage_trie_MultiCodecType (storage_trie_Decode E) reg)"

definition storage_trie_AddSupportToChooser :: "ext \<Rightarrow> 'ctx chooser \<Rightarrow> 'ctx chooser" where
  "storage_trie_AddSupportToChooser E existing = addSupport E storage_trie_MultiCodecType TyTrieNode existing"

section \<open>plugin.go\<close>

definition plugin_Name :: string where "plugin_Name = ''ipld-dag-eth''"
definition plugin_Version :: string where "plugin_Version = ''0.0.1''"
definition plugin_Init :: "unit res" where "plugin_Init = Ok ()"

definition plugin_decoders :: "ext \<Rightarrow> (u64 \<times> decoder) list" where
  "plugin_decoders E =
     [(header_MultiCodecType, header_Decode E),
      (uncles_MultiCodecType, uncles_Decode E),
      (tx_MultiCodecType, tx_Decode E),
      (tx_trie_MultiCodecType, tx_trie_Decode E),
      (rct_MultiCodecType, rct_Decode E),
      (rct_trie_MultiCodecType, rct_trie_Decode E),
      (log_MultiCodecType, log_Decode E),
      (log_trie_MultiCodecType, log_trie_Decode E),
      (state_trie_MultiCodecType, state_trie_Decode E),
      (account_MultiCodecType, account_Decode E),
      (storage_trie_MultiCodecType, storage_trie_Decode E)]"

definition plugin_encoders :: "ext \<Rightarrow> (u64 \<times> encoder) list" where
  "plugin_encoders E =
     [(header_MultiCodecType, header_Encode E),
      (uncles_MultiCodecType, uncles_Encode E),
      (tx_MultiCodecType, tx_Encode E),
      (tx_trie_MultiCodecType, tx_trie_Encode E),
      (rct_MultiCodecType, rct_Encode E),
      (rct_trie_MultiCodecType, rct_trie_Encode E),
      (log_MultiCodecType, log_Encode E),
      (log_trie_MultiCodecType, log_trie_Encode E),
      (state_trie_MultiCodecType, state_trie_Encode E),
      (account_MultiCodecType, account_Encode E),
      (storage_trie_MultiCodecType, storage_trie_Encode E)]"

text \<open>\<open>Register\<close> is given the registry by value; what it holds are the maps of decoders and encoders, so that a caller whose
  registry is initialised sees what is registered.  The result stands for these maps.\<close>

definition plugin_Register :: "ext \<Rightarrow> 'r registryOps \<Rightarrow> 'r \<Rightarrow> 'r res" where
  "plugin_Register E R reg =
     Ok (foldl (\<lambda>reg (code, e). registerEncoder R code e reg)
       (foldl (\<lambda>reg (code, d). registerDecoder R code d reg) reg (plugin_decoders E))
       (plugin_encoders E))"

section \<open>Facts about registration\<close>

lemma registry_lawsD:
  assumes "registry_laws R"
  shows "lookupDecoder R (registerDecoder R c d r) = (lookupDecoder R r)(c \<mapsto> d)"
    "lookupEncoder R (registerDecoder R c d r) = lookupEncoder R r"
    "lookupEncoder R (registerEncoder R c e r) = (lookupEncoder R r)(c \<mapsto> e)"
    "lookupDecoder R (registerEncoder R c e r) = lookupDecoder R r"
  using assms by (simp_all add: registry_laws_def)

lemma registerDecoders:
  assumes "registry_laws R"
  shows "lookupDecoder R (foldl (\<lambda>reg (c, d). registerDecoder R c d reg) reg ds) = lookupDecoder R reg ++ map_of (rev ds)"
    "lookupEncoder R (foldl (\<lambda>reg (c, d). registerDecoder R c d reg) reg ds) = lookupEncoder R reg"
  by (induction ds arbitrary: reg)
    (auto simp: registry_lawsD [OF assms] map_add_def fun_eq_iff split: option.split)

lemma registerEncoders:
  assumes "registry_laws R"
  shows "lookupEncoder R (foldl (\<lambda>reg (c, e). registerEncoder R c e reg) reg es) = lookupEncoder R reg ++ map_of (rev es)"
    "lookupDecoder R (foldl (\<lambda>reg (c, e). registerEncoder R c e reg) reg es) = lookupDecoder R reg"
  by (induction es arbitrary: reg)
    (auto simp: registry_lawsD [OF assms] map_add_def fun_eq_iff split: option.split)

lemma plugin_codes:
  "map fst (plugin_decoders E) = [0x90, 0x91, 0x93, 0x92, 0x95, 0x94, 0x9a, 0x99, 0x96, 0x97, 0x98]"
  "map fst (plugin_encoders E) = map fst (plugin_decoders E)"
  by (simp_all add: plugin_decoders_def plugin_encoders_def MultiCodecType_defs codec_defs)

lemma distinct_plugin_codes:
  "distinct (map fst (plugin_decoders E))" "distinct (map fst (plugin_encoders E))"
  by (simp_all only: plugin_codes) simp_all

lemma map_of_rev: "distinct (map fst xs) \<Longrightarrow> map_of (rev xs) = map_of xs"
  by (intro map_of_inject_set [THEN iffD2]) (auto simp: rev_map [symmetric])

end
