(* ===== verification/Reference_Env.thy ===== *)
theory Reference_Env
  imports Multicodec
begin

text \<open>
  A concrete instance of the third-party functions, used to show that the hypotheses of the
  properties can hold.  Hashes, addresses and blooms are cropped or padded as go-ethereum does;
  multihashes and CIDs are tagged byte strings; logs have a self-delimiting encoding; the other RLP
  functions are tables over sample values.
\<close>

section \<open>Tables\<close>

definition tableEnc :: "('a \<times> bytes) list \<Rightarrow> 'a \<Rightarrow> bytes res" where
  "tableEnc tab x = (case map_of tab x of Some b \<Rightarrow> Ok b | None \<Rightarrow> Fail (Err ''rlp: unsupported value''))"

definition tableDec :: "('a \<times> bytes) list \<Rightarrow> bytes \<Rightarrow> 'a res" where
  "tableDec tab b =
     (case map_of (map (\<lambda>(x, b). (b, x)) tab) b of Some x \<Rightarrow> Ok x | None \<Rightarrow> Fail (Err ''rlp: malformed input''))"

definition tableOk :: "('a \<Rightarrow> bool) \<Rightarrow> ('a \<times> bytes) list \<Rightarrow> bool" where
  "tableOk canon tab \<longleftrightarrow> distinct (map fst tab) \<and> distinct (map snd tab) \<and> list_all canon (map fst tab)"

lemma tableEnc_Ok: "distinct (map fst tab) \<Longrightarrow> tableEnc tab x = Ok b \<longleftrightarrow> (x, b) \<in> set tab"
  using map_of_eq_Some_iff [of tab x b] by (cases "map_of tab x") (auto simp: tableEnc_def)

lemma tableDec_Ok: "distinct (map snd tab) \<Longrightarrow> tableDec tab b = Ok x \<longleftrightarrow> (x, b) \<in> set tab"
proof -
  assume "distinct (map snd tab)"
  then have "distinct (map fst (map (\<lambda>(x, b). (b, x)) tab))" by (simp add: comp_def case_prod_unfold)
  from map_of_eq_Some_iff [OF this, of b x] show ?thesis
    by (cases "map_of (map (\<lambda>(x, b). (b, x)) tab) b") (auto simp: tableDec_def)
qed

lemma table_laws: "tableOk canon tab \<Longrightarrow> rlp_laws canon (tableEnc tab) (tableDec tab)"
  by (auto simp: tableOk_def rlp_laws_def tableEnc_Ok tableDec_Ok list_all_iff)

section \<open>Fixed-size byte arrays\<close>

text \<open>\<open>SetBytes\<close>: crop from the left, pad on the left.\<close>

definition fitBytes :: "nat \<Rightarrow> bytes \<Rightarrow> bytes" where
  "fitBytes n b = replicate (n - length b) 0 @ drop (length b - n) b"

lemma fitBytes_id: "length b = n \<Longrightarrow> fitBytes n b = b"
  by (simp add: fitBytes_def)

definition refBloom :: "bytes \<Rightarrow> bytes res" where
  "refBloom b =
     (if length b > BloomByteLength then Panic ''bloom bytes too big'' else Ok (fitBytes BloomByteLength b))"

section \<open>Multihashes and CIDs\<close>

fun refMhDecode :: "bytes \<Rightarrow> bytes res" where
  "refMhDecode (t # d) = (if t = 0x1b then Ok d else Fail (Err ''unknown multihash code''))"
| "refMhDecode [] = Fail (Err ''multihash too short'')"

definition refCid :: "u64 \<Rightarrow> bytes \<Rightarrow> cid" where
  "refCid c m = 1 # putUint64 c @ m"

definition refCodec :: "cid \<Rightarrow> u64" where
  "refCodec c = (case uint64 (tl c) of Ok v \<Rightarrow> v | _ \<Rightarrow> 0)"

lemma refCodec_refCid [simp]: "refCodec (refCid c m) = c"
  by (simp add: refCodec_def refCid_def uint64_append)

section \<open>Logs\<close>

fun parseTopics :: "bytes \<Rightarrow> (bytes list \<times> bytes) option" where
  "parseTopics [] = None"
| "parseTopics (b # bs) =
     (if b = 0 then Some ([], bs)
      else if b = 1 \<and> HashLength \<le> length bs then
        map_option (\<lambda>(ts, r). (take HashLength bs # ts, r)) (parseTopics (drop HashLength bs))
      else None)"

definition refLogEnc :: "log \<Rightarrow> bytes" where
  "refLogEnc l =
     (if logGood l then l_Address l @ concat (map (\<lambda>t. 1 # t) (l_Topics l)) @ 0 # l_Data l else [])"

definition refLogDec :: "bytes \<Rightarrow> log res" where
  "refLogDec b =
     (if length b < AddressLength then Fail (Err ''rlp: malformed input'')
      else case parseTopics (drop AddressLength b) of
        Some (ts, d) \<Rightarrow> Ok \<lparr>l_Address = take AddressLength b, l_Topics = ts, l_Data = d\<rparr>
      | None \<Rightarrow> Fail (Err ''rlp: malformed input''))"

lemma parseTopics_concat:
  "list_all (\<lambda>t. length t = HashLength) ts \<Longrightarrow> parseTopics (concat (map (\<lambda>t. 1 # t) ts) @ 0 # d) = Some (ts, d)"
  by (induction ts) auto

lemma parseTopics_Some:
  "parseTopics b = Some (ts, d) \<Longrightarrow>
   b = concat (map (\<lambda>t. 1 # t) ts) @ 0 # d \<and> list_all (\<lambda>t. length t = HashLength) ts"
proof (induction b arbitrary: ts d rule: parseTopics.induct)
  case (2 b bs)
  show ?case
  proof (cases "b = 0")
    case False
    with 2(2) obtain us where us: "b = 1" "HashLength \<le> length bs" "ts = take HashLength bs # us"
        "parseTopics (drop HashLength bs) = Some (us, d)"
      by (auto split: if_splits)
    from 2(1) [OF False _ this(4)] us(1,2)
    have "drop HashLength bs = concat (map (\<lambda>t. 1 # t) us) @ 0 # d"
      "list_all (\<lambda>t. length t = HashLength) us" by auto
    with us show ?thesis using append_take_drop_id [of HashLength bs] by auto
  qed (use 2(2) in auto)
qed simp

lemma refLog_laws: "rlp_laws logGood (\<lambda>l. Ok (refLogEnc l)) refLogDec"
  unfolding rlp_laws_def
proof (intro conjI allI impI)
  fix b l assume "refLogDec b = Ok l"
  then obtain ts d where *: "AddressLength \<le> length b" "parseTopics (drop AddressLength b) = Some (ts, d)"
      "l = \<lparr>l_Address = take AddressLength b, l_Topics = ts, l_Data = d\<rparr>"
    by (auto simp: refLogDec_def split: if_splits option.splits)
  note ** = parseTopics_Some [OF *(2)]
  with * show "logGood l" by (simp add: logGood_def)
  then show "Ok (refLogEnc l) = Ok b"
    using * ** append_take_drop_id [of AddressLength b] by (simp add: refLogEnc_def)
next
  fix b l assume "logGood l" "Ok (refLogEnc l) = Ok b"
  then show "refLogDec b = Ok l"
    by (auto simp: refLogEnc_def refLogDec_def parseTopics_concat logGood_def)
qed

section \<open>Sample values\<close>

definition sampleHash :: bytes where "sampleHash = replicate HashLength 0xab"
definition sampleAddress :: bytes where "sampleAddress = replicate AddressLength 0xcd"

definition sampleHeader :: header where
  "sampleHeader =
     \<lparr>h_ParentHash = sampleHash, h_UncleHash = sampleHash, h_Coinbase = sampleAddress,
      h_Root = sampleHash, h_TxHash = sampleHash, h_ReceiptHash = sampleHash,
      h_Bloom = replicate BloomByteLength 0, h_Difficulty = Some 17, h_Number = Some 0,
      h_GasLimit = 5000, h_GasUsed = 21, h_Time = 1438269988, h_Extra = [1, 2], h_MixDigest = sampleHash,
      h_Nonce = replicate BlockNonceLength 9, h_BaseFee = Some 1000, h_WithdrawalsHash = None\<rparr>"

definition shanghaiHeader :: header where
  "shanghaiHeader = sampleHeader\<lparr>h_WithdrawalsHash := Some sampleHash\<rparr>"

definition sampleAccount :: stateAccount where
  "sampleAccount = \<lparr>a_Nonce = 1, a_Balance = Some 1000000000, a_Root = sampleHash, a_CodeHash = sampleHash\<rparr>"

definition sampleLog :: log where
  "sampleLog = \<lparr>l_Address = sampleAddress, l_Topics = [sampleHash], l_Data = [7, 8]\<rparr>"

definition sampleLegacyTx :: legacyTx where
  "sampleLegacyTx =
     \<lparr>lt_Nonce = 3, lt_GasPrice = Some 10, lt_Gas = 21000, lt_To = Some sampleAddress, lt_Value = Some 99,
      lt_Data = [], lt_V = Some 37, lt_R = Some 5, lt_S = Some 6\<rparr>"

definition sampleAccessListTx :: accessListTx where
  "sampleAccessListTx =
     \<lparr>al_ChainID = Some 1, al_Nonce = 4, al_GasPrice = Some 10, al_Gas = 21000, al_To = None,
      al_Value = Some 0, al_Data = [1], al_AccessList = [\<lparr>at_Address = sampleAddress, at_StorageKeys = [sampleHash]\<rparr>],
      al_V = Some 1, al_R = Some 5, al_S = Some 6\<rparr>"

definition sampleDynamicFeeTx :: dynamicFeeTx where
  "sampleDynamicFeeTx =
     \<lparr>df_ChainID = Some 1, df_Nonce = 4, df_GasTipCap = Some 2, df_GasFeeCap = Some 30, df_Gas = 21000,
      df_To = Some sampleAddress, df_Value = Some 1, df_Data = [1], df_AccessList = [], df_V = Some 0,
      df_R = Some 5, df_S = Some 6\<rparr>"

definition sampleReceipt :: receipt where
  "sampleReceipt =
     \<lparr>r_Type = DynamicFeeTxType, r_PostState = [], r_Status = ReceiptStatusSuccessful,
      r_CumulativeGasUsed = 21000, r_Bloom = replicate BloomByteLength 0, r_Logs = [sampleLog]\<rparr>"

definition sampleLeaf :: "rlpItem list" where
  "sampleLeaf = [RBytes [0x20, 0xab], RBytes [5, 6]]"

definition sampleExtension :: "rlpItem list" where
  "sampleExtension = [RBytes [0x1a], RBytes sampleHash]"

definition sampleBranch :: "rlpItem list" where
  "sampleBranch = [RBytes sampleHash, RList [RBytes [0x3a], RBytes [7]]] @ replicate 14 (RBytes []) @ [RBytes [9]]"

definition samplePadded :: "rlpItem list" where
  "samplePadded = [RBytes [0x2f, 0xab], RBytes [5, 6]]"

definition sampleEmptyPath :: "rlpItem list" where
  "sampleEmptyPath = [RBytes [], RBytes [5]]"

lemmas sample_defs = sampleHash_def sampleAddress_def sampleHeader_def shanghaiHeader_def
  sampleAccount_def sampleLog_def sampleLegacyTx_def sampleAccessListTx_def sampleDynamicFeeTx_def
  sampleReceipt_def sampleLeaf_def sampleExtension_def sampleBranch_def samplePadded_def
  sampleEmptyPath_def

definition headerTable :: "(header \<times> bytes) list" where
  "headerTable = [(sampleHeader, [0xf9]), (shanghaiHeader, [0xfa])]"

definition headersTable :: "(header list \<times> bytes) list" where
  "headersTable = [([], [0xc0]), ([sampleHeader], [0xc1])]"

definition accountTable :: "(stateAccount \<times> bytes) list" where
  "accountTable = [(sampleAccount, [0xc4])]"

definition receiptTable :: "(receiptRLP \<times> bytes) list" where
  "receiptTable = [(rctRLPOf sampleReceipt, [0xc8])]"

definition fieldsTable :: "(rlpItem list \<times> bytes) list" where
  "fieldsTable = [(sampleLeaf, [0xd0]), (sampleExtension, [0xd1]), (sampleBranch, [0xd2]),
     (samplePadded, [0xd3]), (sampleEmptyPath, [0xd4]), ([], [0xc0])]"

definition refChainId :: "int \<Rightarrow> int" where
  "refChainId v = (v - 35) div 2"

section \<open>Receipts\<close>

definition refRctUnmarshal :: "bytes \<Rightarrow> receipt res" where
  "refRctUnmarshal b =
     andThen
       (case b of
          [] \<Rightarrow> Fail (Err ''rlp: malformed input'')
        | t # r \<Rightarrow>
            if t = AccessListTxType \<or> t = DynamicFeeTxType then
              andThen (tableDec receiptTable r) (\<lambda>d. Ok (t, d))
            else andThen (tableDec receiptTable b) (\<lambda>d. Ok (LegacyTxType, d))) (\<lambda>p.
     if rctDataCanon p then Ok (receiptOf p) else Fail (Err ''invalid receipt status''))"

lemma receiptTable_laws: "rlp_laws (\<lambda>_. True) (tableEnc receiptTable) (tableDec receiptTable)"
  by (rule table_laws) (simp add: tableOk_def receiptTable_def)

section \<open>The instance\<close>

definition txTable :: "(txData \<times> bytes) list" where
  "txTable = [(LegacyTxData sampleLegacyTx, [0xc5]), (AccessListTxData sampleAccessListTx, [1, 0xc6]),
     (DynamicFeeTxData sampleDynamicFeeTx, [2, 0xc7])]"

definition refEnv0 :: ext where
  "refEnv0 =
     \<lparr>bytesToHash = fitBytes HashLength, bytesToAddress = fitBytes AddressLength, bytesToBloom = refBloom,
      keccak256 = fitBytes HashLength, mhEncode = (\<lambda>d c. Ok (0x1b # d)), mhDecode = refMhDecode,
      newCidV1 = refCid, cidHash = drop 9, cidCodec = refCodec,
      prefixSum = (\<lambda>c h d. Ok (refCid c (0x1b # fitBytes HashLength d))),
      rlpDecodeFields = tableDec fieldsTable, rlpEncodeFields = tableEnc fieldsTable,
      rlpDecodeHeader = tableDec headerTable, rlpEncodeHeader = tableEnc headerTable,
      rlpDecodeHeaders = tableDec headersTable, rlpEncodeHeaders = tableEnc headersTable,
      rlpDecodeLog = refLogDec, rlpEncodeLog = (\<lambda>l. Ok (refLogEnc l)),
      rlpDecodeAccount = tableDec accountTable, rlpEncodeAccount = tableEnc accountTable,
      rlpEncodeLegacyTx = tableEnc [(sampleLegacyTx, [0xc5])],
      rlpEncodeAccessListTx = tableEnc [(sampleAccessListTx, [0xc6])],
      rlpEncodeDynamicFeeTx = tableEnc [(sampleDynamicFeeTx, [0xc7])],
      deriveChainId = refChainId, txUnmarshalBinary = (\<lambda>_. Fail (Err ''rlp: malformed input'')),
      rlpEncodeReceiptRLP = tableEnc receiptTable, rctUnmarshalBinary = refRctUnmarshal,
      rlpEncodeUint = (\<lambda>n. Ok (nat_be n)), trieNew = Ok [],
      trieUpdate = (\<lambda>t k v. Ok (t @ [(k, v)])),
      trieHash = (\<lambda>t. fitBytes HashLength (concat (map snd t)))\<rparr>"

definition refEnv :: ext where
  "refEnv = refEnv0\<lparr>txUnmarshalBinary :=
     (\<lambda>b. andThen (tableDec txTable b) (\<lambda>d. Ok (txView refEnv0 d)))\<rparr>"

lemmas refEnv_defs = refEnv_def refEnv0_def

lemma length_fitBytes [simp]: "length (fitBytes n b) = n"
  by (simp add: fitBytes_def)

lemma ref_conv: "conv_laws refEnv"
  by (simp add: conv_laws_def refEnv_defs fitBytes_id refBloom_def)

lemma ref_cid: "cid_laws refEnv"
  by (simp add: cid_laws_def refEnv_defs) (simp add: refCid_def putUint64_def)

lemma ref_trie: "trie_laws refEnv"
  by (simp add: trie_laws_def refEnv_defs)

lemma length_samples [simp]: "length sampleHash = HashLength" "length sampleAddress = AddressLength"
  by (simp_all add: sampleHash_def sampleAddress_def)

lemma headerGood_sample: "headerGood sampleHeader"
  by (simp add: headerGood_def headerCanon_def sampleHeader_def)

lemma headerCanon_shanghai: "headerCanon shanghaiHeader"
  by (simp add: headerCanon_def shanghaiHeader_def sampleHeader_def)

lemma sample_headers_differ: "sampleHeader \<noteq> shanghaiHeader"
  by (simp add: shanghaiHeader_def sampleHeader_def)

lemma header_lawful_ref: "header_lawful refEnv"
proof -
  have "tableOk headerCanon headerTable"
    using headerGood_sample headerCanon_shanghai sample_headers_differ
    by (simp add: tableOk_def headerTable_def headerGood_def)
  from table_laws [OF this] show ?thesis
    by (simp add: header_lawful_def ref_conv ref_cid) (simp add: refEnv_defs)
qed

lemma uncles_lawful_ref: "uncles_lawful refEnv"
proof -
  have "tableOk (list_all headerCanon) headersTable"
    using headerGood_sample by (simp add: tableOk_def headersTable_def headerGood_def)
  from table_laws [OF this] show ?thesis
    by (simp add: uncles_lawful_def ref_conv ref_cid) (simp add: refEnv_defs)
qed

lemma accountGood_sample: "accountGood sampleAccount"
  by (simp add: accountGood_def accountCanon_def sampleAccount_def)

lemma account_lawful_ref: "account_lawful refEnv"
proof -
  have "tableOk accountCanon accountTable"
    using accountGood_sample by (simp add: tableOk_def accountTable_def accountGood_def)
  from table_laws [OF this] show ?thesis
    by (simp add: account_lawful_def ref_conv ref_cid) (simp add: refEnv_defs)
qed

lemma log_lawful_ref: "log_lawful refEnv"
  using refLog_laws by (simp add: log_lawful_def ref_conv) (simp add: refEnv_defs)

lemma logGood_sample: "logGood sampleLog"
  by (simp add: logGood_def sampleLog_def)

lemma rctCanon_sample: "rctCanon sampleReceipt"
  by (simp add: rctCanon_def sampleReceipt_def logGood_sample)

lemma txCanon_samples:
  "txCanon (LegacyTxData sampleLegacyTx)" "txCanon (AccessListTxData sampleAccessListTx)"
  "txCanon (DynamicFeeTxData sampleDynamicFeeTx)"
  by (simp_all add: sampleLegacyTx_def sampleAccessListTx_def sampleDynamicFeeTx_def nonneg_def
      toCanon_def accessCanon_def)

lemma txView_ref: "txView refEnv d = txView refEnv0 d"
  by (cases d) (simp_all add: refEnv_def)

lemma txMarshal_ref: "txMarshal refEnv d = Ok b \<longleftrightarrow> (d, b) \<in> set txTable"
  by (cases d) (auto simp: refEnv_defs tableEnc_Ok txTable_def txtype_defs)

lemma tx_lawful_ref: "tx_lawful refEnv"
proof -
  have "txUnmarshalBinary refEnv b = andThen (tableDec txTable b) (\<lambda>d. Ok (txView refEnv0 d))" for b
    by (simp add: refEnv_def)
  moreover have "distinct (map snd txTable)" by (simp add: txTable_def)
  moreover have "txCanon d" if "(d, b) \<in> set txTable" for d b
    using that txCanon_samples by (auto simp: txTable_def simp del: txCanon.simps)
  ultimately show ?thesis
    by (auto simp: tx_lawful_def ref_conv tx_laws_def txMarshal_ref txView_ref tableDec_Ok)
qed

lemma refRctUnmarshal_Ok:
  assumes "refRctUnmarshal b = Ok r"
  shows "\<exists>t d c. rctDataCanon (t, d) \<and> r = receiptOf (t, d) \<and> tableDec receiptTable c = Ok d \<and>
    b = (if t = LegacyTxType then c else t # c)"
proof (cases b)
  case (Cons t r')
  show ?thesis
  proof (cases "t = AccessListTxType \<or> t = DynamicFeeTxType")
    case True
    then have "t \<noteq> LegacyTxType" by (auto simp: txtype_defs)
    moreover obtain d where "tableDec receiptTable r' = Ok d" "rctDataCanon (t, d)" "r = receiptOf (t, d)"
      using assms True by (auto simp: refRctUnmarshal_def Cons split: if_splits)
    ultimately show ?thesis using Cons by (intro exI [of _ t] exI [of _ d] exI [of _ r']) simp
  next
    case False
    obtain d where "tableDec receiptTable b = Ok d" "rctDataCanon (LegacyTxType, d)" "r = receiptOf (LegacyTxType, d)"
      using assms False by (auto simp: refRctUnmarshal_def Cons split: if_splits)
    then show ?thesis by (intro exI [of _ LegacyTxType] exI [of _ d] exI [of _ b]) simp
  qed
qed (use assms in \<open>simp add: refRctUnmarshal_def\<close>)

lemma rct_laws_ref: "rlp_laws rctCanon (rctMarshal refEnv) (rctUnmarshalBinary refEnv)"
proof -
  have tab: "tableEnc receiptTable d = Ok b \<longleftrightarrow> tableDec receiptTable b = Ok d" for d b
    using rlp_lawsD(2,3) [OF receiptTable_laws] by blast
  have first: "\<exists>t r. b = t # r \<and> t \<noteq> AccessListTxType \<and> t \<noteq> DynamicFeeTxType"
    if "tableDec receiptTable b = Ok d" for d b
    using that by (auto simp: tableDec_Ok receiptTable_def txtype_defs)
  have marshal: "rctMarshal refEnv r = andThen (tableEnc receiptTable (rctRLPOf r))
      (\<lambda>b. Ok (if r_Type r = LegacyTxType then b else r_Type r # b))" for r
    by (simp add: rctMarshal_def refEnv_defs)
  have unmarshal: "rctUnmarshalBinary refEnv = refRctUnmarshal"
    by (simp add: refEnv_defs)
  have types: "AccessListTxType \<noteq> LegacyTxType" "DynamicFeeTxType \<noteq> LegacyTxType" by (simp_all add: txtype_defs)
  show ?thesis
    unfolding rlp_laws_def
  proof (intro conjI allI impI)
    fix b r assume "rctUnmarshalBinary refEnv b = Ok r"
    then have "refRctUnmarshal b = Ok r" by (simp only: unmarshal)
    from refRctUnmarshal_Ok [OF this] obtain t d c where p: "rctDataCanon (t, d)" "r = receiptOf (t, d)"
        "tableDec receiptTable c = Ok d" "b = (if t = LegacyTxType then c else t # c)"
      by blast
    then have "rctCanon r" "r_Type r = t" "rctRLPOf r = d"
      by (auto simp: rctDataCanon_def rctData_def)
    with p show "rctCanon r" "rctMarshal refEnv r = Ok b" by (auto simp: marshal tab)
  next
    fix b r assume r: "rctCanon r" "rctMarshal refEnv r = Ok b"
    then obtain c where c: "tableDec receiptTable c = Ok (rctRLPOf r)"
        "b = (if r_Type r = LegacyTxType then c else r_Type r # c)"
      by (auto simp: marshal tab)
    moreover obtain u v where "c = u # v" "u \<noteq> AccessListTxType" "u \<noteq> DynamicFeeTxType" using first [OF c(1)] by auto
    moreover have "r_Type r \<in> {LegacyTxType, AccessListTxType, DynamicFeeTxType}"
      using r(1) by (simp add: rctCanon_def)
    ultimately show "rctUnmarshalBinary refEnv b = Ok r"
      using rctDataCanon_rctData [OF r(1)] receiptOf_rctData [OF r(1)] types
      by (auto simp: unmarshal refRctUnmarshal_def rctData_def)
  qed
qed

lemma rct_lawful_ref: "rct_lawful refEnv"
  by (simp add: rct_lawful_def ref_conv ref_cid ref_trie rct_laws_ref)

lemma trie_lawful_ref: "trie_lawful refEnv"
proof -
  have "tableOk (\<lambda>_. True) fieldsTable"
    by (simp add: tableOk_def fieldsTable_def sampleLeaf_def sampleExtension_def sampleBranch_def
        samplePadded_def sampleEmptyPath_def)
  from table_laws [OF this] show ?thesis
    by (simp add: trie_lawful_def tx_lawful_ref rct_lawful_ref account_lawful_ref log_lawful_ref)
      (simp add: refEnv_defs)
qed

end
