(* ===== verification/Codec_Properties.thy ===== *)
theory Codec_Properties
  imports Reference_Env
begin

text \<open>
  The correctness properties of the codecs: round trips between blocks and nodes for every
  package, and the behaviour on inputs the codecs reject or cannot carry.  Each property with
  hypotheses is followed by an instance on the reference environment.
\<close>

section \<open>From blocks to nodes and back\<close>

text \<open>C1: A header block that RLP accepts and that has no withdrawals hash decodes, from any reader
  that yields it, into the node of its header, and encoding that node writes the block back.\<close>

theorem header_block_roundtrip:
  assumes "header_lawful E" "readSrc rd = Ok b" "rlpDecodeHeader E b = Ok h" "h_WithdrawalsHash h = None"
  shows "header_Decode E rd = Ok (headerNode E h) \<and>
    header_Encode E (NTyped (headerNode E h)) bytesBuffer = Ok b"
proof -
  have "headerGood h"
    using assms rlp_lawsD(1) [OF header.rlp] by (auto simp: headerGood_def)
  from header.block_roundtrip [OF assms(1,3) this] assms(2) show ?thesis
    by (simp add: header_Decode_def header_DecodeBytes_decodes header_Encode_buffer)
qed

theorem header_block_roundtrip_witness:
  "header_Decode refEnv (HasBytes [0xf9]) = Ok (headerNode refEnv sampleHeader) \<and>
   header_Encode refEnv (NTyped (headerNode refEnv sampleHeader)) bytesBuffer = Ok [0xf9]"
  by (rule header_block_roundtrip [OF header_lawful_ref])
    (simp_all add: refEnv_defs headerTable_def tableDec_def sampleHeader_def)

text \<open>C2: A transaction that \<open>UnmarshalBinary\<close> accepts, of any of the three types, decodes into its node;
  encoding the node writes the same bytes, and \<open>EncodeTx\<close> gives the transaction back.\<close>

theorem tx_block_roundtrip:
  assumes "tx_lawful E" "readSrc rd = Ok b" "txUnmarshalBinary E b = Ok t"
  shows "tx_Decode E rd = Ok (txNode t) \<and> tx_Encode E (NTyped (txNode t)) bytesBuffer = Ok b \<and>
    EncodeTx E (NTyped (txNode t)) = Ok t"
proof -
  have laws: "tx_laws E" using assms(1) by (simp add: tx_lawful_def)
  then obtain d where d: "txCanon d" "t = txView E d" using assms(3) unfolding tx_laws_def by blast
  have "txDec E b = Ok d" using assms(3) d by (simp add: txDec_def txDataOf_txView)
  note roundtrip = tx.block_roundtrip [OF assms(1) this d(1)]
  from roundtrip(1) have "tx_Decode E rd = Ok (txNode t)"
    using assms(2) by (simp add: tx_Decode_def tx_DecodeBytes_decodes [OF laws] d(2))
  moreover from roundtrip(2) have "tx_Encode E (NTyped (txNode t)) bytesBuffer = Ok b"
    by (simp add: tx_Encode_buffer d(2))
  ultimately show ?thesis using assms(3) by (simp add: EncodeTx_def)
qed

theorem tx_block_roundtrip_witness:
  "tx_Decode refEnv (Stream (Ok [1, 0xc6])) = Ok (txNode (txView refEnv0 (AccessListTxData sampleAccessListTx))) \<and>
   tx_Encode refEnv (NTyped (txNode (txView refEnv0 (AccessListTxData sampleAccessListTx)))) bytesBuffer = Ok [1, 0xc6] \<and>
   EncodeTx refEnv (NTyped (txNode (txView refEnv0 (AccessListTxData sampleAccessListTx))))
     = Ok (txView refEnv0 (AccessListTxData sampleAccessListTx))"
  by (rule tx_block_roundtrip [OF tx_lawful_ref])
    (simp_all add: refEnv_def txTable_def tableDec_def)

text \<open>C3: A receipt that \<open>UnmarshalBinary\<close> accepts decodes into its node; encoding the node writes the
  same bytes, and \<open>EncodeReceipt\<close> into a fresh receipt gives the receipt back.\<close>

theorem rct_block_roundtrip:
  assumes "rct_lawful E" "readSrc rd = Ok b" "rctUnmarshalBinary E b = Ok r"
  shows "rct_Decode E rd = Ok (rctNode E r) \<and> rct_Encode E (NTyped (rctNode E r)) bytesBuffer = Ok b \<and>
    EncodeReceipt E newReceipt (NTyped (rctNode E r)) = Ok r"
proof -
  have canon: "rctCanon r" and conv: "conv_laws E"
    using assms rlp_lawsD(1) by (auto simp: rct_lawful_def)
  have "rctDec E b = Ok (rctData r)" using assms(3) by (simp add: rctDec_def)
  note roundtrip = rct.block_roundtrip [OF assms(1) this rctDataCanon_rctData [OF canon]]
  with assms(2) show ?thesis
    by (simp add: rct_Decode_def rct_DecodeBytes_decodes [OF assms(1)] rct_Encode_buffer
        receiptOf_rctData [OF canon] EncodeReceipt_node [OF conv canon])
qed

theorem rct_block_roundtrip_witness:
  "rct_Decode refEnv (HasBytes [2, 0xc8]) = Ok (rctNode refEnv sampleReceipt) \<and>
   rct_Encode refEnv (NTyped (rctNode refEnv sampleReceipt)) bytesBuffer = Ok [2, 0xc8] \<and>
   EncodeReceipt refEnv newReceipt (NTyped (rctNode refEnv sampleReceipt)) = Ok sampleReceipt"
proof (rule rct_block_roundtrip [OF rct_lawful_ref])
  have "rctMarshal refEnv sampleReceipt = Ok [2, 0xc8]"
    by (simp add: rctMarshal_def refEnv_defs tableEnc_def receiptTable_def sampleReceipt_def txtype_defs)
  then show "rctUnmarshalBinary refEnv [2, 0xc8] = Ok sampleReceipt"
    using rlp_lawsD(3) [OF rct_laws_ref rctCanon_sample] by blast
qed simp

text \<open>C4: A block of a trie node of any of the five tries, whose path has a valid compact encoding and
  whose children and value the codec carries, decodes into its node (a branch, an extension or a
  leaf); encoding the node writes the block back.\<close>

theorem trie_block_roundtrip:
  assumes "trie_lawful E" "readSrc rd = Ok b" "rlpDecodeFields E b = Ok fs" "trieGood E c fs"
  shows "DecodeTrieNode E c rd = Ok (trieNodeOf E c fs) \<and>
    trie_Encode E (NTyped (trieNodeOf E c fs)) bytesBuffer = Ok b"
  using trie.block_roundtrip [OF assms(1,3,4)] assms(2)
  by (simp add: DecodeTrieNode_def trie_DecodeBytes_decodes trie_Encode_buffer)

lemma decodeValue_storage: "decodeValue E EthStorageTrie v = Ok (TnUnion TyValue 4 (TnBytes TyBytes v))"
  by (simp add: decodeValue_member codecValue_def codec_defs)

lemma valueGood_storage: "valueGood E EthStorageTrie v"
  by (simp add: valueGood_def decodeValue_storage valueSupported_def memberSupported_def)
    (simp add: codecValue_def codec_defs)

lemma trieGood_samples:
  "trieGood E EthStorageTrie sampleLeaf" "trieGood E EthStorageTrie sampleExtension"
  "trieGood E EthStorageTrie sampleBranch"
  by (simp_all add: sampleLeaf_def sampleExtension_def sampleBranch_def twoGood_def validCompact_def
      valueGood_storage branchGood_def leafPath_def HashLength_def maxDigest_def
      nth_append list_all_iff)

theorem trie_block_roundtrip_witness:
  "DecodeTrieNode refEnv EthStorageTrie (HasBytes [0xd2]) = Ok (trieNodeOf refEnv EthStorageTrie sampleBranch) \<and>
   trie_Encode refEnv (NTyped (trieNodeOf refEnv EthStorageTrie sampleBranch)) bytesBuffer = Ok [0xd2]"
  by (rule trie_block_roundtrip [OF trie_lawful_ref _ _ trieGood_samples(3)])
    (simp_all add: refEnv_defs fieldsTable_def tableDec_def)

text \<open>C5: A block of uncle headers without withdrawals hashes decodes into the list of their nodes, and
  encoding that list writes the block back.\<close>

theorem uncles_block_roundtrip:
  assumes "uncles_lawful E" "readSrc rd = Ok b" "rlpDecodeHeaders E b = Ok hs"
    and "list_all (\<lambda>h. h_WithdrawalsHash h = None) hs"
  shows "uncles_Decode E rd = Ok (unclesNode E hs) \<and>
    uncles_Encode E (NTyped (unclesNode E hs)) bytesBuffer = Ok b"
proof -
  have "list_all headerGood hs"
    using assms(4) rlp_lawsD(1) [OF uncles.rlp [OF assms(1)] assms(3)]
    by (simp add: headerGood_def list_all_iff)
  from uncles.block_roundtrip [OF assms(1,3) this] assms(2) show ?thesis
    by (simp add: uncles_Decode_def uncles_DecodeBytes_decodes uncles_Encode_buffer)
qed

theorem uncles_block_roundtrip_witness:
  "uncles_Decode refEnv (HasBytes [0xc1]) = Ok (unclesNode refEnv [sampleHeader]) \<and>
   uncles_Encode refEnv (NTyped (unclesNode refEnv [sampleHeader])) bytesBuffer = Ok [0xc1]"
  by (rule uncles_block_roundtrip [OF uncles_lawful_ref])
    (simp_all add: refEnv_defs headersTable_def tableDec_def sampleHeader_def)

text \<open>C6: A state account block whose code hash has a size multihash supports decodes into the node of its
  account, and encoding that node writes the block back.\<close>

theorem account_block_roundtrip:
  assumes "account_lawful E" "readSrc rd = Ok b" "rlpDecodeAccount E b = Ok a"
    and "length (a_CodeHash a) < maxDigest"
  shows "account_Decode E rd = Ok (accountNode E a) \<and>
    account_Encode E (NTyped (accountNode E a)) bytesBuffer = Ok b"
proof -
  have "accountGood a"
    using assms(4) rlp_lawsD(1) [OF account.rlp [OF assms(1)] assms(3)] by (simp add: accountGood_def)
  from account.block_roundtrip [OF assms(1,3) this] assms(2) show ?thesis
    by (simp add: account_Decode_def account_DecodeBytes_decodes account_Encode_buffer)
qed

theorem account_block_roundtrip_witness:
  "account_Decode refEnv (HasBytes [0xc4]) = Ok (accountNode refEnv sampleAccount) \<and>
   account_Encode refEnv (NTyped (accountNode refEnv sampleAccount)) bytesBuffer = Ok [0xc4]"
  by (rule account_block_roundtrip [OF account_lawful_ref])
    (simp_all add: refEnv_defs accountTable_def tableDec_def sampleAccount_def)

text \<open>C7: A log block that RLP accepts decodes into the node of its log, and encoding that node writes the
  block back.\<close>

theorem log_block_roundtrip:
  assumes "log_lawful E" "readSrc rd = Ok b" "rlpDecodeLog E b = Ok l"
  shows "log_Decode E rd = Ok (logNode l) \<and> log_Encode E (NTyped (logNode l)) bytesBuffer = Ok b"
  using log.block_roundtrip [OF assms(1,3) rlp_lawsD(1) [OF log.rlp [OF assms(1)] assms(3)]] assms(2)
  by (simp add: log_Decode_def log_DecodeBytes_decodes log_Encode_buffer)

theorem log_block_roundtrip_witness:
  "log_Decode refEnv (HasBytes (refLogEnc sampleLog)) = Ok (logNode sampleLog) \<and>
   log_Encode refEnv (NTyped (logNode sampleLog)) bytesBuffer = Ok (refLogEnc sampleLog)"
proof (rule log_block_roundtrip [OF log_lawful_ref])
  show "rlpDecodeLog refEnv (refLogEnc sampleLog) = Ok sampleLog"
    using rlp_lawsD(3) [OF refLog_laws logGood_sample] by (simp add: refEnv_defs)
qed simp

section \<open>From nodes to blocks and back\<close>

text \<open>C8: When the node of a header without withdrawals hash has an encoding, decoding it gives the same
  node, and two such nodes with the same encoding are equal.\<close>

theorem header_node_roundtrip:
  assumes "header_lawful E" "headerGood h" "header_Encode E (NTyped (headerNode E h)) bytesBuffer = Ok b"
  shows "header_DecodeBytes E b = Ok (headerNode E h) \<and>
    (\<forall>k. headerGood k \<longrightarrow> header_Encode E (NTyped (headerNode E k)) bytesBuffer = Ok b \<longrightarrow>
      headerNode E k = headerNode E h)"
proof -
  have roundtrip: "header_DecodeBytes E b = Ok (headerNode E k)"
    if "headerGood k" "header_Encode E (NTyped (headerNode E k)) bytesBuffer = Ok b" for k
    using header.node_roundtrip [OF assms(1) that(1)] that(2)
    by (simp add: header_Encode_buffer header_DecodeBytes_decodes)
  show ?thesis using roundtrip [OF assms(2,3)] roundtrip by auto
qed

theorem header_node_roundtrip_witness:
  "header_DecodeBytes refEnv [0xf9] = Ok (headerNode refEnv sampleHeader)"
proof -
  have "header_Encode refEnv (NTyped (headerNode refEnv sampleHeader)) bytesBuffer = Ok [0xf9]"
    unfolding header_Encode_buffer header.encodes_canonical [OF header_lawful_ref headerGood_sample]
    by (simp add: refEnv_defs tableEnc_def headerTable_def)
  from header_node_roundtrip [OF header_lawful_ref headerGood_sample this] show ?thesis by blast
qed

text \<open>When the node of a transaction has an encoding, decoding it gives the same node.\<close>

theorem tx_node_roundtrip:
  assumes "tx_lawful E" "txCanon d" "tx_Encode E (NTyped (txNode (txView E d))) bytesBuffer = Ok b"
  shows "tx_DecodeBytes E b = Ok (txNode (txView E d))"
proof -
  have "tx_laws E" using assms(1) by (simp add: tx_lawful_def)
  with tx.node_roundtrip [OF assms(1,2)] assms(3) show ?thesis
    by (simp add: tx_Encode_buffer tx_DecodeBytes_decodes)
qed

theorem tx_node_roundtrip_witness:
  "tx_DecodeBytes refEnv [2, 0xc7] = Ok (txNode (txView refEnv (DynamicFeeTxData sampleDynamicFeeTx)))"
proof (rule tx_node_roundtrip [OF tx_lawful_ref txCanon_samples(3)])
  show "tx_Encode refEnv (NTyped (txNode (txView refEnv (DynamicFeeTxData sampleDynamicFeeTx)))) bytesBuffer = Ok [2, 0xc7]"
    unfolding tx_Encode_buffer tx.encodes_canonical [OF tx_lawful_ref txCanon_samples(3)]
    by (simp add: refEnv_defs tableEnc_def txtype_defs)
qed

text \<open>C10: When the node of a trie block that the codec carries has an encoding, decoding it for the same
  trie gives the same node.\<close>

theorem trie_node_roundtrip:
  assumes "trie_lawful E" "trieGood E c fs" "trie_Encode E (NTyped (trieNodeOf E c fs)) bytesBuffer = Ok b"
  shows "DecodeTrieNodeBytes E c b = Ok (trieNodeOf E c fs)"
  using trie.node_roundtrip [OF assms(1,2)] assms(3)
  by (simp add: trie_Encode_buffer trie_DecodeBytes_decodes)

theorem trie_node_roundtrip_witness:
  "DecodeTrieNodeBytes refEnv EthStorageTrie [0xd1] = Ok (trieNodeOf refEnv EthStorageTrie sampleExtension)"
proof (rule trie_node_roundtrip [OF trie_lawful_ref trieGood_samples(2)])
  show "trie_Encode refEnv (NTyped (trieNodeOf refEnv EthStorageTrie sampleExtension)) bytesBuffer = Ok [0xd1]"
    unfolding trie_Encode_buffer trie.encodes_canonical [OF trie_lawful_ref trieGood_samples(2)]
    by (simp add: refEnv_defs tableEnc_def fieldsTable_def sampleExtension_def sampleLeaf_def)
qed

end
