(* ===== verification/Assembler_Machine.thy ===== *)
theory Assembler_Machine
  imports Assembler_Laws
begin

text \<open>
  The struct assembler as a state machine.  A client may call its methods in any order, and the
  child assembler it was given may report a value once; a call that panics or returns an error is
  no step.  The invariant says which fields hold a value in each state, so that a finished struct
  is complete whatever the client did.
\<close>

section \<open>Steps\<close>

text \<open>The child assembler of the current field has not reported a value yet.\<close>

definition pending :: "sasm \<Rightarrow> bool" where
  "pending st \<longleftrightarrow>
     (if fnullable (curField st) then sa_m st ! sa_f st = allowNull else sa_cm st = Maybe_Absent)"

inductive asm_step :: "sasm \<Rightarrow> sasm \<Rightarrow> bool" where
  step_key: "assembleKey st = Ok st' \<Longrightarrow> asm_step st st'"
| step_keyString: "keyAssignString st k = Ok st' \<Longrightarrow> asm_step st st'"
| step_value: "assembleValue st = Ok st' \<Longrightarrow> asm_step st st'"
| step_entry: "assembleEntry st k = Ok st' \<Longrightarrow> asm_step st st'"
| step_assign: "sa_state st = maState_midValue \<Longrightarrow> pending st \<Longrightarrow>
    (r = None \<longrightarrow> fnullable (curField st)) \<Longrightarrow> asm_step st (storeChild st r)"
| step_finish: "sa_finish st = Ok st' \<Longrightarrow> asm_step st st'"

section \<open>Invariant\<close>

definition assigned :: "sasm \<Rightarrow> nat \<Rightarrow> bool" where
  "assigned st i \<longleftrightarrow>
     (if fnullable (fieldsOf (sa_ty st) ! i)
      then sa_m st ! i = Maybe_Null \<or> sa_m st ! i = Maybe_Value \<and> sa_w st ! i \<noteq> None
      else sa_w st ! i \<noteq> None)"

definition seenExcept :: "sasm \<Rightarrow> nat set \<Rightarrow> bool" where
  "seenExcept st X \<longleftrightarrow> (\<forall>i. bit (sa_s st) i \<longrightarrow> i < length (fieldsOf (sa_ty st)) \<and> (i \<notin> X \<longrightarrow> assigned st i))"

definition sa_shape :: "tyname \<Rightarrow> sasm \<Rightarrow> bool" where
  "sa_shape ty st \<longleftrightarrow> sa_ty st = ty \<and> length (sa_w st) = length (fieldsOf ty) \<and>
     length (sa_m st) = length (fieldsOf ty)"

definition current :: "sasm \<Rightarrow> bool" where
  "current st \<longleftrightarrow> sa_f st < length (fieldsOf (sa_ty st)) \<and> bit (sa_s st) (sa_f st)"

fun stateInv :: "maState \<Rightarrow> sasm \<Rightarrow> bool" where
  "stateInv maState_initial st \<longleftrightarrow> sa_cm st = Maybe_Absent \<and> seenExcept st {}"
| "stateInv maState_midKey st \<longleftrightarrow> sa_cm st = Maybe_Absent \<and> seenExcept st {}"
| "stateInv maState_expectValue st \<longleftrightarrow> sa_cm st = Maybe_Absent \<and> current st \<and> seenExcept st {sa_f st}"
| "stateInv maState_midValue st \<longleftrightarrow> current st \<and> seenExcept st {sa_f st} \<and>
     (fnullable (curField st) \<longrightarrow> sa_cm st = Maybe_Absent) \<and>
     (pending st \<or> sa_settled st \<and> assigned st (sa_f st))"
| "stateInv maState_finished st \<longleftrightarrow> seenExcept st {} \<and> (\<forall>i<length (fieldsOf (sa_ty st)). bit (sa_s st) i)"

definition machineInv :: "tyname \<Rightarrow> sasm \<Rightarrow> bool" where
  "machineInv ty st \<longleftrightarrow> sa_shape ty st \<and> stateInv (sa_state st) st"

lemma machineInv_new: "machineInv ty (newStructAsm ty wnil)"
  by (simp add: machineInv_def sa_shape_def newStructAsm_def seenExcept_def)

lemma seenExcept_fold: "seenExcept st {sa_f st} \<Longrightarrow> assigned st (sa_f st) \<Longrightarrow> seenExcept st {}"
  by (auto simp: seenExcept_def)

lemma pending_not_tidy: "pending st \<Longrightarrow> sa_tidy st = None"
  by (auto simp: pending_def sa_tidy_def)

lemma seenExcept_cong:
  "sa_ty st = sa_ty st' \<Longrightarrow> sa_s st = sa_s st' \<Longrightarrow> sa_w st = sa_w st' \<Longrightarrow> sa_m st = sa_m st' \<Longrightarrow>
   seenExcept st X = seenExcept st' X"
  by (simp add: seenExcept_def assigned_def)

text \<open>The state switch: whatever passes it is between two entries.\<close>

lemma sa_tidy_frame:
  "sa_tidy st = Some st' \<Longrightarrow> sa_state st' = maState_initial \<and> sa_ty st' = sa_ty st \<and> sa_s st' = sa_s st \<and>
   sa_w st' = sa_w st \<and> sa_m st' = sa_m st"
  by (auto simp: sa_tidy_def split: if_splits maybe.splits)

lemma sa_tidy_cm:
  "sa_tidy st = Some st' \<Longrightarrow> sa_cm st' = (if fnullable (curField st) then sa_cm st else Maybe_Absent)"
  by (auto simp: sa_tidy_def split: if_splits maybe.splits)

lemma sa_ready_inv:
  assumes "machineInv ty st" "sa_ready st = Ok st'"
  shows "machineInv ty st' \<and> sa_state st' = maState_initial"
proof (cases "sa_state st")
  case maState_midValue
  then have tidy: "sa_tidy st = Some st'" using assms(2) by (simp add: sa_ready_def split: option.splits)
  then have "\<not> pending st" using pending_not_tidy by fastforce
  then have "seenExcept st {}"
    using assms(1) maState_midValue seenExcept_fold by (auto simp: machineInv_def)
  moreover note frame = sa_tidy_frame [OF tidy]
  moreover from frame have "seenExcept st' {} = seenExcept st {}" by (intro seenExcept_cong) auto
  moreover have "sa_cm st' = Maybe_Absent"
    using sa_tidy_cm [OF tidy] assms(1) maState_midValue by (simp add: machineInv_def)
  ultimately show ?thesis
    using assms(1) by (simp add: machineInv_def sa_shape_def)
qed (use assms in \<open>auto simp: sa_ready_def machineInv_def\<close>)

text \<open>A fresh key becomes the current field; the others keep their values.\<close>

lemma seenExcept_new_key:
  assumes "seenExcept st {}" "\<not> bit (sa_s st) i" "i < length (fieldsOf (sa_ty st))"
  shows "seenExcept (st\<lparr>sa_s := sa_s st + 2 ^ i, sa_state := q, sa_f := i\<rparr>) {i}"
    and "current (st\<lparr>sa_s := sa_s st + 2 ^ i, sa_state := q, sa_f := i\<rparr>)"
  using assms bit_add_power_int [OF assms(2)] by (auto simp: seenExcept_def assigned_def current_def)

lemma sa_child_inv:
  assumes "sa_shape ty st" "current st" "seenExcept st {sa_f st}" "sa_cm st = Maybe_Absent"
    and "sa_state st = maState_midValue" "sa_child st = Ok st'"
  shows "machineInv ty st'"
proof (cases "fnullable (curField st)")
  case True
  then have "st' = st\<lparr>sa_m := (sa_m st)[sa_f st := allowNull]\<rparr>"
    using assms(6) by (simp add: sa_child_def split: if_splits)
  with assms True show ?thesis
    by (auto simp: machineInv_def sa_shape_def current_def seenExcept_def assigned_def pending_def
        curField_def nth_list_update)
next
  case False
  then have "st' = st" using assms(6) by (simp add: sa_child_def split: if_splits)
  with assms False show ?thesis by (simp add: machineInv_def pending_def)
qed

lemma seenExcept_state [simp]:
  "seenExcept (st\<lparr>sa_state := q\<rparr>) X = seenExcept st X" "current (st\<lparr>sa_state := q\<rparr>) = current st"
  "sa_shape ty (st\<lparr>sa_state := q\<rparr>) = sa_shape ty st"
  by (simp_all add: seenExcept_def assigned_def current_def sa_shape_def)

lemma assembleKey_inv:
  assumes "machineInv ty st" "assembleKey st = Ok st'"
  shows "machineInv ty st'"
proof -
  obtain st1 where st1: "sa_ready st = Ok st1" "st' = st1\<lparr>sa_state := maState_midKey\<rparr>"
    using assms(2) by (auto simp: assembleKey_def)
  from sa_ready_inv [OF assms(1) st1(1)] st1(2) show ?thesis by (auto simp: machineInv_def)
qed

lemma keyAssignString_inv:
  assumes "machineInv ty st" "keyAssignString st k = Ok st'"
  shows "machineInv ty st'"
proof -
  obtain i where i: "sa_state st = maState_midKey" "idxOf (fieldNames (sa_ty st)) k = Some i"
      "\<not> bit (sa_s st) i" "st' = st\<lparr>sa_s := sa_s st + 2 ^ i, sa_state := maState_expectValue, sa_f := i\<rparr>"
    using assms(2) by (auto simp: keyAssignString_def and_exp_neq_0_iff [symmetric] split: if_splits option.splits)
  then have seen: "seenExcept st {}" "sa_cm st = Maybe_Absent" using assms(1) by (auto simp: machineInv_def)
  have "i < length (fieldsOf (sa_ty st))" using idxOf_SomeD [OF i(2)] by simp
  from seenExcept_new_key [OF seen(1) i(3) this, of maState_expectValue] seen i assms(1)
  show ?thesis by (simp add: machineInv_def sa_shape_def)
qed

lemma assembleValue_inv:
  assumes "machineInv ty st" "assembleValue st = Ok st'"
  shows "machineInv ty st'"
proof -
  have st: "sa_state st = maState_expectValue" "sa_child (st\<lparr>sa_state := maState_midValue\<rparr>) = Ok st'"
    using assms(2) by (auto simp: assembleValue_def split: maState.splits)
  with assms(1) show ?thesis by (intro sa_child_inv [OF _ _ _ _ _ st(2)]) (auto simp: machineInv_def)
qed

lemma assembleEntry_inv:
  assumes "machineInv ty st" "assembleEntry st k = Ok st'"
  shows "machineInv ty st'"
proof -
  obtain st1 i where st1: "sa_ready st = Ok st1" "idxOf (fieldNames (sa_ty st1)) k = Some i" "\<not> bit (sa_s st1) i"
      "sa_child (st1\<lparr>sa_s := sa_s st1 + 2 ^ i, sa_state := maState_midValue, sa_f := i\<rparr>) = Ok st'"
    using assms(2) by (auto simp: assembleEntry_def and_exp_neq_0_iff [symmetric] split: if_splits option.splits)
  have inv: "machineInv ty st1" "sa_state st1 = maState_initial" using sa_ready_inv [OF assms(1) st1(1)] by auto
  then have seen: "seenExcept st1 {}" "sa_cm st1 = Maybe_Absent" by (auto simp: machineInv_def)
  have "i < length (fieldsOf (sa_ty st1))" using idxOf_SomeD [OF st1(2)] by simp
  from seenExcept_new_key [OF seen(1) st1(3) this, of maState_midValue] seen inv(1) show ?thesis
    by (intro sa_child_inv [OF _ _ _ _ _ st1(4)]) (simp_all add: machineInv_def sa_shape_def)
qed

lemma storeChild_inv:
  assumes "machineInv ty st" "sa_state st = maState_midValue" "r = None \<longrightarrow> fnullable (curField st)"
  shows "machineInv ty (storeChild st r)"
  using assms
  by (cases r)
    (auto simp: machineInv_def sa_shape_def current_def seenExcept_def assigned_def pending_def curField_def
      sa_settled_def nth_list_update)

lemma sa_finish_inv:
  assumes "machineInv ty st" "sa_finish st = Ok st'"
  shows "machineInv ty st'"
proof -
  obtain st1 where st1: "sa_ready st = Ok st1" "st' = st1\<lparr>sa_state := maState_finished\<rparr>"
      "sa_s st1 AND mask (length (fieldsOf (sa_ty st1))) = mask (length (fieldsOf (sa_ty st1)))"
    using assms(2) by (auto simp: sa_finish_def Let_def split: if_splits)
  then show ?thesis
    using sa_ready_inv [OF assms(1) st1(1)] by (auto simp: machineInv_def and_mask_eq_mask_iff)
qed

lemmas machine_invs = assembleKey_inv keyAssignString_inv assembleValue_inv assembleEntry_inv
  storeChild_inv sa_finish_inv

lemma asm_step_inv: "asm_step st st' \<Longrightarrow> machineInv ty st \<Longrightarrow> machineInv ty st'"
  by (induction rule: asm_step.induct) (auto intro: machine_invs)

lemma asm_steps_inv: "asm_step\<^sup>*\<^sup>* st st' \<Longrightarrow> machineInv ty st \<Longrightarrow> machineInv ty st'"
  by (induction rule: rtranclp_induct) (auto intro: asm_step_inv)

section \<open>Finished structs\<close>

lemma assigned_build:
  "assigned st i \<Longrightarrow> i < length (fieldsOf (sa_ty st)) \<Longrightarrow>
   (if fnullable (fieldsOf (sa_ty st) ! i) \<and> sa_m st ! i = Maybe_Null then None else sa_w st ! i) = None \<longrightarrow>
   fnullable (fieldsOf (sa_ty st) ! i)"
  by (auto simp: assigned_def split: if_splits)

lemma finished_complete:
  assumes "machineInv ty st" "sa_state st = maState_finished"
  shows "\<exists>fs. sa_build st = TnStruct ty fs \<and> length fs = length (fieldsOf ty) \<and>
    (\<forall>i<length fs. fs ! i = None \<longrightarrow> fnullable (fieldsOf ty ! i))"
proof -
  have ty: "sa_ty st = ty" and all: "\<And>i. i < length (fieldsOf (sa_ty st)) \<Longrightarrow> assigned st i"
    using assms by (auto simp: machineInv_def sa_shape_def seenExcept_def)
  have "\<forall>i<length (fieldsOf (sa_ty st)).
     (if fnullable (fieldsOf (sa_ty st) ! i) \<and> sa_m st ! i = Maybe_Null then None else sa_w st ! i) = None \<longrightarrow>
     fnullable (fieldsOf (sa_ty st) ! i)"
    using assigned_build all by blast
  then show ?thesis by (auto simp: sa_build_def sa_fields_def ty)
qed

text \<open>C29: Whatever sequence of calls a client makes on a fresh struct assembler, once the assembler is finished
  every field of the struct has been assigned, and only nullable fields are null.\<close>

theorem asm_finished_complete:
  assumes "asm_step\<^sup>*\<^sup>* (newStructAsm ty False) st" "sa_state st = maState_finished"
  shows "\<exists>fs. sa_build st = TnStruct ty fs \<and> length fs = length (fieldsOf ty) \<and>
    (\<forall>i<length fs. fs ! i = None \<longrightarrow> fnullable (fieldsOf ty ! i))"
  using finished_complete [OF asm_steps_inv [OF assms(1) machineInv_new] assms(2)] .

text \<open>A run of the machine that builds an access element.\<close>

definition elementRun :: "sasm list" where
  "elementRun =
     (let s0 = newStructAsm TyAccessElement False;
          s1 = s0\<lparr>sa_s := 1, sa_state := maState_midValue\<rparr>;
          s2 = s1\<lparr>sa_w := [Some (TnBytes TyAddress [1]), None], sa_cm := Maybe_Value\<rparr>;
          s3 = s2\<lparr>sa_cm := Maybe_Absent, sa_s := 3, sa_f := 1\<rparr>;
          s4 = s3\<lparr>sa_w := [Some (TnBytes TyAddress [1]), Some (TnList TyStorageKeys [])], sa_cm := Maybe_Value\<rparr>;
          s5 = s4\<lparr>sa_cm := Maybe_Absent, sa_state := maState_finished\<rparr>
      in [s0, s1, s2, s3, s4, s5])"

lemma elementRun_calls:
  "assembleEntry (elementRun ! 0) ''Address'' = Ok (elementRun ! 1)"
  "sa_state (elementRun ! 1) = maState_midValue \<and> pending (elementRun ! 1)"
  "storeChild (elementRun ! 1) (Some (TnBytes TyAddress [1])) = elementRun ! 2"
  "assembleEntry (elementRun ! 2) ''StorageKeys'' = Ok (elementRun ! 3)"
  "sa_state (elementRun ! 3) = maState_midValue \<and> pending (elementRun ! 3)"
  "storeChild (elementRun ! 3) (Some (TnList TyStorageKeys [])) = elementRun ! 4"
  "sa_finish (elementRun ! 4) = Ok (elementRun ! 5)"
  by code_simp+

lemma elementRun_steps: "asm_step\<^sup>*\<^sup>* (newStructAsm TyAccessElement False) (elementRun ! 5)"
proof -
  have "asm_step (elementRun ! i) (elementRun ! Suc i)" if "i < 5" for i
    using that elementRun_calls step_assign [of "elementRun ! 1" "Some (TnBytes TyAddress [1])"]
      step_assign [of "elementRun ! 3" "Some (TnList TyStorageKeys [])"]
    by (auto simp: less_Suc_eq numeral_eq_Suc intro: step_entry step_finish)
  then have "asm_step\<^sup>*\<^sup>* (elementRun ! 0) (elementRun ! i)" if "i \<le> 5" for i
    using that by (induction i) (auto intro: rtranclp.rtrancl_into_rtrancl)
  from this [of 5] show ?thesis by (simp add: elementRun_def Let_def)
qed

theorem asm_finished_complete_witness:
  "\<exists>fs. sa_build (elementRun ! 5) = TnStruct TyAccessElement fs \<and> length fs = 2 \<and> fs ! 0 \<noteq> None \<and> fs ! 1 \<noteq> None"
proof -
  have fields: "fieldsOf TyAccessElement = [goField ''Address'' TyAddress, goField ''StorageKeys'' TyStorageKeys]"
    by (simp add: fieldsOf.simps go_AccessElement_def)
  have "sa_state (elementRun ! 5) = maState_finished" by (simp add: elementRun_def Let_def)
  from asm_finished_complete [OF elementRun_steps this] obtain fs where
      "sa_build (elementRun ! 5) = TnStruct TyAccessElement fs" "length fs = 2"
      "\<forall>i<2. fs ! i = None \<longrightarrow> fnullable (fieldsOf TyAccessElement ! i)"
    by (auto simp: fields)
  then show ?thesis by (auto simp: fields goField_def SpawnStructField_def numeral_2_eq_2 less_Suc_eq all_conj_distrib)
qed

end
