(* ===== verification/Assembler_Typing.thy ===== *)
theory Assembler_Typing
  imports Assembler_Machine
begin

text \<open>
  Type soundness of the assemblers: whatever a client does with them, what they build is a value of
  their type, well-formed all the way down.  The proofs are a small Hoare logic: \<open>okAll P r\<close> says that
  \<open>r\<close>, when it is a value, satisfies \<open>P\<close>, and the rules in \<open>typing\<close> follow the shape of the code.
\<close>

named_theorems typing \<open>rules of okAll\<close>

section \<open>Results that satisfy a predicate\<close>

definition okAll :: "('a \<Rightarrow> bool) \<Rightarrow> 'a res \<Rightarrow> bool" where
  "okAll P r \<longleftrightarrow> (\<forall>x. r = Ok x \<longrightarrow> P x)"

lemma okAllD: "okAll P r \<Longrightarrow> r = Ok x \<Longrightarrow> P x"
  by (simp add: okAll_def)

lemma okAll_Ok [typing]: "P x \<Longrightarrow> okAll P (Ok x)"
  by (simp add: okAll_def)

lemma okAll_Fail [typing]: "okAll P (Fail e)" "okAll P (Panic m)"
  by (simp_all add: okAll_def)

lemma okAll_andThen: "okAll Q r \<Longrightarrow> (\<And>x. Q x \<Longrightarrow> okAll P (f x)) \<Longrightarrow> okAll P (andThen r f)"
  by (cases r) (auto simp: okAll_def)

lemma okAll_any: "(\<And>x. okAll P (f x)) \<Longrightarrow> okAll P (andThen r f)"
  by (cases r) (auto simp: okAll_def)

lemma okAll_wrapErr [typing]: "okAll P r \<Longrightarrow> okAll P (wrapErr m r)"
  by (cases r) (auto simp: okAll_def)

lemma okAll_forEach:
  "I s \<Longrightarrow> (\<And>x s. x \<in> set xs \<Longrightarrow> I s \<Longrightarrow> okAll I (f x s)) \<Longrightarrow> okAll I (forEach f xs s)"
  by (induction xs arbitrary: s) (auto intro: okAll_andThen okAll_Ok)

lemma okAll_runAll: "I s \<Longrightarrow> (\<And>f s. f \<in> set fs \<Longrightarrow> I s \<Longrightarrow> okAll I (f s)) \<Longrightarrow> okAll I (runAll fs s)"
  by (induction fs arbitrary: s) (auto intro: okAll_andThen okAll_Ok)

section \<open>Typed values\<close>

definition typedAs :: "tyname \<Rightarrow> tnode \<Rightarrow> bool" where
  "typedAs ty t \<longleftrightarrow> tnType t = ty \<and> tnWf t"

definition typedOpt :: "tyname \<Rightarrow> bool \<Rightarrow> tnode option \<Rightarrow> bool" where
  "typedOpt ty nul r = (case r of None \<Rightarrow> nul | Some t \<Rightarrow> typedAs ty t)"

text \<open>What is done with a child assembler yields values of the child's type, or a null that is allowed.\<close>

definition typedFn :: "(tyname \<Rightarrow> bool \<Rightarrow> tnode option res) \<Rightarrow> bool" where
  "typedFn x \<longleftrightarrow> (\<forall>ty nul. okAll (typedOpt ty nul) (x ty nul))"

lemma typedFnI [typing]: "(\<And>ty nul. okAll (typedOpt ty nul) (x ty nul)) \<Longrightarrow> typedFn x"
  by (simp add: typedFn_def)

lemma typedFnD: "typedFn x \<Longrightarrow> okAll (typedOpt ty nul) (x ty nul)"
  by (simp add: typedFn_def)

lemma typed_scalars [typing]:
  "okAll (typedOpt ty nul) (assignNull ty nul)" "okAll (typedOpt ty nul) (assignBytes ty b)"
  "okAll (typedOpt ty nul) (assignLink ty l)" "okAll (typedOpt ty nul) (assignString ty s)"
  "okAll (typedOpt ty nul) (assignBool ty c)"
  by (auto simp: okAll_def typedOpt_def typedAs_def assignBytes_def assignLink_def assignString_def
      assignBool_def split: tydecl.splits if_splits)

lemma typed_Some [typing]: "okAll (typedAs ty) r \<Longrightarrow> okAll (typedOpt ty nul) (andThen r (\<lambda>t. Ok (Some t)))"
  by (cases r) (auto simp: okAll_def typedOpt_def)

section \<open>Structs\<close>

definition structOK :: "tyname \<Rightarrow> sasm \<Rightarrow> bool" where
  "structOK ty st \<longleftrightarrow> machineInv ty st \<and> typeDecl ty = DStruct (fieldsOf ty) \<and>
     (\<forall>i<length (fieldsOf ty). \<forall>t. sa_w st ! i = Some t \<longrightarrow> typedAs (ftype (fieldsOf ty ! i)) t)"

lemma structOK_cong: "structOK ty st \<Longrightarrow> sa_w st' = sa_w st \<Longrightarrow> machineInv ty st' \<Longrightarrow> structOK ty st'"
  by (simp add: structOK_def)

lemma structOK_new: "typeDecl ty = DStruct fs \<Longrightarrow> structOK ty (newStructAsm ty wnil)"
  using machineInv_new [of ty wnil] fieldsOf_struct [of ty fs]
  by (simp add: structOK_def) (simp add: newStructAsm_def)

lemma typed_beginStruct [typing]: "okAll (structOK ty) (beginStruct ty)"
  by (auto simp: okAll_def beginStruct_def structOK_new split: tydecl.splits)

lemma sa_ready_w: "sa_ready st = Ok st' \<Longrightarrow> sa_w st' = sa_w st"
  using sa_tidy_frame by (auto simp: sa_ready_def split: maState.splits option.splits)

lemma sa_child_w: "sa_child st = Ok st' \<Longrightarrow> sa_w st' = sa_w st"
  by (auto simp: sa_child_def split: if_splits)

lemma typed_ma_key [typing]: "structOK ty st \<Longrightarrow> okAll (structOK ty) (ma_key st k)"
  unfolding ma_key_def
proof (rule okAll_andThen)
  assume st: "structOK ty st"
  have "sa_w st1 = sa_w st" if "assembleKey st = Ok st1" for st1
    using that sa_ready_w by (auto simp: assembleKey_def)
  with st show "okAll (structOK ty) (assembleKey st)"
    using assembleKey_inv structOK_cong by (auto simp: okAll_def structOK_def)
next
  fix st1 assume st1: "structOK ty st1"
  have "sa_w st2 = sa_w st1" if "keyAssignString st1 k = Ok st2" for st2
    using that by (auto simp: keyAssignString_def split: if_splits option.splits)
  with st1 show "okAll (structOK ty) (keyAssignString st1 k)"
    using keyAssignString_inv by (auto simp: okAll_def structOK_def)
qed

lemma typed_storeChild:
  assumes "structOK ty st" "sa_state st = maState_midValue"
    and "typedOpt (ftype (curField st)) (fnullable (curField st)) r"
  shows "structOK ty (storeChild st r)"
proof -
  have "r = None \<longrightarrow> fnullable (curField st)" using assms(3) by (auto simp: typedOpt_def)
  then have inv: "machineInv ty (storeChild st r)"
    using storeChild_inv assms(1,2) by (simp add: structOK_def)
  have cur: "sa_ty st = ty" "sa_f st < length (fieldsOf ty)" "length (sa_w st) = length (fieldsOf ty)"
    using assms(1,2) by (auto simp: structOK_def machineInv_def sa_shape_def current_def)
  with assms inv show ?thesis
    by (cases r) (auto simp: structOK_def typedOpt_def curField_def nth_list_update)
qed

lemma assembleValue_frame:
  "assembleValue st = Ok st' \<Longrightarrow> sa_w st' = sa_w st \<and> sa_state st' = maState_midValue"
  by (auto simp: assembleValue_def sa_child_def split: maState.splits if_splits)

lemma typed_ma_val [typing]:
  assumes "typedFn x" "structOK ty st"
  shows "okAll (structOK ty) (ma_val st x)"
  unfolding ma_val_def
proof (rule okAll_andThen)
  show "okAll (\<lambda>st. structOK ty st \<and> sa_state st = maState_midValue) (assembleValue st)"
    unfolding okAll_def
  proof (intro allI impI)
    fix st1 assume st1: "assembleValue st = Ok st1"
    with assms(2) have "machineInv ty st1" using assembleValue_inv unfolding structOK_def by blast
    then show "structOK ty st1 \<and> sa_state st1 = maState_midValue"
      using assembleValue_frame [OF st1] structOK_cong [OF assms(2)] by blast
  qed
next
  fix st1 assume "structOK ty st1 \<and> sa_state st1 = maState_midValue"
  then show "okAll (structOK ty)
      (andThen (x (ftype (curField st1)) (fnullable (curField st1))) (\<lambda>r. Ok (storeChild st1 r)))"
    by (intro okAll_andThen [OF typedFnD [OF assms(1)]] okAll_Ok typed_storeChild) auto
qed

lemma typed_entry [typing]:
  "typedFn x \<Longrightarrow> structOK ty ma \<Longrightarrow> okAll (structOK ty) (andThen (ma_key ma k) (\<lambda>ma. ma_val ma x))"
  by (rule okAll_andThen [OF typed_ma_key typed_ma_val])

lemma typed_then:
  "structOK ty ma \<Longrightarrow> (\<And>ma. structOK ty ma \<Longrightarrow> okAll P (f ma)) \<Longrightarrow> okAll P (andThen (ma_key ma k) f)"
  "typedFn x \<Longrightarrow> structOK ty ma \<Longrightarrow> (\<And>ma. structOK ty ma \<Longrightarrow> okAll P (f ma)) \<Longrightarrow>
   okAll P (andThen (ma_val ma x) f)"
  "(\<And>ma. structOK ty ma \<Longrightarrow> okAll P (f ma)) \<Longrightarrow> okAll P (andThen (beginStruct ty) f)"
  by (auto intro: okAll_andThen typing)

lemma typed_finished:
  assumes "structOK ty st" "sa_state st = maState_finished"
  shows "typedAs ty (sa_build st)"
proof -
  obtain fs where fs: "sa_build st = TnStruct ty fs" "length fs = length (fieldsOf ty)"
      "\<forall>i<length fs. fs ! i = None \<longrightarrow> fnullable (fieldsOf ty ! i)"
    using finished_complete [of ty st] assms unfolding structOK_def by blast
  have "sa_ty st = ty" using assms(1) by (auto simp: structOK_def machineInv_def sa_shape_def)
  then have vals: "typedAs (ftype (fieldsOf ty ! i)) t" if "i < length fs" "fs ! i = Some t" for i t
    using that fs(1,2) assms(1) by (auto simp: structOK_def sa_build_def sa_fields_def split: if_splits)
  have "tnWf (TnStruct ty fs)"
    using vals fs(2,3) assms(1)
    by (auto simp: structOK_def list_all_length typedAs_def split: option.split)
  with fs(1) show ?thesis by (simp add: typedAs_def)
qed

lemma typed_sa_done [typing]: "structOK ty st \<Longrightarrow> okAll (typedAs ty) (sa_done st)"
  unfolding sa_done_def
proof (rule okAll_andThen)
  assume st: "structOK ty st"
  have "sa_w st1 = sa_w st" "sa_state st1 = maState_finished" if "sa_finish st = Ok st1" for st1
    using that sa_ready_w by (auto simp: sa_finish_def Let_def split: if_splits)
  with st show "okAll (\<lambda>st. structOK ty st \<and> sa_state st = maState_finished) (sa_finish st)"
    using sa_finish_inv by (auto simp: okAll_def structOK_def)
qed (auto intro: okAll_Ok typed_finished)

section \<open>Unions\<close>

definition unionOK :: "tyname \<Rightarrow> uasm \<Rightarrow> bool" where
  "unionOK ty ua \<longleftrightarrow> ua_ty ua = ty \<and> ua_ca ua \<le> length (membersOf ty) \<and>
     (\<forall>t. ua_x ua = Some t \<longrightarrow> 1 \<le> ua_ca ua \<and> typedAs (snd (membersOf ty ! (ua_ca ua - 1))) t)"

lemma unionOK_new [typing]: "unionOK ty (newUnionAsm ty wnil)"
  by (simp add: unionOK_def newUnionAsm_def)

lemma typed_beginUnion [typing]: "okAll (unionOK ty) (beginUnion ty)"
  by (auto simp: okAll_def beginUnion_def unionOK_new split: tydecl.splits)

lemma ua_ready_unionOK: "unionOK ty ua \<Longrightarrow> okAll (unionOK ty) (ua_ready ua)"
  by (auto simp: okAll_def ua_ready_def unionOK_def split: maState.splits if_splits)

text \<open>An entry of a union: the key chooses the member, whose type the value must have.\<close>

lemma typed_ua_entry:
  assumes "unionOK ty ua"
    and "\<And>i. idxOf (memberNames ty) k = Some i \<Longrightarrow>
      okAll (typedOpt (snd (membersOf ty ! i)) False) (x (snd (membersOf ty ! i)) False)"
  shows "okAll (unionOK ty) (andThen (ua_key ua k) (\<lambda>ua. ua_val ua x))"
proof (rule okAll_andThen)
  have "unionOK ty ua2 \<and> idxOf (memberNames ty) k = Some (ua_ca ua2 - 1) \<and> ua_ca ua2 \<ge> 1"
    if ua2: "ua_key ua k = Ok ua2" for ua2
  proof -
    obtain ua1 i where "ua_ready ua = Ok ua1" "ua_ca ua1 = 0" "idxOf (memberNames (ua_ty ua1)) k = Some i"
        "ua2 = ua1\<lparr>ua_ca := Suc i, ua_state := maState_expectValue\<rparr>"
      using ua2 by (auto simp: ua_key_eq split: if_splits option.splits)
    with okAllD [OF ua_ready_unionOK [OF assms(1)]] show ?thesis
      using idxOf_SomeD [of "memberNames ty" k i]
      by (fastforce simp: unionOK_def memberNames_def)
  qed
  then show "okAll (\<lambda>ua. unionOK ty ua \<and> idxOf (memberNames ty) k = Some (ua_ca ua - 1) \<and> ua_ca ua \<ge> 1)
      (ua_key ua k)" by (simp add: okAll_def)
next
  fix ua2 assume ua2: "unionOK ty ua2 \<and> idxOf (memberNames ty) k = Some (ua_ca ua2 - 1) \<and> ua_ca ua2 \<ge> 1"
  then have "okAll (typedOpt (snd (membersOf ty ! (ua_ca ua2 - 1))) False)
      (x (snd (membersOf (ua_ty ua2) ! (ua_ca ua2 - 1))) False)"
    using assms(2) by (simp add: unionOK_def)
  with ua2 show "okAll (unionOK ty) (ua_val ua2 x)"
    unfolding ua_val_defs
    by (cases "ua_state ua2")
      (auto intro!: okAll_andThen [where Q = "typedOpt _ False"] simp: okAll_def unionOK_def typedOpt_def)
qed

lemma typed_ua_done [typing]:
  assumes "unionOK ty ua"
  shows "okAll (typedAs ty) (ua_done ua)"
  unfolding ua_done_def
proof (rule okAll_andThen)
  show "okAll (unionOK ty) (ua_finish ua)"
    unfolding ua_finish_def
    by (rule okAll_andThen [OF ua_ready_unionOK [OF assms]]) (auto simp: okAll_def unionOK_def)
qed (auto simp: okAll_def unionOK_def typedAs_def split: option.splits)

section \<open>Lists\<close>

definition listOK :: "tyname \<Rightarrow> lasm \<Rightarrow> bool" where
  "listOK ty la \<longleftrightarrow> la_ty la = ty \<and> (\<exists>e. typeDecl ty = DList e) \<and> list_all (typedAs (elemType ty)) (la_x la)"

lemma listOK_new: "typeDecl ty = DList e \<Longrightarrow> listOK ty (newListAsm ty)"
  by (simp add: listOK_def newListAsm_def)

lemma typed_beginList [typing]: "okAll (listOK ty) (beginList ty)"
  by (auto simp: okAll_def beginList_def listOK_new split: tydecl.splits)

lemma la_ready_listOK: "listOK ty la \<Longrightarrow> okAll (listOK ty) (la_ready la)"
  by (auto simp: okAll_def la_ready_def listOK_def split: laState.splits if_splits)

lemma typed_la_val:
  assumes "listOK ty la" "okAll (typedOpt (elemType ty) False) (x (elemType ty) False)"
  shows "okAll (listOK ty) (la_val la x)"
  unfolding la_val_def
proof (rule okAll_andThen)
  show "okAll (listOK ty) (la_assembleValue la)"
    unfolding la_assembleValue_def
    by (rule okAll_andThen [OF la_ready_listOK [OF assms(1)]]) (simp add: okAll_def listOK_def)
next
  fix la1 assume "listOK ty la1"
  with assms(2) show "okAll (listOK ty) (andThen (x (elemType (la_ty la1)) False) (\<lambda>r. Ok (la_store la1 r)))"
    by (intro okAll_andThen [where Q = "typedOpt (elemType ty) False"])
      (auto simp: listOK_def okAll_def typedOpt_def split: option.splits)
qed

lemma typed_la_done [typing]: "listOK ty la \<Longrightarrow> okAll (typedAs ty) (la_done la)"
  unfolding la_done_def la_finish_def andThen_assoc andThen.simps
  by (rule okAll_andThen [OF la_ready_listOK])
    (auto simp: okAll_def listOK_def typedAs_def elemType_def list_all_iff)

section \<open>\<open>AssignNode\<close>\<close>

text \<open>A node whose typed parts are well-formed.\<close>

fun nodeTyped :: "node \<Rightarrow> bool" where
  "nodeTyped (NTyped t) = tnWf t"
| "nodeTyped (NRepr t) = tnWf t"
| "nodeTyped (NMap es) = list_all (\<lambda>e. nodeTyped (snd e)) es"
| "nodeTyped (NList ns) = list_all nodeTyped ns"
| "nodeTyped _ = True"

lemma nodeTyped_representation [simp]: "nodeTyped (representation t) = tnWf t"
  by (cases t) auto

lemma nodeTyped_maybe:
  "(case x of None \<Rightarrow> True | Some t \<Rightarrow> tnWf t) \<Longrightarrow> nodeTyped (ofMaybe x) \<and> nodeTyped (reprMaybe x)"
  by (cases x) auto

lemma nodeTyped_reprEntries: "tnWf t \<Longrightarrow> e \<in> set (reprEntries t) \<Longrightarrow> nodeTyped (snd e)"
proof (induction t rule: reprEntries.induct)
  case (1 ty fs)
  then obtain x where "x \<in> set fs" "snd e = reprMaybe x" by (cases e) (auto dest!: set_zip_rightD)
  with 1 show ?case using nodeTyped_maybe [of x] by (auto simp: list_all_iff)
qed (auto split: if_splits)

lemma nodeTyped_mapEntries:
  assumes "nodeTyped v" "e \<in> set (mapEntries v)"
  shows "nodeTyped (snd e)"
proof (cases v rule: mapEntries.cases)
  case (2 ty fs)
  then obtain x where "x \<in> set fs" "snd e = ofMaybe x"
    using assms(2) by (cases e) (auto dest!: set_zip_rightD)
  with 2 assms(1) show ?thesis using nodeTyped_maybe [of x] by (auto simp: list_all_iff)
qed (use assms nodeTyped_reprEntries in \<open>auto simp: list_all_iff\<close>)

lemma nodeTyped_listEntries: "nodeTyped v \<Longrightarrow> e \<in> set (listEntries v) \<Longrightarrow> nodeTyped e"
  by (cases v rule: listEntries.cases) (auto simp: list_all_iff)

lemma typed_struct_entries:
  assumes "typeDecl ty = DStruct fs"
    and "\<And>e ty nul wnil. e \<in> set es \<Longrightarrow> okAll (typedOpt ty nul) (assignNode ty nul wnil (snd e))"
  shows "okAll (structOK ty) (forEach (\<lambda>e ma. andThen (ma_key ma (fst e)) (\<lambda>ma.
      ma_val ma (\<lambda>ty' nul'. assignNode ty' nul' (nul' \<and> ptrMaybe ty') (snd e)))) es (newStructAsm ty wnil))"
  using assms(2) by (intro okAll_forEach structOK_new [OF assms(1)]) (auto intro!: typed_entry typedFnI)

lemma typed_union_entries:
  assumes "\<And>e ty nul wnil. e \<in> set es \<Longrightarrow> okAll (typedOpt ty nul) (assignNode ty nul wnil (snd e))"
  shows "okAll (unionOK ty) (forEach (\<lambda>e ua. andThen (ua_key ua (fst e)) (\<lambda>ua.
      ua_val ua (\<lambda>ty' nul'. assignNode ty' nul' False (snd e)))) es (newUnionAsm ty wnil))"
  using assms by (intro okAll_forEach unionOK_new typed_ua_entry) auto

lemma typed_list_entries:
  assumes "typeDecl ty = DList d"
    and "\<And>e ty nul wnil. e \<in> set es \<Longrightarrow> okAll (typedOpt ty nul) (assignNode ty nul wnil e)"
  shows "okAll (listOK ty) (forEach (\<lambda>e la. la_val la (\<lambda>ty' nul'. assignNode ty' nul' False e)) es (newListAsm ty))"
  using assms(2) by (intro okAll_forEach listOK_new [OF assms(1)] typed_la_val) auto

lemma typed_then_done:
  "okAll Q r \<Longrightarrow> (\<And>x. Q x \<Longrightarrow> okAll (typedAs ty) (f x)) \<Longrightarrow>
   okAll (typedOpt ty nul) (andThen r (\<lambda>x. andThen (f x) (\<lambda>t. Ok (Some t))))"
  by (erule okAll_andThen) (auto intro: typed_Some)

lemma typed_assignNode: "nodeTyped v \<Longrightarrow> okAll (typedOpt ty nul) (assignNode ty nul wnil v)"
proof (induction v arbitrary: ty nul wnil rule: measure_induct_rule [of nsize])
  case (less v)
  have maps: "okAll (typedOpt ty' nul') (assignNode ty' nul' wnil' (snd e))"
    if "e \<in> set (mapEntries v)" for e ty' nul' wnil'
    using that less nodeTyped_mapEntries nsize_mapEntries [of "fst e" "snd e" v] by auto
  have lists: "okAll (typedOpt ty' nul') (assignNode ty' nul' wnil' e)"
    if "e \<in> set (listEntries v)" for e ty' nul' wnil'
    using that less nodeTyped_listEntries nsize_listEntries by blast
  consider "isNull v" | t where "v = NTyped t" "tnType t = ty"
    | "\<not> isNull v" "(case v of NTyped t \<Rightarrow> if tnType t = ty then Some t else None | _ \<Rightarrow> None) = None"
    by (cases "\<exists>t. v = NTyped t \<and> tnType t = ty"; cases v) auto
  then show ?case
  proof cases
    case 1
    then show ?thesis by (simp add: assignNode.simps [of ty] okAll_def typedOpt_def)
  next
    case (2 t)
    with less.prems show ?thesis by (simp add: assignNode.simps [of ty] okAll_def typedOpt_def typedAs_def)
  next
    case 3
    then show ?thesis
      using typed_then_done [OF typed_struct_entries [OF _ maps] typed_sa_done]
        typed_then_done [OF typed_union_entries [OF maps] typed_ua_done]
        typed_then_done [OF typed_list_entries [OF _ lists] typed_la_done]
      by (cases "typeDecl ty") (auto simp: assignNode.simps [of ty] intro: okAll_any typed_scalars okAll_Fail)
  qed
qed

text \<open>C37: The conversion that every encoder starts with is type sound: whatever node it is given, basic or
  typed, in which the typed parts are well-formed, it fails or yields a well-formed value of the wanted
  type.\<close>

theorem wrapTyped_sound:
  assumes "nodeTyped v" "wrapTyped ty v = Ok n"
  shows "\<exists>t. n = NTyped t \<and> tnType t = ty \<and> tnWf t"
  using assms(2) okAllD [OF typed_assignNode [OF assms(1), of ty False False]]
  by (auto simp: wrapTyped_def typedOpt_def typedAs_def split: option.splits)

theorem wrapTyped_sound_witness:
  "\<exists>t. wrapTyped TyTopics (NList [NBytes [1], NTyped (TnBytes TyHash [2])]) = Ok (NTyped t) \<and>
     tnType t = TyTopics \<and> tnWf t"
proof -
  let ?v = "NList [NBytes [1], NTyped (TnBytes TyHash [2])]"
  have "wrapTyped TyTopics ?v = Ok (NTyped (TnList TyTopics [TnBytes TyHash [1], TnBytes TyHash [2]]))"
    by code_simp
  moreover from wrapTyped_sound [OF _ this] have "\<exists>t. TnList TyTopics [TnBytes TyHash [1], TnBytes TyHash [2]] = t \<and>
      tnType t = TyTopics \<and> tnWf t" by simp
  ultimately show ?thesis by blast
qed

section \<open>Evaluation\<close>

text \<open>What the simplifier needs to run a struct assembler, on the example of extension nodes.\<close>

lemmas sasm_eval = newStructAsm_def ma_key_def ma_val_def assembleKey_def keyAssignString_def assembleValue_def sa_ready_def
  sa_tidy_def sa_child_def curField_def fieldNames_def fieldsOf.simps go_TrieExtensionNode_def goField_def sa_done_def
  sa_finish_def sa_build_def sa_fields_def assignBytes_def assignLink_def Let_def mask_eq_exp_minus_1 upt_rec
  assignNode.simps [of TyTrieExtensionNode] assignNode.simps [of TyBytes] assignNode.simps [of TyLink]

end
