(* ===== verification/Builder.thy ===== *)
theory Builder
  imports Assembler_Typing
begin

text \<open>
  The builders: an assembler together with the state word \<open>m\<close> of the value that it writes.  The word says whether the
  value is still open, being assembled, null or done; \<open>Build\<close> refuses anything but the last.  The encoders' idiom
  \<open>NewBuilder\<close>, \<open>AssignNode\<close>, \<open>Build\<close> is shown to be the conversion \<open>wrapTyped\<close> of their models, for every type.
\<close>

section \<open>The state word\<close>

text \<open>The switches on \<open>*na.m\<close> with which the methods begin, and what they leave in the word.\<close>

definition word_Begin :: "maybe \<Rightarrow> maybe res" where
  "word_Begin m =
     (case m of
        Maybe_Value \<Rightarrow> Panic ''invalid state: cannot assign into assembler that's already finished''
      | Maybe_Null \<Rightarrow> Panic ''invalid state: cannot assign into assembler that's already finished''
      | midvalue \<Rightarrow> Panic ''invalid state: it makes no sense to 'begin' twice on the same assembler!''
      | _ \<Rightarrow> Ok midvalue)"

definition word_AssignNull :: "maybe \<Rightarrow> maybe res" where
  "word_AssignNull m =
     (case m of
        allowNull \<Rightarrow> Ok Maybe_Null
      | Maybe_Absent \<Rightarrow> Fail (ErrWrongKind ''AssignNull'')
      | Maybe_Value \<Rightarrow> Panic ''invalid state: cannot assign into assembler that's already finished''
      | Maybe_Null \<Rightarrow> Panic ''invalid state: cannot assign into assembler that's already finished''
      | midvalue \<Rightarrow> Panic ''invalid state: cannot assign null into an assembler that's already begun'')"

definition word_AssignTyped :: "maybe \<Rightarrow> maybe res" where
  "word_AssignTyped m =
     (case m of
        Maybe_Value \<Rightarrow> Panic ''invalid state: cannot assign into assembler that's already finished''
      | Maybe_Null \<Rightarrow> Panic ''invalid state: cannot assign into assembler that's already finished''
      | midvalue \<Rightarrow> Panic ''invalid state: cannot assign null into an assembler that's already begun''
      | _ \<Rightarrow> Ok Maybe_Value)"

definition word_AssignScalar :: "maybe \<Rightarrow> maybe res" where
  "word_AssignScalar m =
     (case m of
        Maybe_Value \<Rightarrow> Panic ''invalid state: cannot assign into assembler that's already finished''
      | Maybe_Null \<Rightarrow> Panic ''invalid state: cannot assign into assembler that's already finished''
      | _ \<Rightarrow> Ok Maybe_Value)"

definition word_Build :: "maybe \<Rightarrow> 'a \<Rightarrow> 'a res" where
  "word_Build m w =
     (if m \<noteq> Maybe_Value then Panic ''invalid state: cannot call Build on an assembler that's not finished'' else Ok w)"

lemmas word_defs = word_Begin_def word_AssignNull_def word_AssignTyped_def word_AssignScalar_def word_Build_def

text \<open>The word is written once: no method opens a value that is done or null.\<close>

lemma word_closed:
  assumes "m = Maybe_Value \<or> m = Maybe_Null"
  shows "\<exists>e. word_Begin m = Panic e" "\<exists>e. word_AssignNull m = Panic e" "\<exists>e. word_AssignTyped m = Panic e"
    "\<exists>e. word_AssignScalar m = Panic e"
  using assms by (auto simp: word_defs)

section \<open>Struct builders\<close>

record sbuilder =
  sb_m :: maybe
  sb_sa :: sasm

definition sb_Reset :: "tyname \<Rightarrow> sbuilder" where
  "sb_Reset ty = \<lparr>sb_m = Maybe_Absent, sb_sa = newStructAsm ty False\<rparr>"

definition sb_BeginMap :: "sbuilder \<Rightarrow> sbuilder res" where
  "sb_BeginMap b = andThen (word_Begin (sb_m b)) (\<lambda>m.
     Ok (b\<lparr>sb_m := m, sb_sa := (sb_sa b)\<lparr>sa_wnil := False\<rparr>\<rparr>))"

definition sb_AssignNull :: "sbuilder \<Rightarrow> sbuilder res" where
  "sb_AssignNull b = andThen (word_AssignNull (sb_m b)) (\<lambda>m. Ok (b\<lparr>sb_m := m\<rparr>))"

text \<open>\<open>*na.w = *v2\<close>: the fields and their state words are those of the other struct.\<close>

definition sb_copy :: "sasm \<Rightarrow> tnode option list \<Rightarrow> sasm" where
  "sb_copy sa fs = sa\<lparr>sa_wnil := False, sa_w := fs,
     sa_m := map (\<lambda>x. if x = None then Maybe_Null else Maybe_Value) fs\<rparr>"

definition sb_AssignTyped :: "sbuilder \<Rightarrow> tnode option list \<Rightarrow> sbuilder res" where
  "sb_AssignTyped b fs = andThen (word_AssignTyped (sb_m b)) (\<lambda>m.
     Ok (b\<lparr>sb_m := m, sb_sa := sb_copy (sb_sa b) fs\<rparr>))"

definition sb_Finish :: "sbuilder \<Rightarrow> sbuilder res" where
  "sb_Finish b = andThen (sa_finish (sb_sa b)) (\<lambda>sa. Ok (b\<lparr>sb_m := Maybe_Value, sb_sa := sa\<rparr>))"

text \<open>One entry of the node that is read; the loop goes on with the assembler as it is.\<close>

definition sb_entry :: "string \<times> node \<Rightarrow> sasm \<Rightarrow> sasm res" where
  "sb_entry e ma = andThen (ma_key ma (fst e)) (\<lambda>ma.
     ma_val ma (\<lambda>ty nul. assignNode ty nul (nul \<and> ptrMaybe ty) (snd e)))"

text \<open>The type assertion on the struct type.\<close>

fun sameStruct :: "tyname \<Rightarrow> node \<Rightarrow> tnode option list option" where
  "sameStruct ty (NTyped (TnStruct ty' fs)) = (if ty' = ty then Some fs else None)"
| "sameStruct ty _ = None"

definition sb_AssignNode :: "sbuilder \<Rightarrow> node \<Rightarrow> sbuilder res" where
  "sb_AssignNode b v =
     (if isNull v then sb_AssignNull b
      else case sameStruct (sa_ty (sb_sa b)) v of
        Some fs \<Rightarrow> sb_AssignTyped b fs
      | None \<Rightarrow>
          (if nodeKind v \<noteq> KMap then Fail (ErrWrongKind ''AssignNode'')
           else andThen (forEach sb_entry (mapEntries v) (sb_sa b)) (\<lambda>sa. sb_Finish (b\<lparr>sb_sa := sa\<rparr>))))"

definition sb_Build :: "sbuilder \<Rightarrow> tnode res" where
  "sb_Build b = word_Build (sb_m b) (sa_build (sb_sa b))"

section \<open>Union builders\<close>

text \<open>The type assertion on a union or scalar type.\<close>

definition sameTyped :: "tyname \<Rightarrow> node \<Rightarrow> tnode option" where
  "sameTyped ty v = (case v of NTyped t \<Rightarrow> if tnType t = ty then Some t else None | _ \<Rightarrow> None)"

text \<open>The value that a union builder points to is known once it was copied or finished.\<close>

record ubuilder =
  ub_m :: maybe
  ub_ua :: uasm
  ub_w :: "tnode option"

definition ub_Reset :: "tyname \<Rightarrow> ubuilder" where
  "ub_Reset ty = \<lparr>ub_m = Maybe_Absent, ub_ua = newUnionAsm ty False, ub_w = None\<rparr>"

definition ub_BeginMap :: "ubuilder \<Rightarrow> ubuilder res" where
  "ub_BeginMap b = andThen (word_Begin (ub_m b)) (\<lambda>m.
     Ok (b\<lparr>ub_m := m, ub_ua := (ub_ua b)\<lparr>ua_wnil := False\<rparr>\<rparr>))"

definition ub_AssignNull :: "ubuilder \<Rightarrow> ubuilder res" where
  "ub_AssignNull b = andThen (word_AssignNull (ub_m b)) (\<lambda>m. Ok (b\<lparr>ub_m := m\<rparr>))"

definition ub_AssignTyped :: "ubuilder \<Rightarrow> tnode \<Rightarrow> ubuilder res" where
  "ub_AssignTyped b t = andThen (word_AssignTyped (ub_m b)) (\<lambda>m. Ok (b\<lparr>ub_m := m, ub_w := Some t\<rparr>))"

definition ub_Finish :: "ubuilder \<Rightarrow> ubuilder res" where
  "ub_Finish b = andThen (ua_finish (ub_ua b)) (\<lambda>ua.
     Ok (b\<lparr>ub_m := Maybe_Value, ub_ua := ua, ub_w := map_option (TnUnion (ua_ty ua) (ua_ca ua)) (ua_x ua)\<rparr>))"

definition ub_entry :: "string \<times> node \<Rightarrow> uasm \<Rightarrow> uasm res" where
  "ub_entry e ua = andThen (ua_key ua (fst e)) (\<lambda>ua. ua_val ua (\<lambda>ty nul. assignNode ty nul False (snd e)))"

definition ub_AssignNode :: "ubuilder \<Rightarrow> node \<Rightarrow> ubuilder res" where
  "ub_AssignNode b v =
     (if isNull v then ub_AssignNull b
      else case sameTyped (ua_ty (ub_ua b)) v of
        Some t \<Rightarrow> ub_AssignTyped b t
      | None \<Rightarrow>
          (if nodeKind v \<noteq> KMap then Fail (ErrWrongKind ''AssignNode'')
           else andThen (forEach ub_entry (mapEntries v) (ub_ua b)) (\<lambda>ua. ub_Finish (b\<lparr>ub_ua := ua\<rparr>))))"

definition ub_Build :: "ubuilder \<Rightarrow> tnode res" where
  "ub_Build b = andThen (word_Build (ub_m b) (ub_w b)) (\<lambda>w.
     case w of Some t \<Rightarrow> Ok t | None \<Rightarrow> Panic ''invalid union state; how did you create this object?'')"

section \<open>List builders\<close>

record lbuilder =
  lb_m :: maybe
  lb_la :: lasm

definition lb_Reset :: "tyname \<Rightarrow> lbuilder" where
  "lb_Reset ty = \<lparr>lb_m = Maybe_Absent, lb_la = newListAsm ty\<rparr>"

text \<open>\<open>BeginList\<close> with a positive size hint replaces the slice by an empty one of that capacity.\<close>

definition lb_BeginList :: "lbuilder \<Rightarrow> int \<Rightarrow> lbuilder res" where
  "lb_BeginList b sizeHint = andThen (word_Begin (lb_m b)) (\<lambda>m.
     Ok (b\<lparr>lb_m := m, lb_la := (if 0 < sizeHint then (lb_la b)\<lparr>la_x := []\<rparr> else lb_la b)\<rparr>))"

definition lb_AssignNull :: "lbuilder \<Rightarrow> lbuilder res" where
  "lb_AssignNull b = andThen (word_AssignNull (lb_m b)) (\<lambda>m. Ok (b\<lparr>lb_m := m\<rparr>))"

definition lb_AssignTyped :: "lbuilder \<Rightarrow> tnode list \<Rightarrow> lbuilder res" where
  "lb_AssignTyped b ts = andThen (word_AssignTyped (lb_m b)) (\<lambda>m.
     Ok (b\<lparr>lb_m := m, lb_la := (lb_la b)\<lparr>la_x := ts\<rparr>\<rparr>))"

definition lb_Finish :: "lbuilder \<Rightarrow> lbuilder res" where
  "lb_Finish b = andThen (la_finish (lb_la b)) (\<lambda>la. Ok (b\<lparr>lb_m := Maybe_Value, lb_la := la\<rparr>))"

definition lb_entry :: "node \<Rightarrow> lasm \<Rightarrow> lasm res" where
  "lb_entry e la = la_val la (\<lambda>ty nul. assignNode ty nul False e)"

fun sameList :: "tyname \<Rightarrow> node \<Rightarrow> tnode list option" where
  "sameList ty (NTyped (TnList ty' ts)) = (if ty' = ty then Some ts else None)"
| "sameList ty _ = None"

definition lb_AssignNode :: "lbuilder \<Rightarrow> node \<Rightarrow> lbuilder res" where
  "lb_AssignNode b v =
     (if isNull v then lb_AssignNull b
      else case sameList (la_ty (lb_la b)) v of
        Some ts \<Rightarrow> lb_AssignTyped b ts
      | None \<Rightarrow>
          (if nodeKind v \<noteq> KList then Fail (ErrWrongKind ''AssignNode'')
           else andThen (forEach lb_entry (listEntries v) (lb_la b)) (\<lambda>la. lb_Finish (b\<lparr>lb_la := la\<rparr>))))"

definition lb_Build :: "lbuilder \<Rightarrow> tnode res" where
  "lb_Build b = word_Build (lb_m b) (TnList (la_ty (lb_la b)) (la_x (lb_la b)))"

section \<open>Scalar builders\<close>

record cbuilder =
  cb_ty :: tyname
  cb_m :: maybe
  cb_w :: "tnode option"

definition cb_Reset :: "tyname \<Rightarrow> cbuilder" where
  "cb_Reset ty = \<lparr>cb_ty = ty, cb_m = Maybe_Absent, cb_w = None\<rparr>"

definition cb_AssignNull :: "cbuilder \<Rightarrow> cbuilder res" where
  "cb_AssignNull b =
     (if cb_m b = midvalue then Panic ''unreachable''
      else andThen (word_AssignNull (cb_m b)) (\<lambda>m. Ok (b\<lparr>cb_m := m\<rparr>)))"

text \<open>\<open>AssignBytes\<close>, \<open>AssignLink\<close>, \<open>AssignString\<close>, \<open>AssignBool\<close>, given the value that they write, or their error.\<close>

definition cb_Assign :: "cbuilder \<Rightarrow> tnode option res \<Rightarrow> cbuilder res" where
  "cb_Assign b r = andThen r (\<lambda>w. andThen (word_AssignScalar (cb_m b)) (\<lambda>m. Ok (b\<lparr>cb_m := m, cb_w := w\<rparr>)))"

definition cb_AssignNode :: "cbuilder \<Rightarrow> node \<Rightarrow> cbuilder res" where
  "cb_AssignNode b v =
     (if isNull v then cb_AssignNull b
      else case sameTyped (cb_ty b) v of
        Some t \<Rightarrow> cb_Assign b (Ok (Some t))
      | None \<Rightarrow>
          (case typeDecl (cb_ty b) of
             DBytes \<Rightarrow> andThen (asBytes v) (\<lambda>x. cb_Assign b (assignBytes (cb_ty b) x))
           | DLink \<Rightarrow> andThen (asLink v) (\<lambda>x. cb_Assign b (assignLink (cb_ty b) x))
           | DString \<Rightarrow> andThen (asString v) (\<lambda>x. cb_Assign b (assignString (cb_ty b) x))
           | DBool \<Rightarrow> andThen (asBool v) (\<lambda>x. cb_Assign b (assignBool (cb_ty b) x))
           | _ \<Rightarrow> Panic ''no scalar''))"

definition cb_Build :: "cbuilder \<Rightarrow> tnode res" where
  "cb_Build b = andThen (word_Build (cb_m b) (cb_w b)) (\<lambda>w. case w of Some t \<Rightarrow> Ok t | None \<Rightarrow> Panic ''nil node'')"

section \<open>The encoders' idiom\<close>

text \<open>\<open>builder := Type.X.NewBuilder(); builder.AssignNode(v); builder.Build()\<close>, for the builder that \<open>X\<close> has.\<close>

definition buildFrom :: "tyname \<Rightarrow> node \<Rightarrow> tnode res" where
  "buildFrom ty v =
     (case typeDecl ty of
        DStruct _ \<Rightarrow> andThen (sb_AssignNode (sb_Reset ty) v) sb_Build
      | DUnion _ \<Rightarrow> andThen (ub_AssignNode (ub_Reset ty) v) ub_Build
      | DList _ \<Rightarrow> andThen (lb_AssignNode (lb_Reset ty) v) lb_Build
      | _ \<Rightarrow> andThen (cb_AssignNode (cb_Reset ty) v) cb_Build)"

lemma sa_build_copy:
  assumes "tnWf (TnStruct ty fs)" "sa_ty sa = ty"
  shows "sa_build (sb_copy sa fs) = TnStruct ty fs"
proof -
  have "length fs = length (fieldsOf ty)" using assms(1) by simp
  then show ?thesis
    using assms(2) by (auto simp: sa_build_def sa_fields_def sb_copy_def intro!: nth_equalityI)
qed

lemma struct_value: "tnWf t \<Longrightarrow> typeDecl (tnType t) = DStruct fs \<Longrightarrow> \<exists>gs. t = TnStruct (tnType t) gs"
  by (cases t) (auto simp: membersOf.simps)

lemma sa_ty_new [simp]: "sa_ty (newStructAsm ty w) = ty"
  by (simp add: newStructAsm_def)

text \<open>Converting entry by entry, from the state of a fresh builder.\<close>

lemma assignNode_entries:
  assumes "typeDecl ty = DStruct fs" "\<not> isNull v" "sameStruct ty v = None" "nodeTyped v"
  shows "assignNode ty nul wnil v =
    (if nodeKind v \<noteq> KMap then Fail (ErrWrongKind ''AssignNode'')
     else andThen (forEach sb_entry (mapEntries v) (newStructAsm ty wnil)) (\<lambda>ma. andThen (sa_done ma) (\<lambda>t. Ok (Some t))))"
proof -
  have "tnType t \<noteq> ty" if "v = NTyped t" for t
    using struct_value [of t fs] assms that by (metis nodeTyped.simps(1) option.distinct(1) sameStruct.simps(1))
  then have "(case v of NTyped t \<Rightarrow> if tnType t = ty then Some t else None | _ \<Rightarrow> None) = None"
    by (cases v) auto
  with assms(1,2) show ?thesis by (simp add: assignNode.simps [of ty] sb_entry_def [abs_def])
qed

lemma sb_AssignNode_map:
  assumes "typeDecl ty = DStruct fs" "\<not> isNull v" "sameStruct ty v = None" "nodeTyped v"
  shows "andThen (sb_AssignNode (sb_Reset ty) v) (\<lambda>b. andThen (sb_Build b) (\<lambda>t. Ok (NTyped t))) = wrapTyped ty v"
  using assms(2,3)
  by (simp add: sb_AssignNode_def wrapTyped_def assignNode_entries [OF assms] sb_Finish_def sb_Build_def word_Build_def
      sb_Reset_def sa_done_def andThen_assoc)

lemma build_struct:
  assumes "typeDecl ty = DStruct fs" "nodeTyped v"
  shows "andThen (sb_AssignNode (sb_Reset ty) v) (\<lambda>b. andThen (sb_Build b) (\<lambda>t. Ok (NTyped t))) = wrapTyped ty v"
proof (cases "sameStruct ty v")
  case None
  then show ?thesis
  proof (cases "isNull v")
    case True
    then show ?thesis
      by (simp add: sb_AssignNode_def sb_AssignNull_def sb_Reset_def wrapTyped_def assignNode.simps [of ty] word_defs)
  qed (rule sb_AssignNode_map [OF assms(1) _ _ assms(2)])
next
  case (Some gs)
  then have v: "v = NTyped (TnStruct ty gs)" by (auto elim!: sameStruct.elims split: if_splits)
  with assms(2) have "tnWf (TnStruct ty gs)" by simp
  from sa_build_copy [OF this] v show ?thesis
    by (simp add: sb_AssignNode_def sb_AssignTyped_def sb_Reset_def sb_Build_def wrapTyped_def newStructAsm_def
        assignNode.simps [of ty] word_defs)
qed

text \<open>Null and copied values, for the other builders.\<close>

lemma sameType_cases [case_names null same other]:
  assumes "isNull v \<Longrightarrow> thesis" "\<And>t. v = NTyped t \<Longrightarrow> tnType t = ty \<Longrightarrow> thesis"
    "\<not> isNull v \<Longrightarrow> sameTyped ty v = None \<Longrightarrow> thesis"
  shows thesis
proof (cases "isNull v \<or> (\<exists>t. v = NTyped t \<and> tnType t = ty)")
  case False
  then show thesis by (intro assms(3)) (auto simp: sameTyped_def split: node.splits)
qed (use assms in auto)

lemma sameTyped_same [simp]: "tnType t = ty \<Longrightarrow> sameTyped ty (NTyped t) = Some t"
  by (simp add: sameTyped_def)

lemmas assignNode_same_eq = assignNode.simps [folded sameTyped_def]

lemma build_union:
  assumes "typeDecl ty = DUnion ms"
  shows "andThen (ub_AssignNode (ub_Reset ty) v) (\<lambda>b. andThen (ub_Build b) (\<lambda>t. Ok (NTyped t))) = wrapTyped ty v"
proof (cases rule: sameType_cases [of v _ ty])
  case other
  have "andThen (ub_Finish \<lparr>ub_m = m, ub_ua = ua, ub_w = w\<rparr>)
        (\<lambda>b. andThen (ub_Build b) (\<lambda>t. Ok (NTyped t))) = andThen (ua_done ua) (\<lambda>t. Ok (NTyped t))" for m ua w
    by (auto simp: ub_Finish_def ub_Build_def ua_done_def word_Build_def andThen_assoc
        intro!: andThen_cong split: option.splits)
  with other assms show ?thesis
    by (simp add: ub_AssignNode_def wrapTyped_def assignNode_same_eq [of ty] ub_entry_def [abs_def] andThen_assoc
        ub_Reset_def newUnionAsm_def)
qed (simp_all add: ub_AssignNode_def ub_AssignNull_def ub_AssignTyped_def ub_Build_def ub_Reset_def newUnionAsm_def
    wrapTyped_def word_defs assignNode_same_eq [of ty])

lemma list_value: "tnWf t \<Longrightarrow> typeDecl (tnType t) = DList e \<Longrightarrow> \<exists>ts. t = TnList (tnType t) ts"
  by (cases t) (auto simp: membersOf.simps fieldsOf.simps)

lemma build_list:
  assumes "typeDecl ty = DList e" "nodeTyped v"
  shows "andThen (lb_AssignNode (lb_Reset ty) v) (\<lambda>b. andThen (lb_Build b) (\<lambda>t. Ok (NTyped t))) = wrapTyped ty v"
proof (cases rule: sameType_cases [of v _ ty])
  case (same t)
  with assms list_value [of t e] obtain ts where "v = NTyped (TnList ty ts)" by auto
  then show ?thesis
    by (simp add: lb_AssignNode_def lb_AssignTyped_def lb_Build_def lb_Reset_def newListAsm_def wrapTyped_def word_defs
        assignNode_same_eq [of ty])
next
  case other
  then have "sameList ty v = None" by (cases "(ty, v)" rule: sameList.cases) (auto simp: sameTyped_def)
  with other assms show ?thesis
    by (simp add: lb_AssignNode_def wrapTyped_def assignNode_same_eq [of ty] lb_entry_def [abs_def] andThen_assoc
        lb_Reset_def newListAsm_def lb_Finish_def lb_Build_def la_done_def word_Build_def)
qed (simp add: lb_AssignNode_def lb_AssignNull_def lb_Reset_def wrapTyped_def word_defs assignNode_same_eq [of ty])

lemma build_scalar:
  assumes "typeDecl ty \<in> {DBytes, DLink, DString, DBool}"
  shows "andThen (cb_AssignNode (cb_Reset ty) v) (\<lambda>b. andThen (cb_Build b) (\<lambda>t. Ok (NTyped t))) = wrapTyped ty v"
proof (cases rule: sameType_cases [of v _ ty])
  case other
  with assms show ?thesis
    by (elim insertE)
      (simp_all add: cb_AssignNode_def cb_Assign_def cb_Build_def cb_Reset_def word_defs wrapTyped_def andThen_assoc
        assignNode_same_eq [of ty] assignBytes_def assignLink_def assignString_def assignBool_def)
qed (simp_all add: cb_AssignNode_def cb_AssignNull_def cb_Assign_def cb_Build_def cb_Reset_def wrapTyped_def word_defs
    assignNode_same_eq [of ty])

text \<open>C9: The encoders' idiom on the generated builders -- \<open>NewBuilder\<close>, \<open>AssignNode\<close>, \<open>Build\<close>, with the state word of the
  value, for struct, union, list and scalar types -- is exactly the conversion \<open>wrapTyped\<close> with which the models of the
  encoders begin, for every type and every well-formed node: the same value, the same error and the same panic.\<close>

theorem builder_implements_wrapTyped:
  assumes "nodeTyped v"
  shows "andThen (buildFrom ty v) (\<lambda>t. Ok (NTyped t)) = wrapTyped ty v"
  using build_struct [OF _ assms, of ty] build_union [of ty _ v] build_list [OF _ assms, of ty] build_scalar [of ty v]
  by (cases "typeDecl ty") (simp_all add: buildFrom_def andThen_assoc)

theorem builder_implements_wrapTyped_witness:
  "buildFrom TyTrieExtensionNode (NMap [(''Child'', NLink (CidLink [2])), (''PartialPath'', NBytes [1])]) =
    Ok (TnStruct TyTrieExtensionNode [Some (TnBytes TyBytes [1]), Some (TnLink TyLink (CidLink [2]))])"
proof -
  let ?v = "NMap [(''Child'', NLink (CidLink [2])), (''PartialPath'', NBytes [1])]"
  have "wrapTyped TyTrieExtensionNode ?v =
      Ok (NTyped (TnStruct TyTrieExtensionNode [Some (TnBytes TyBytes [1]), Some (TnLink TyLink (CidLink [2]))]))"
    by (simp add: wrapTyped_def sasm_eval del: andThen_eq_Ok)
  with builder_implements_wrapTyped [of ?v TyTrieExtensionNode] show ?thesis by simp
qed

section \<open>Assigning twice\<close>

text \<open>A value that was begun, assembled and finished cannot be assigned again.\<close>

lemma finished_refuses:
  assumes "sb_m b = Maybe_Value" "sa_state (sb_sa b) = maState_finished"
  shows "\<exists>m. sb_BeginMap b = Panic m" "\<exists>m. sb_AssignNull b = Panic m" "\<exists>m. sb_AssignTyped b fs = Panic m"
    "\<exists>m. sb_Finish b = Panic m" "\<exists>m. sb_entry e (sb_sa b) = Panic m"
  using assms
  by (simp_all add: sb_BeginMap_def sb_AssignNull_def sb_AssignTyped_def sb_Finish_def sb_entry_def sa_finish_def sa_ready_def
      ma_key_def assembleKey_def word_defs)

text \<open>A value that was copied is not protected: converting a map into the same builder reads neither the word nor a
  state that the copy has left behind, and replaces the value.\<close>

theorem copied_value_replaced:
  "andThen (andThen (sb_AssignNode (sb_Reset TyTrieExtensionNode)
       (NTyped (TnStruct TyTrieExtensionNode [Some (TnBytes TyBytes [7]), Some (TnLink TyLink (CidLink [8]))])))
     (\<lambda>b. sb_AssignNode b (NMap [(''Child'', NLink (CidLink [2])), (''PartialPath'', NBytes [1])]))) sb_Build =
   Ok (TnStruct TyTrieExtensionNode [Some (TnBytes TyBytes [1]), Some (TnLink TyLink (CidLink [2]))])"
  by (simp add: sb_AssignNode_def sb_AssignTyped_def sb_Reset_def sb_copy_def sb_Build_def sb_entry_def sb_Finish_def
      sasm_eval word_defs del: andThen_eq_Ok)

text \<open>In a list builder the elements of the second node come after those that were copied.\<close>

theorem copied_list_extended:
  "andThen (andThen (lb_AssignNode (lb_Reset TyTopics) (NTyped (TnList TyTopics [TnBytes TyHash [7]])))
     (\<lambda>b. lb_AssignNode b (NList [NBytes [1]]))) lb_Build =
   Ok (TnList TyTopics [TnBytes TyHash [7], TnBytes TyHash [1]])"
  by (simp add: lb_AssignNode_def lb_AssignTyped_def lb_Reset_def newListAsm_def lb_Build_def lb_entry_def lb_Finish_def
      la_val_defs la_finish_def la_ready_def elemType_def assignNode.simps [of TyHash] assignBytes_def word_defs
      del: andThen_eq_Ok)

end
