(* ===== verification/Basic_Maps.thy ===== *)
theory Basic_Maps
  imports Codec_Iface Builder
begin

text \<open>
  \<open>AssignNode\<close> of a struct assembler on a basic map, entry by entry: which maps are converted, into which struct, and what
  happens at an entry that is not.
\<close>

section \<open>One entry\<close>

text \<open>What becomes of a value under the key \<open>k\<close>: \<open>AssignNode\<close> of the field's assembler, which is handed a nil target when
  the field is a nullable struct or union.\<close>

definition convertField :: "tyname \<Rightarrow> string \<Rightarrow> node \<Rightarrow> tnode option res" where
  "convertField ty k v = (let fd = fieldAt ty k in
     assignNode (ftype fd) (fnullable fd) (fnullable fd \<and> ptrMaybe (ftype fd)) v)"

lemma nullableIn_fieldAt: "k \<in> set (fieldNames ty) \<Longrightarrow> nullableIn ty k = fnullable (fieldAt ty k)"
  using idxOf_None_iff [of "fieldNames ty" k] by (auto simp: nullableIn_def fieldAt_def)

lemma assignNode_None: "assignNode ty nul wnil v = Ok None \<Longrightarrow> nul"
  by (auto simp: assignNode.simps [of ty] assignBytes_def assignLink_def assignString_def assignBool_def
      split: if_splits node.splits tydecl.splits)

lemma convertField_None: "k \<in> set (fieldNames ty) \<Longrightarrow> convertField ty k v = Ok None \<Longrightarrow> nullableIn ty k"
  by (auto simp: convertField_def Let_def nullableIn_fieldAt dest: assignNode_None)

lemma sb_entry_puts:
  assumes "k \<in> set (fieldNames ty)" "convertField ty k v = Ok r"
  shows "puts_as ty (sb_entry (k, v)) [(k, r)]"
  by (rule puts_as_entry [OF assms(1), where x = "\<lambda>ty nul. assignNode ty nul (nul \<and> ptrMaybe ty) v"])
    (use assms(2) in \<open>simp_all add: convertField_def Let_def sb_entry_def\<close>)

text \<open>Keys that are repeated or unknown are refused, whatever was assembled before.\<close>

lemma puts_bad_key:
  assumes "knownEntries ty es"
  shows "\<exists>st. sa_puts es (newStructAsm ty False) = Ok st \<and> sa_ty st = ty \<and> sa_settled st \<and>
    (k \<in> set (map fst es) \<longrightarrow> ma_key st k = Fail (ErrRepeatedMapKey k)) \<and>
    (k \<notin> set (fieldNames ty) \<longrightarrow> ma_key st k = Fail (ErrInvalidKey k)) \<and> \<not> sa_wnil st"
proof -
  obtain st A where st: "sa_puts es (newStructAsm ty False) = Ok st" "sa_inv ty st A"
      "\<forall>i<length (fieldNames ty). A i = map_of es (fieldNames ty ! i)"
    using sa_puts_known [OF assms] by blast
  have settled: "sa_settled st" "sa_ty st = ty" "\<not> sa_wnil st" using st(2) by (auto simp: sa_inv_def)
  obtain st0 where st0: "sa_ready st = Ok st0" "sa_ty st0 = sa_ty st" "sa_s st0 = sa_s st"
    using sa_ready_settled [OF settled(1)] by blast
  have "ma_key st k = Fail (ErrRepeatedMapKey k)" if k: "k \<in> set (map fst es)"
  proof -
    have "k \<in> set (fieldNames ty)" using k assms by (auto simp: knownEntries_def)
    then obtain i where i: "idxOf (fieldNames ty) k = Some i" using idxOf_None_iff by fastforce
    then have "A i \<noteq> None" using st(3) k idxOf_SomeD [OF i] by (auto simp: map_of_eq_None_iff)
    then have "bit (sa_s st) i" using st(2) idxOf_SomeD [OF i] by (simp add: sa_inv_def)
    with st0 settled i show ?thesis
      by (simp add: ma_key_def assembleKey_def keyAssignString_def and_exp_neq_0_iff)
  qed
  moreover have "ma_key st k = Fail (ErrInvalidKey k)" if "k \<notin> set (fieldNames ty)"
    using that st0 settled idxOf_None_iff [of "fieldNames ty" k]
    by (simp add: ma_key_def assembleKey_def keyAssignString_def)
  ultimately show ?thesis using st(1) settled by auto
qed

text \<open>The value of an entry is given to the assembler of the key's field.\<close>

lemma ma_key_field:
  assumes "ma_key st k = Ok ma" "sa_ty st = ty"
  shows "sa_ty ma = ty \<and> sa_state ma = maState_expectValue \<and> fieldsOf ty ! sa_f ma = fieldAt ty k \<and>
    k \<in> set (fieldNames ty) \<and> sa_wnil ma = sa_wnil st"
proof -
  obtain st0 where st0: "sa_ready st = Ok st0"
    using assms(1) by (auto simp: ma_key_def assembleKey_def)
  then have "sa_ty st0 = ty \<and> sa_wnil st0 = sa_wnil st"
    using assms(2) by (auto simp: sa_ready_def sa_tidy_def split: maState.splits option.splits if_splits maybe.splits)
  with assms(1) st0 show ?thesis
    using idxOf_None_iff [of "fieldNames ty" k]
    by (auto simp: ma_key_def assembleKey_def keyAssignString_def fieldAt_def split: if_splits option.splits)
qed

lemma ma_val_field:
  assumes "sa_state ma = maState_expectValue" "\<not> sa_wnil ma"
  shows "\<exists>st. ma_val ma x = andThen (x (ftype (fieldsOf (sa_ty ma) ! sa_f ma)) (fnullable (fieldsOf (sa_ty ma) ! sa_f ma)))
      (\<lambda>r. Ok (storeChild st r))"
  using assms by (auto simp: ma_val_def assembleValue_def sa_child_def curField_def)

lemma sb_entry_value:
  assumes "ma_key st k = Ok ma" "sa_ty st = ty" "\<not> sa_wnil st"
  shows "\<exists>st'. sb_entry (k, v) st = andThen (convertField ty k v) (\<lambda>r. Ok (storeChild st' r))"
proof -
  note ma = ma_key_field [OF assms(1,2)]
  obtain st' where "ma_val ma (\<lambda>ty nul. assignNode ty nul (nul \<and> ptrMaybe ty) v) =
      andThen (convertField ty k v) (\<lambda>r. Ok (storeChild st' r))"
    using ma_val_field [of ma "\<lambda>ty nul. assignNode ty nul (nul \<and> ptrMaybe ty) v"] ma assms(3)
    by (auto simp: convertField_def Let_def)
  with assms(1) show ?thesis by (auto simp: sb_entry_def)
qed

section \<open>All entries\<close>

text \<open>Entries that convert: distinct fields, each with a value that its assembler accepts; \<open>g\<close> has the results.\<close>

definition entriesConvert :: "tyname \<Rightarrow> (string \<times> node) list \<Rightarrow> (string \<Rightarrow> tnode option) \<Rightarrow> bool" where
  "entriesConvert ty es g \<longleftrightarrow> distinct (map fst es) \<and> set (map fst es) \<subseteq> set (fieldNames ty) \<and>
     (\<forall>(k, v) \<in> set es. convertField ty k v = Ok (g k))"

abbreviation converted :: "(string \<Rightarrow> tnode option) \<Rightarrow> (string \<times> node) list \<Rightarrow> (string \<times> tnode option) list" where
  "converted g es \<equiv> map (\<lambda>e. (fst e, g (fst e))) es"

lemma entriesConvert_ex:
  assumes "distinct (map fst es)" "set (map fst es) \<subseteq> set (fieldNames ty)"
    and "\<And>k v. (k, v) \<in> set es \<Longrightarrow> \<exists>r. convertField ty k v = Ok r"
  shows "\<exists>g. entriesConvert ty es g"
proof -
  let ?g = "\<lambda>k. case convertField ty k (the (map_of es k)) of Ok r \<Rightarrow> r | _ \<Rightarrow> None"
  have "convertField ty k v = Ok (?g k)" if "(k, v) \<in> set es" for k v
    using assms(3) [OF that] map_of_is_SomeI [OF assms(1) that] by auto
  with assms(1,2) show ?thesis unfolding entriesConvert_def by (intro exI [of _ ?g]) auto
qed

lemma entriesConvert_known: "entriesConvert ty es g \<Longrightarrow> knownEntries ty (converted g es)"
  by (fastforce simp: entriesConvert_def knownEntries_def comp_def list_all_iff dest: convertField_None)

lemma entriesConvert_puts:
  assumes "entriesConvert ty es g"
  shows "forEach sb_entry es (newStructAsm ty False) = sa_puts (converted g es) (newStructAsm ty False)"
proof -
  have "puts_as ty (sb_entry e) [(fst e, g (fst e))]" if "e \<in> set es" for e
    using that assms sb_entry_puts [of "fst e" ty "snd e"] by (force simp: entriesConvert_def)
  then have "list_all2 (puts_as ty) (map sb_entry es) (map (\<lambda>e. [(fst e, g (fst e))]) es)"
    by (auto simp: list.rel_map list_all2_same)
  from runAll_puts [OF this, of "newStructAsm ty False"] show ?thesis by (simp add: forEach_runAll)
qed

lemma forEach_append: "forEach f (xs @ ys) s = andThen (forEach f xs s) (forEach f ys)"
  by (simp add: forEach_runAll runAll_append)

lemma forEach_snoc: "forEach f (xs @ [x]) s = andThen (forEach f xs s) (f x)"
  by (simp add: forEach_runAll runAll_append runAll_eta)

lemma entriesConvert_snoc:
  assumes "entriesConvert ty es g" "k \<in> set (fieldNames ty)" "k \<notin> set (map fst es)" "convertField ty k v = Ok r"
  shows "entriesConvert ty (es @ [(k, v)]) (g(k := r))"
  using assms by (force simp: entriesConvert_def)

text \<open>The next entry, after entries that convert.\<close>

lemma next_entry:
  assumes "entriesConvert ty es g" "k \<in> set (fieldNames ty)" "k \<notin> set (map fst es)"
  shows "\<exists>h. forEach sb_entry (es @ [(k, v)]) (newStructAsm ty False) = andThen (convertField ty k v) (\<lambda>r. Ok (h r))"
proof -
  obtain st where st: "forEach sb_entry es (newStructAsm ty False) = Ok st" "sa_ty st = ty" "\<not> sa_wnil st"
    using puts_bad_key [OF entriesConvert_known [OF assms(1)]] entriesConvert_puts [OF assms(1)] by auto
  obtain A where A: "sa_inv ty st A" "\<forall>i<length (fieldNames ty). A i = map_of (converted g es) (fieldNames ty ! i)"
    using sa_puts_known [OF entriesConvert_known [OF assms(1)]] st(1) entriesConvert_puts [OF assms(1)] by auto
  obtain i where i: "idxOf (fieldNames ty) k = Some i" using assms(2) idxOf_None_iff by fastforce
  then have "A i = None" using A(2) assms(3) idxOf_SomeD [OF i] by (force simp: map_of_eq_None_iff comp_def)
  then have bit: "\<not> bit (sa_s st) i" "sa_settled st" using A(1) idxOf_SomeD [OF i] by (auto simp: sa_inv_def)
  obtain st0 where "sa_ready st = Ok st0" "sa_ty st0 = sa_ty st" "sa_s st0 = sa_s st"
    using sa_ready_settled [OF bit(2)] by blast
  then obtain ma where "ma_key st k = Ok ma"
    using i bit(1) st(2) by (auto simp: ma_key_def assembleKey_def keyAssignString_def and_exp_neq_0_iff)
  from sb_entry_value [OF this st(2,3), of v] st(1) show ?thesis by (auto simp: forEach_snoc)
qed

lemma entries_convert:
  "forEach sb_entry es (newStructAsm ty False) = Ok st \<Longrightarrow> \<exists>g. entriesConvert ty es g"
proof (induction es arbitrary: st rule: rev_induct)
  case Nil
  show ?case by (simp add: entriesConvert_def)
next
  case (snoc e es)
  obtain k v where e: "e = (k, v)" by force
  obtain st1 where st1: "forEach sb_entry es (newStructAsm ty False) = Ok st1" "sb_entry e st1 = Ok st"
    using snoc.prems by (auto simp: forEach_snoc)
  obtain g where g: "entriesConvert ty es g" using snoc.IH [OF st1(1)] by blast
  have "k \<notin> set (map fst es)" "k \<in> set (fieldNames ty)"
    using puts_bad_key [OF entriesConvert_known [OF g], of k] entriesConvert_puts [OF g] st1
    by (auto simp: e sb_entry_def comp_def)
  with next_entry [OF g, of k v] snoc.prems entriesConvert_snoc [OF g, of k v] e show ?case
    by (cases "convertField ty k v") auto
qed

section \<open>The struct\<close>

lemma map_of_converted: "map_of (converted g es) k = (if k \<in> fst ` set es then Some (g k) else None)"
  by (induction es) auto

lemma map_entries_assign:
  assumes "typeDecl ty = DStruct fs"
  shows "assignNode ty nul False (NMap es) =
    andThen (forEach sb_entry es (newStructAsm ty False)) (\<lambda>ma. andThen (sa_done ma) (\<lambda>t. Ok (Some t)))"
  using assms by (simp add: assignNode.simps [of ty] sb_entry_def [abs_def])

lemma converted_done:
  assumes "entriesConvert ty es g"
  shows "andThen (forEach sb_entry es (newStructAsm ty False)) sa_done = Ok t \<longleftrightarrow>
    set (map fst es) = set (fieldNames ty) \<and> t = TnStruct ty (map g (fieldNames ty))"
proof (cases "set (map fst es) = set (fieldNames ty)")
  case True
  then have "map (\<lambda>k. the (map_of (converted g es) k)) (fieldNames ty) = map g (fieldNames ty)"
    by (auto simp: map_of_converted)
  with sa_struct [of "converted g es" ty] entriesConvert_known [OF assms] entriesConvert_puts [OF assms] True
  show ?thesis by (auto simp: knownEntries_def comp_def)
next
  case False
  with sa_struct_missing [OF entriesConvert_known [OF assms]] entriesConvert_puts [OF assms] show ?thesis
    by (simp add: comp_def del: andThen_eq_Ok)
qed

lemma wrapTyped_map:
  assumes "typeDecl ty = DStruct fs"
  shows "wrapTyped ty (NMap es) = Ok n \<longleftrightarrow>
    (\<exists>g. entriesConvert ty es g \<and> set (map fst es) = set (fieldNames ty) \<and>
      n = NTyped (TnStruct ty (map g (fieldNames ty))))"
proof -
  let ?r = "andThen (forEach sb_entry es (newStructAsm ty False)) sa_done"
  have eq: "wrapTyped ty (NMap es) = andThen ?r (\<lambda>t. Ok (NTyped t))"
    by (simp add: wrapTyped_def map_entries_assign [OF assms] andThen_assoc del: andThen_eq_Ok)
  show ?thesis
  proof
    assume "wrapTyped ty (NMap es) = Ok n"
    then obtain t where t: "?r = Ok t" "n = NTyped t" unfolding eq by (cases ?r) auto
    then obtain st where "forEach sb_entry es (newStructAsm ty False) = Ok st" by auto
    from entries_convert [OF this] obtain g where "entriesConvert ty es g" ..
    with converted_done [OF this, of t] t show "\<exists>g. entriesConvert ty es g \<and> set (map fst es) = set (fieldNames ty) \<and>
      n = NTyped (TnStruct ty (map g (fieldNames ty)))" by blast
  next
    assume "\<exists>g. entriesConvert ty es g \<and> set (map fst es) = set (fieldNames ty) \<and>
      n = NTyped (TnStruct ty (map g (fieldNames ty)))"
    then obtain g where g: "entriesConvert ty es g" "set (map fst es) = set (fieldNames ty)"
      "n = NTyped (TnStruct ty (map g (fieldNames ty)))" by blast
    then have "?r = Ok (TnStruct ty (map g (fieldNames ty)))" using converted_done [OF g(1)] by blast
    with g(3) show "wrapTyped ty (NMap es) = Ok n" unfolding eq by (simp del: andThen_eq_Ok)
  qed
qed

end
