(* ===== verification/Codec_Limits.thy ===== *)
theory Codec_Limits
  imports Reference_Env Basic_Maps
begin

text \<open>
  What the codecs accept, what they reject, and what they cannot carry: the structs that packing an
  arbitrary node can yield, the links that decoding makes, and the inputs on which a codec returns an
  error, loses data or panics.
\<close>

section \<open>Headers\<close>

text \<open>The results of \<open>BytesToHash\<close>, \<open>BytesToAddress\<close> and \<open>BytesToBloom\<close> are arrays of fixed size.\<close>

definition conv_sizes :: "ext \<Rightarrow> bool" where
  "conv_sizes E \<longleftrightarrow> (\<forall>b. length (bytesToHash E b) = HashLength) \<and>
     (\<forall>b. length (bytesToAddress E b) = AddressLength) \<and>
     (\<forall>b c. bytesToBloom E b = Ok c \<longrightarrow> length c = BloomByteLength)"

text \<open>C11: Whatever node \<open>EncodeHeader\<close> accepts, the header it packs is canonical: fixed-size fields have their
  size, the big integers are present and non-negative, and there is no withdrawals hash.\<close>

theorem EncodeHeader_good:
  assumes "conv_sizes E" "EncodeHeader E newHeader n = Ok h"
  shows "headerGood h"
  using assms
  by (auto simp: EncodeHeader_def header_requiredPackFuncs_def header_pack_defs newHeader_def
      headerGood_def headerCanon_def conv_sizes_def split: if_splits)

lemma conv_sizes_ref: "conv_sizes refEnv"
  by (auto simp: conv_sizes_def refEnv_defs refBloom_def split: if_splits)

theorem EncodeHeader_good_witness: "headerGood sampleHeader"
proof (rule EncodeHeader_good [OF conv_sizes_ref])
  show "EncodeHeader refEnv newHeader (NTyped (headerNode refEnv sampleHeader)) = Ok sampleHeader"
    using header.pack_toNode [OF header_lawful_ref headerGood_sample] .
qed

text \<open>C12: The withdrawals hash of a header has no place in the schema: decoding a canonical header and
  packing the node again gives the header without it, so the block of a header that has one changes.\<close>

theorem header_withdrawals_dropped:
  assumes "conv_laws E" "cid_laws E" "headerCanon h"
  shows "\<exists>t. DecodeHeader E h = Ok t \<and> EncodeHeader E newHeader (NTyped t) = Ok (h\<lparr>h_WithdrawalsHash := None\<rparr>)"
  using DecodeHeader_node [OF assms(2,3)] EncodeHeader_node [OF assms, of newHeader]
  by (simp add: newHeader_def)

theorem header_withdrawals_dropped_witness:
  "sampleHeader \<noteq> shanghaiHeader \<and> (\<exists>t. DecodeHeader refEnv shanghaiHeader = Ok t \<and>
     EncodeHeader refEnv newHeader (NTyped t) = Ok sampleHeader)"
proof -
  have "shanghaiHeader\<lparr>h_WithdrawalsHash := None\<rparr> = sampleHeader"
    by (simp add: shanghaiHeader_def sampleHeader_def)
  then show ?thesis
    using header_withdrawals_dropped [OF ref_conv ref_cid headerCanon_shanghai] sample_headers_differ
    by simp
qed

definition headerLinks :: "header \<Rightarrow> (string \<times> u64 \<times> bytes) list" where
  "headerLinks h =
     [(''ParentCID'', 0x90, h_ParentHash h), (''UnclesCID'', 0x91, h_UncleHash h),
      (''StateRootCID'', 0x96, h_Root h), (''TxRootCID'', 0x92, h_TxHash h),
      (''RctRootCID'', 0x94, h_ReceiptHash h)]"

text \<open>C13: The links of a decoded header carry the multicodec of what they point to and the hash of the header
  field: the parent header, the uncles, and the state, transaction and receipt tries.\<close>

theorem header_links:
  assumes "cid_laws E" "headerCanon h" "(k, c, d) \<in> set (headerLinks h)"
  shows "\<exists>t l. DecodeHeader E h = Ok t \<and> lookupByString (NTyped t) k = Ok (NTyped (TnLink TyLink (CidLink l))) \<and>
    cidCodec E l = c \<and> mhDecode E (cidHash E l) = Ok d"
proof -
  have "\<forall>(k, c, d) \<in> set (headerLinks h).
      lookupByString (NTyped (headerNode E h)) k = Ok (NTyped (TnLink TyLink (linkOf E c d)))"
    by (simp add: headerLinks_def headerNode_def headerEntries_def codec_defs)
  moreover have "\<forall>(k, c, d) \<in> set (headerLinks h). length d = HashLength"
    using assms(2) by (simp add: headerLinks_def headerCanon_def)
  ultimately have "lookupByString (NTyped (headerNode E h)) k = Ok (NTyped (TnLink TyLink (linkOf E c d)))"
    "length d = HashLength" using assms(3) by auto
  then show ?thesis
    using DecodeHeader_node [OF assms(1,2)] assms(1) by (auto simp: linkOf_def cid_lawsD)
qed

theorem header_links_witness:
  "\<exists>t l. DecodeHeader refEnv sampleHeader = Ok t \<and>
     lookupByString (NTyped t) ''StateRootCID'' = Ok (NTyped (TnLink TyLink (CidLink l))) \<and>
     cidCodec refEnv l = 0x96 \<and> mhDecode refEnv (cidHash refEnv l) = Ok sampleHash"
  using headerGood_sample
  by (intro header_links [OF ref_cid]) (simp_all add: headerGood_def headerLinks_def sampleHeader_def)

section \<open>Accounts\<close>

text \<open>C14: The schema does not check the length of integer fields: packing an account whose nonce has fewer than
  eight bytes panics, and of a longer nonce only the first eight bytes count.\<close>

theorem account_nonce_length:
  "EncodeAccount E a (NTyped (TnStruct TyAccount (Some (TnBytes TyUint b) # fs))) =
     (if length b < 8 then Panic ''index out of range''
      else EncodeAccount E a (NTyped (TnStruct TyAccount (Some (TnBytes TyUint (take 8 b)) # fs))))"
proof (cases "length b < 8")
  case True
  then show ?thesis
    by (simp add: EncodeAccount_def account_requiredPackFuncs_def account_packNonce_def bytesField_def uint64_short)
next
  case False
  let ?n = "\<lambda>b. NTyped (TnStruct TyAccount (Some (TnBytes TyUint b) # fs))"
  have "uint64 b = uint64 (take 8 b)" using False by (intro uint64_longer) simp
  moreover have "account_packBalance E (?n b) = account_packBalance E (?n (take 8 b))"
    "account_packStorageRootCID E (?n b) = account_packStorageRootCID E (?n (take 8 b))"
    "account_packCodeCID E (?n b) = account_packCodeCID E (?n (take 8 b))"
    by (simp_all add: fun_eq_iff account_packBalance_def account_packStorageRootCID_def
        account_packCodeCID_def bytesField_def linkField_def)
  ultimately show ?thesis
    using False by (simp add: EncodeAccount_def account_requiredPackFuncs_def account_packNonce_def bytesField_def)
qed

section \<open>Transactions\<close>

text \<open>A transaction node of an unknown type is rejected, whatever its other fields are.\<close>

theorem tx_unknown_type:
  assumes "wrapTyped TyTransaction n = Ok m" "GetTxType m = Ok ty"
    and "ty \<noteq> LegacyTxType" "ty \<noteq> AccessListTxType" "ty \<noteq> DynamicFeeTxType"
  shows "tx_Encode E n w = Fail (Err ''invalid DAG-ETH Transaction form (unrecognized TxType)'')"
  using assms by (simp add: tx_Encode_def tx_AppendEncode_def)

theorem tx_unknown_type_witness:
  "tx_Encode refEnv (NTyped (TnStruct TyTransaction (Some (TnBytes TyTxType [3]) # replicate 13 None))) bytesBuffer
     = Fail (Err ''invalid DAG-ETH Transaction form (unrecognized TxType)'')"
  by (rule tx_unknown_type [where ty = 3, OF wrapTyped_same]) (simp_all add: GetTxType_def txtype_defs)

text \<open>\<open>createAccessList\<close> sizes its slice by the length of the node, which is -1 for null: a node of a typed
  transaction with a null access list makes the encoder panic.\<close>

theorem tx_null_access_list:
  "tx_Encode E (NTyped (TnStruct TyTransaction
     [Some (TnBytes TyTxType [AccessListTxType]), Some (bigNode chainID), Some (TnBytes TyUint (putUint64 nonce)),
      Some (bigNode gasPrice), None, None, Some (TnBytes TyUint (putUint64 gas)), None, Some (bigNode amount),
      Some (TnBytes TyBytes data), None, v, r, s])) w = Panic ''makeslice: len out of range''"
  by (simp add: tx_Encode_def tx_AppendEncode_def GetTxType_def txtype_defs packAccessListTx_def
      requiredPackAccessListTxFuncs_def tx_pack_defs bytesField_def bigNode_def listNodes_def)

section \<open>Receipts\<close>

text \<open>C17: The link to the log trie of a decoded receipt has the multicodec of a single log, 0x9a: a chooser with
  support for logs resolves it to the type \<open>Log\<close>, and one with support for log tries (0x99) passes it on.\<close>

theorem rct_log_root_codec:
  assumes "rct_lawful E" "rctCanon r"
  shows "\<exists>t l. DecodeReceipt E r = Ok t \<and>
    lookupByString (NTyped t) ''LogRootCID'' = Ok (NTyped (TnLink TyLink l)) \<and>
    log_AddSupportToChooser E existing l ctx = Ok (DagethType TyLog) \<and>
    log_trie_AddSupportToChooser E existing l ctx = existing l ctx"
proof -
  have laws: "cid_laws E" "trie_laws E" using assms(1) by (auto simp: rct_lawful_def)
  have "lookupByString (NTyped (rctNode E r)) ''LogRootCID'' =
      Ok (NTyped (TnLink TyLink (linkOf E log_MultiCodecType (logRoot E (r_Logs r)))))"
    by (simp add: rctNode_def rctEntries_def statusEntries_def)
  with DecodeReceipt_node [OF laws assms(2)] show ?thesis
    by (auto simp: log_AddSupportToChooser_def log_trie_AddSupportToChooser_def addSupport_def linkOf_def
        cid_lawsD [OF laws(1)] log_MultiCodecType_def log_trie_MultiCodecType_def)
qed

theorem rct_log_root_codec_witness:
  "\<exists>t l. DecodeReceipt refEnv sampleReceipt = Ok t \<and>
    lookupByString (NTyped t) ''LogRootCID'' = Ok (NTyped (TnLink TyLink l)) \<and>
    log_AddSupportToChooser refEnv (\<lambda>_ (_ :: unit). Ok (OtherPrototype ''basic'')) l () = Ok (DagethType TyLog) \<and>
    log_trie_AddSupportToChooser refEnv (\<lambda>_ (_ :: unit). Ok (OtherPrototype ''basic'')) l ()
      = Ok (OtherPrototype ''basic'')"
  by (rule rct_log_root_codec [OF rct_lawful_ref rctCanon_sample])

text \<open>Encoding a receipt ignores its log root: nodes that differ only in \<open>LogRootCID\<close> encode alike.\<close>

theorem rct_log_root_ignored:
  assumes "length fs = 6"
  shows "rct_Encode E (NTyped (TnStruct TyReceipt (fs @ [Some x]))) w = rct_Encode E (NTyped (TnStruct TyReceipt (fs @ [Some y]))) w"
proof -
  let ?n = "\<lambda>x. NTyped (TnStruct TyReceipt (fs @ [Some x]))"
  have "rct_packPostStateOrStatus E (?n x) = rct_packPostStateOrStatus E (?n y)"
    "rct_packCumulativeGasUsed E (?n x) = rct_packCumulativeGasUsed E (?n y)"
    "rct_packBloom E (?n x) = rct_packBloom E (?n y)" "rct_packLogs E (?n x) = rct_packLogs E (?n y)"
    "GetTxType (?n x) = GetTxType (?n y)"
    using assms by (simp_all add: fun_eq_iff rct_pack_defs GetTxType_def nth_append)
  then show ?thesis
    by (simp add: rct_Encode_def rct_AppendEncode_def packReceiptRLP_def rct_requiredPackFuncs_def)
qed

theorem rct_log_root_ignored_witness:
  "rct_Encode refEnv (NTyped (TnStruct TyReceipt (replicate 6 None @ [Some (TnBytes TyBytes [1])]))) bytesBuffer =
   rct_Encode refEnv (NTyped (TnStruct TyReceipt (replicate 6 None @ [Some (TnBytes TyBytes [2])]))) bytesBuffer"
  by (rule rct_log_root_ignored) simp

section \<open>Trie nodes\<close>

text \<open>C19: A trie block with a number of members other than 2 and 17 is rejected by the union assembler.\<close>

theorem trie_member_count:
  assumes "rlpDecodeFields E b = Ok fs" "length fs \<noteq> 2" "length fs \<noteq> 17"
  shows "DecodeTrieNodeBytes E c b =
    Fail (ErrNotUnionStructure ''a union must have exactly one entry (not none)!'')"
  using assms by (simp add: DecodeTrieNodeBytes_def unpackTrieNode_def beginUnion_def ua_empty)

theorem trie_member_count_witness:
  "DecodeTrieNodeBytes refEnv EthStateTrie [0xc0] =
    Fail (ErrNotUnionStructure ''a union must have exactly one entry (not none)!'')"
  by (rule trie_member_count [where fs = "[]"]) (simp_all add: refEnv_defs fieldsTable_def tableDec_def)

text \<open>C20: \<open>decodeTwoMemberNode\<close> trusts the first member of a two-member block: when it is a list or an empty byte
  string, decoding panics instead of returning an error.\<close>

theorem trie_bad_path_panics:
  assumes "rlpDecodeFields E b = Ok [x, y]" "x = RBytes [] \<or> (\<exists>xs. x = RList xs)"
  shows "\<not> no_panic (DecodeTrieNodeBytes E c b)"
  using assms by (auto simp: DecodeTrieNodeBytes_def unpackTrieNode_def beginUnion_def decodeTwoMemberNode_def idx_def)

theorem trie_bad_path_panics_witness: "\<not> no_panic (DecodeTrieNodeBytes refEnv EthStorageTrie [0xd4])"
  by (rule trie_bad_path_panics [where x = "RBytes []" and y = "RBytes [5]"])
    (simp_all add: refEnv_defs fieldsTable_def tableDec_def sampleEmptyPath_def)

text \<open>C21: The padding nibble of an even path is not checked: it has no effect on the decoded node, so a block
  whose padding is not zero is accepted although no encoding has it.\<close>

theorem trie_padding_ignored:
  assumes "even (f div 16)"
  shows "unpackTrieNode E c [RBytes (f # p), x] = unpackTrieNode E c [RBytes (16 * (f div 16) # p), x]"
proof -
  have flag: "(16 * (f div 16)) div 16 = f div 16"
    by (rule bit_word_eqI)
      (auto simp: byte_div_16 mult.commute [of 16] bit_simps dest: bit_imp_le_length
        simp flip: push_bit_eq_mult [of 4, simplified])
  have "decodeTwoMemberNode [RBytes (g # p), x] = decodeTwoMemberNode [RBytes (f # p), x]"
    if "g div 16 = f div 16" for g
    using assms that by (simp add: decodeTwoMemberNode_def idx_def CompactToHex_def compactToHex_Cons Let_def)
  from this [OF flag] show ?thesis by (simp add: unpackTrieNode_def)
qed

theorem trie_padding_ignored_witness:
  "unpackTrieNode refEnv EthStorageTrie samplePadded = unpackTrieNode refEnv EthStorageTrie sampleLeaf \<and>
   samplePadded \<noteq> sampleLeaf"
  using trie_padding_ignored [of "0x2f" refEnv EthStorageTrie "[0xab]" "RBytes [5, 6]"]
  by (simp add: samplePadded_def sampleLeaf_def)

lemma forEach_Ok_steps:
  "forEach f xs s = Ok s' \<Longrightarrow> x \<in> set xs \<Longrightarrow> \<exists>u v. f x u = Ok v"
  by (induction xs arbitrary: s) auto

lemma ua_val_Ok: "ua_val ua x = Ok ua' \<Longrightarrow> \<exists>ty r. x ty False = Ok r"
  by (cases "ua_state ua") (auto simp: ua_val_defs)

text \<open>The members that a branch may have: nothing, a hash, or a leaf in place, whose path has the flag of a leaf.\<close>

fun childShape :: "rlpItem \<Rightarrow> bool" where
  "childShape (RBytes l) \<longleftrightarrow> length l = 0 \<or> length l = 32"
| "childShape (RList [RBytes (b # p), RBytes v]) \<longleftrightarrow> b div 16 = 2 \<or> b div 16 = 3"
| "childShape (RList _) \<longleftrightarrow> False"

lemma unpackLeafNode_value:
  "unpackLeafNode E c [x, y] ma = Ok ma' \<Longrightarrow> \<exists>v. y = RBytes v"
  by (cases x; cases y) (auto simp: unpackLeafNode_def idx_def)

lemma assembleUnion_OkD: "assembleUnion k x ty = Ok t \<Longrightarrow> \<exists>ty' r. x ty' False = Ok r"
  by (auto simp: assembleUnion_def dest!: ua_val_Ok)

lemma embeddedLeaf_shape:
  assumes "embeddedLeaf E c xs = Ok t"
  shows "childShape (RList xs)"
proof -
  obtain x y where xs: "xs = [x, y]"
    using assms by (auto simp: embeddedLeaf_def length_Suc_conv numeral_2_eq_2 split: if_splits)
  then obtain fs ty r where fs: "decodeTwoMemberNode [x, y] = Ok (LEAF_NODE, fs)"
      "assembleStruct (unpackLeafNode E c fs) ty False = Ok r"
    using assms by (auto simp: embeddedLeaf_def finished_def dest!: assembleUnion_OkD split: if_splits)
  then obtain p b q where pq: "x = RBytes p" "p = b # q" "b div 16 = 2 \<or> b div 16 = 3"
      "fs = [RBytes (CompactToHex p), y]"
    by (cases x; cases "case x of RBytes p \<Rightarrow> p | RList _ \<Rightarrow> []")
      (auto simp: decodeTwoMemberNode_def idx_def Let_def split: if_splits)
  from fs(2) obtain ma ma' where "unpackLeafNode E c fs ma = Ok ma'" by (auto simp: assembleStruct_def finished_def)
  with pq(4) unpackLeafNode_value obtain v where "y = RBytes v" by blast
  with pq xs show ?thesis by simp
qed

lemma unpackChild_shape: "unpackChild E c fs i ma = Ok ma' \<Longrightarrow> childShape (fs ! i)"
  by (cases "fs ! i") (auto simp: unpackChild_def idx_def embeddedLeaf_shape split: if_splits)

text \<open>C22: Every member of a branch block that decodes is empty, a 32-byte hash or a leaf stored in place -- two byte
  strings, the first of which is a path with the flag of a leaf, odd or even -- and the value of the branch is a byte
  string.\<close>

theorem trie_branch_shape:
  assumes "unpackTrieNode E c fs = Ok t" "length fs = 17"
  shows "list_all childShape (take 16 fs) \<and> (\<exists>v. fs ! 16 = RBytes v)"
proof -
  obtain ma ma' where ma: "unpackBranchNode E c fs ma = Ok ma'"
    using assms by (auto simp: unpackTrieNode_def beginUnion_def assembleStruct_def finished_def
        dest!: ua_val_Ok)
  then obtain mb where "forEach (unpackChild E c fs) [0..<16] ma = Ok mb"
    by (auto simp: unpackBranchNode_def simp del: upt_rec_numeral)
  then have "childShape (fs ! i)" if "i < 16" for i
    using forEach_Ok_steps [of _ "[0..<16]" ma mb i] unpackChild_shape that by fastforce
  moreover have "\<exists>v. fs ! 16 = RBytes v"
    using ma assms(2) by (cases "fs ! 16") (auto simp: unpackBranchNode_def idx_def simp del: upt_rec_numeral)
  ultimately show ?thesis using assms(2) by (simp add: list_all_length)
qed

theorem trie_branch_shape_witness:
  "list_all childShape (take 16 sampleBranch) \<and> (\<exists>v. sampleBranch ! 16 = RBytes v)"
proof (rule trie_branch_shape)
  have "trieGood refEnv EthStorageTrie sampleBranch"
    by (simp add: sampleBranch_def validCompact_def branchGood_def leafPath_def HashLength_def nth_append
        list_all_iff valueGood_def decodeValue_member valueSupported_def memberSupported_def codecValue_def codec_defs)
  then show "unpackTrieNode refEnv EthStorageTrie sampleBranch = Ok (trieNodeOf refEnv EthStorageTrie sampleBranch)"
    by (rule unpackTrieNode_node [OF trie_lawful_ref])
qed (simp add: sampleBranch_def)

section \<open>Basic nodes\<close>

lemma assignNode_nil_union:
  assumes "typeDecl ty = DUnion ms" "k \<in> set (memberNames ty)"
  shows "assignNode ty nul True (NMap ((k, v) # m)) = Panic ''nil pointer dereference''"
  using assms idxOf_None_iff [of "memberNames ty" k]
  by (auto simp: assignNode.simps [of ty] ua_key_eq ua_ready_def newUnionAsm_def)

lemma branch_child_field:
  assumes "i < 16"
  shows "idxOf (fieldNames TyTrieBranchNode) (childKey i) = Some i \<and>
    fieldsOf TyTrieBranchNode ! i = goMaybe (childKey i) TyChild"
proof -
  have "list_all (\<lambda>i. idxOf (fieldNames TyTrieBranchNode) (childKey i) = Some i \<and>
      fieldsOf TyTrieBranchNode ! i = goMaybe (childKey i) TyChild) [0..<16]"
    by code_simp
  with assms show ?thesis by (simp add: list_all_iff del: upt_rec_numeral)
qed

lemma childKey_entry:
  assumes "i < 16"
  shows "childKey i \<in> set (fieldNames TyTrieBranchNode)" "fieldAt TyTrieBranchNode (childKey i) = goMaybe (childKey i) TyChild"
proof -
  note field = branch_child_field [OF assms]
  then show "childKey i \<in> set (fieldNames TyTrieBranchNode)" using idxOf_SomeD [of "fieldNames TyTrieBranchNode"] nth_mem by metis
  from field show "fieldAt TyTrieBranchNode (childKey i) = goMaybe (childKey i) TyChild" by (simp add: fieldAt_def)
qed

lemma basic_child_panics:
  assumes "i < 16" "k \<in> set (memberNames TyChild)"
  shows "convertField TyTrieBranchNode (childKey i) (NMap ((k, v) # m)) = Panic ''nil pointer dereference''"
  using assignNode_nil_union [of TyChild _ k True v m] assms(2)
  by (simp add: convertField_def Let_def childKey_entry [OF assms(1)] goMaybe_def ptrMaybe_def)

text \<open>The conversion of a basic trie node is the one of its branch.\<close>

lemma wrapTyped_branch:
  "wrapTyped TyTrieNode (NMap [(''TrieBranchNode'', NMap es)]) =
     andThen (wrapTyped TyTrieBranchNode (NMap es)) (\<lambda>n. case n of NTyped t \<Rightarrow> Ok (NTyped (TnUnion TyTrieNode 1 t)) | _ \<Rightarrow> Ok n)"
proof -
  let ?r = "andThen (forEach sb_entry es (newStructAsm TyTrieBranchNode False)) sa_done"
  have branch: "assignNode TyTrieBranchNode False False (NMap es) = andThen ?r (\<lambda>t. Ok (Some t))"
    by (subst map_entries_assign) (simp_all add: andThen_assoc)
  show ?thesis
    by (cases ?r) (simp_all add: wrapTyped_def assignNode.simps [of TyTrieNode] branch ua_key_eq ua_ready_def
      newUnionAsm_def ua_val_defs memberNames_def membersOf.simps go_TrieNode_def ua_done_def ua_finish_def del: andThen_eq_Ok)
qed

lemma branch_prefix_panics:
  assumes "i < 16" "k \<in> set (memberNames TyChild)" "entriesConvert TyTrieBranchNode es g" "childKey i \<notin> set (map fst es)"
  shows "wrapTyped TyTrieBranchNode (NMap (es @ (childKey i, NMap ((k, v) # m)) # es')) = Panic ''nil pointer dereference''"
proof -
  let ?e = "(childKey i, NMap ((k, v) # m))"
  have "forEach sb_entry (es @ [?e]) (newStructAsm TyTrieBranchNode False) = Panic ''nil pointer dereference''"
    using next_entry [OF assms(3) childKey_entry(1) [OF assms(1)] assms(4), of "NMap ((k, v) # m)"]
      basic_child_panics [OF assms(1,2)] by auto
  then have "forEach sb_entry ((es @ [?e]) @ es') (newStructAsm TyTrieBranchNode False) = Panic ''nil pointer dereference''"
    by (simp only: forEach_append andThen.simps)
  then show ?thesis
    by (subst wrapTyped_def, subst map_entries_assign) simp_all
qed

text \<open>C27: A branch node given as a basic map that has a child, itself given as a basic map, is never encoded, wherever the
  child stands and whatever the other entries are.  When the entries before it are fields that convert (null
  children, say), the encoder panics: the assembler of a nullable child hands its nil target to the member
  assembler.\<close>

theorem basic_branch_panics:
  assumes "i < 16" "k = ''Link'' \<or> k = ''TrieNode''"
  shows "((childKey i, NMap ((k, v) # m)) \<in> set es \<longrightarrow>
      trie_Encode E (NMap [(''TrieBranchNode'', NMap es)]) w \<noteq> Ok b) \<and>
    (distinct (childKey i # map fst es1) \<and> set (map fst es1) \<subseteq> set (fieldNames TyTrieBranchNode) \<and>
      (\<forall>(k', v') \<in> set es1. \<exists>r. convertField TyTrieBranchNode k' v' = Ok r) \<longrightarrow>
      trie_Encode E (NMap [(''TrieBranchNode'', NMap (es1 @ (childKey i, NMap ((k, v) # m)) # es2))]) w =
        Panic ''nil pointer dereference'')"
proof -
  have k: "k \<in> set (memberNames TyChild)" using assms(2) by (auto simp: memberNames_def membersOf.simps go_Child_def)
  have st: "typeDecl TyTrieBranchNode = DStruct (fieldsOf TyTrieBranchNode)" by (simp add: fieldsOf.simps)
  have "wrapTyped TyTrieBranchNode (NMap es) \<noteq> Ok n" if "(childKey i, NMap ((k, v) # m)) \<in> set es" for n
    using that basic_child_panics [OF assms(1) k, of v m] unfolding wrapTyped_map [OF st] by (fastforce simp: entriesConvert_def)
  then have "trie_Encode E (NMap [(''TrieBranchNode'', NMap es)]) w \<noteq> Ok b" if "(childKey i, NMap ((k, v) # m)) \<in> set es"
    using that by (auto simp: trie_Encode_def trie_AppendEncode_def wrapTyped_branch)
  moreover have "trie_Encode E (NMap [(''TrieBranchNode'', NMap (es1 @ (childKey i, NMap ((k, v) # m)) # es2))]) w =
      Panic ''nil pointer dereference''"
    if "distinct (childKey i # map fst es1)" "set (map fst es1) \<subseteq> set (fieldNames TyTrieBranchNode)"
      "\<forall>(k', v') \<in> set es1. \<exists>r. convertField TyTrieBranchNode k' v' = Ok r"
  proof -
    have "\<exists>g. entriesConvert TyTrieBranchNode es1 g" using that by (intro entriesConvert_ex) auto
    then obtain g where "entriesConvert TyTrieBranchNode es1 g" ..
    from branch_prefix_panics [OF assms(1) k this, of v m es2] that(1) show ?thesis
      by (simp add: trie_Encode_def trie_AppendEncode_def wrapTyped_branch)
  qed
  ultimately show ?thesis by blast
qed

theorem basic_branch_panics_witness:
  "trie_Encode refEnv (NMap [(''TrieBranchNode'', NMap [(''Child0'', NNull), (''Child1'', NMap [(''Link'', NLink (CidLink [1]))])])])
     bytesBuffer = Panic ''nil pointer dereference''"
proof -
  have null: "convertField TyTrieBranchNode ''Child0'' NNull = Ok None"
    using childKey_entry [of 0] by (simp add: convertField_def Let_def childKey_def goMaybe_def assignNode.simps)
  have "''Child0'' \<in> set (fieldNames TyTrieBranchNode)" using childKey_entry(1) [of 0] by (simp add: childKey_def)
  with null show ?thesis
    using basic_branch_panics [of 1 "''Link''" "NLink (CidLink [1])" "[]" "[]" refEnv bytesBuffer "[]" "[(''Child0'', NNull)]" "[]"]
    by (simp add: childKey_def)
qed

end
