(* ===== verification/Assembler_Properties.thy ===== *)
theory Assembler_Properties
  imports Reference_Env Basic_Maps
begin

text \<open>
  Properties of the generated assemblers and of the schema behind them: fields may come in any order
  and exactly once, missing fields are reported, basic nodes are converted, and the generated types
  agree with the schema of \<open>gen.go\<close> except where they are stale.
\<close>

section \<open>Struct assemblers\<close>

text \<open>The calls a client makes for a list of entries: key, value, key, value, and so on.\<close>

definition assembleEntries :: "(string \<times> tnode option) list \<Rightarrow> sasm \<Rightarrow> sasm res" where
  "assembleEntries es ma =
     forEach (\<lambda>(k, r) ma. andThen (ma_key ma k) (\<lambda>ma. ma_val ma (\<lambda>_ _. Ok r))) es ma"

lemma assembleEntries_puts: "assembleEntries es ma = sa_puts es ma"
  unfolding assembleEntries_def sa_puts_def
  by (intro forEach_cong refl) (auto simp: sa_put_def ma_val_def)

text \<open>C23: When every field of a struct type is assembled once, in any order, with null only for nullable
  fields, \<open>Finish\<close> succeeds with the struct that has each value at its field.\<close>

theorem struct_any_order:
  assumes "knownEntries ty es" "set (map fst es) = set (fieldNames ty)"
  shows "andThen (assembleEntries es (newStructAsm ty False)) sa_done
    = Ok (TnStruct ty (map (\<lambda>k. the (map_of es k)) (fieldNames ty)))"
  using assms by (simp add: assembleEntries_puts sa_struct knownEntries_def)

theorem struct_any_order_witness:
  "andThen (assembleEntries [(''Data'', Some (TnBytes TyBytes [1])), (''Address'', Some (TnBytes TyAddress [2])),
       (''Topics'', Some (TnList TyTopics []))] (newStructAsm TyLog False)) sa_done
    = Ok (TnStruct TyLog [Some (TnBytes TyAddress [2]), Some (TnList TyTopics []), Some (TnBytes TyBytes [1])])"
  by (subst struct_any_order) (auto simp: knownEntries_def)

text \<open>After any fields assembled once each, assembling one of them again fails with a repeated key, and a
  key that is not a field fails as invalid.\<close>

theorem struct_bad_key:
  assumes "knownEntries ty es"
  shows "\<exists>st. assembleEntries es (newStructAsm ty False) = Ok st \<and>
    (k \<in> set (map fst es) \<longrightarrow> ma_key st k = Fail (ErrRepeatedMapKey k)) \<and>
    (k \<notin> set (fieldNames ty) \<longrightarrow> ma_key st k = Fail (ErrInvalidKey k))"
  using puts_bad_key [OF assms, of k] by (auto simp: assembleEntries_puts)

theorem struct_bad_key_witness:
  "\<exists>st. assembleEntries [(''Data'', Some (TnBytes TyBytes [1]))] (newStructAsm TyLog False) = Ok st \<and>
    ma_key st ''Data'' = Fail (ErrRepeatedMapKey ''Data'')"
  using struct_bad_key [of TyLog "[(''Data'', Some (TnBytes TyBytes [1]))]" "''Data''"]
  by (auto simp: knownEntries_def)

text \<open>C25: When fields are missing, \<open>Finish\<close> fails, also when only nullable fields are missing; the error lists the
  missing fields that are not nullable, in the order of the schema.\<close>

theorem struct_missing_fields:
  assumes "knownEntries ty es" "set (map fst es) \<noteq> set (fieldNames ty)"
  shows "andThen (assembleEntries es (newStructAsm ty False)) sa_done = Fail (ErrMissingRequiredField
    (filter (\<lambda>k. map_of es k = None \<and> \<not> nullableIn ty k) (fieldNames ty)))"
  using sa_struct_missing [OF assms] by (simp add: assembleEntries_puts)

theorem struct_missing_fields_witness:
  "andThen (assembleEntries [(''Data'', Some (TnBytes TyBytes [1]))] (newStructAsm TyLog False)) sa_done
    = Fail (ErrMissingRequiredField [''Address'', ''Topics''])"
  by (subst struct_missing_fields)
    (auto simp: knownEntries_def nullableIn_def fields_Log go_defs go_field_defs)

section \<open>Basic nodes\<close>

text \<open>C26: A basic map is converted into a struct exactly when it has every field of the struct once, in any order, and
  every value is accepted by the assembler of its field (bytes and links at such fields, null at nullable fields, lists
  and maps that convert in turn); the struct then has each converted value at its field.  This is the conversion
  that every encoder starts with.\<close>

theorem basic_map_accepted:
  assumes "typeDecl ty = DStruct fs"
  shows "wrapTyped ty (NMap es) = Ok n \<longleftrightarrow>
    distinct (map fst es) \<and> set (map fst es) = set (fieldNames ty) \<and>
    (\<exists>g. (\<forall>(k, v) \<in> set es. convertField ty k v = Ok (g k)) \<and> n = NTyped (TnStruct ty (map g (fieldNames ty))))"
  unfolding wrapTyped_map [OF assms] by (auto simp: entriesConvert_def)

theorem basic_map_accepted_witness:
  "wrapTyped TyLog (NMap [(''Data'', NBytes [1]), (''Topics'', NList [NBytes [3]]), (''Address'', NBytes [2])]) =
   Ok (NTyped (TnStruct TyLog [Some (TnBytes TyAddress [2]), Some (TnList TyTopics [TnBytes TyHash [3]]),
      Some (TnBytes TyBytes [1])]))"
proof -
  let ?g = "(\<lambda>k. None)(''Address'' := Some (TnBytes TyAddress [2]),
    ''Topics'' := Some (TnList TyTopics [TnBytes TyHash [3]]), ''Data'' := Some (TnBytes TyBytes [1]))"
  have "typeDecl TyLog = DStruct (fieldsOf TyLog)" by (simp add: fieldsOf.simps)
  note accepted = basic_map_accepted [OF this, THEN iffD2]
  have "convertField TyLog ''Topics'' (NList [NBytes [3]]) = Ok (Some (TnList TyTopics [TnBytes TyHash [3]]))"
    by (simp add: convertField_def Let_def fieldAt_Log goField_def assignNode.simps la_val_defs la_done_defs la_ready_def
        newListAsm_def elemType_def assignBytes_def)
  then show ?thesis
    by (intro accepted conjI exI [of _ ?g])
      (auto simp: convertField_def Let_def fieldAt_Log goField_def assignNode.simps [of TyAddress]
        assignNode.simps [of TyBytes] assignBytes_def)
qed

end
