(* ===== verification/Decoder_Typing.thy ===== *)
theory Decoder_Typing
  imports Assembler_Typing Multicodec
begin

text \<open>
  Type soundness of the decoders: every node that a decoder of a package yields is a well-formed value
  of the type of that package.  Nothing is assumed of RLP, of multihash or of go-ethereum here.
\<close>

section \<open>Values assembled in place\<close>

lemma typed_if [typing]: "okAll P r \<Longrightarrow> okAll P s \<Longrightarrow> okAll P (if c then r else s)"
  by simp

lemma typed_list_in_place [typing]:
  assumes "\<And>el e. okAll (typedOpt e False) (g el e False)"
  shows "okAll (typedOpt ty nul) (andThen (beginList ty) (\<lambda>la.
    andThen (forEach (\<lambda>el la. la_val la (g el)) els la) (\<lambda>la. andThen (la_done la) (\<lambda>t. Ok (Some t)))))"
  using assms
  by (intro okAll_andThen [OF typed_beginList] typed_then_done [OF okAll_forEach typed_la_done])
    (auto intro: typed_la_val)

lemma typed_assembleBytesList [typing]: "okAll (typedOpt ty nul) (assembleBytesList ty bs)"
  unfolding assembleBytesList_def by (rule typing)+

lemma typed_accessElement [typing]: "okAll (typedOpt ty nul) (assembleAccessElement el ty nul)"
  unfolding assembleAccessElement_def by (rule typed_then typing | assumption)+

lemma typed_rctLog [typing]: "okAll (typedOpt ty nul) (rct_assembleLog l ty nul)"
  unfolding rct_assembleLog_def by (rule typed_then typing | assumption)+

section \<open>Structs\<close>

text \<open>A table of unpack functions, run between \<open>BeginMap\<close> and \<open>Finish\<close>.\<close>

definition keepsTyped :: "tyname \<Rightarrow> (sasm \<Rightarrow> sasm res) \<Rightarrow> bool" where
  "keepsTyped ty f \<longleftrightarrow> (\<forall>ma. structOK ty ma \<longrightarrow> okAll (structOK ty) (f ma))"

lemma keepsTypedI: "(\<And>ma. structOK ty ma \<Longrightarrow> okAll (structOK ty) (f ma)) \<Longrightarrow> keepsTyped ty f"
  by (simp add: keepsTyped_def)

lemma typed_table:
  assumes "list_all (keepsTyped ty) fns"
  shows "okAll (typedAs ty) (andThen (beginStruct ty) (\<lambda>ma. andThen (wrapErr m (runAll fns ma)) sa_done))"
proof (rule typed_then(3))
  fix ma assume "structOK ty ma"
  then have "okAll (structOK ty) (wrapErr m (runAll fns ma))"
    using assms by (intro okAll_wrapErr okAll_runAll) (auto simp: list_all_iff keepsTyped_def)
  then show "okAll (typedAs ty) (andThen (wrapErr m (runAll fns ma)) sa_done)"
    by (rule okAll_andThen [OF _ typed_sa_done])
qed

lemma typed_nullable:
  "okAll (typedOpt ty nul) (case p of None \<Rightarrow> assignNull ty nul | Some v \<Rightarrow> assignBytes ty (f v))"
  "okAll (typedOpt ty nul) (if c then assignNull ty nul else assignBytes ty b)"
  by (auto intro: typing split: option.split simp del: assignNull.simps)

lemma typed_link: "(\<And>l. okAll P (f l)) \<Longrightarrow> okAll P (andThen (hashLink E c m d) f)"
  by (rule okAll_any)

lemma typed_required:
  "(\<And>v. okAll P (f v)) \<Longrightarrow> okAll P (case p of None \<Rightarrow> Fail e | Some v \<Rightarrow> f v)"
  by (cases p) (auto intro: typing)

lemmas header_unpack_defs = header_unpackNonce_def header_unpackMixDigest_def header_unpackExtra_def
  header_unpackTime_def header_unpackGasUsed_def header_unpackGasLimit_def header_unpackNumber_def
  header_unpackDifficulty_def header_unpackBloom_def header_unpackRctRootCID_def
  header_unpackTxRootCID_def header_unpackStateRootCID_def header_unpackCoinbase_def
  header_unpackUnclesCID_def header_unpackParentCID_def header_unpackBaseFee_def

lemmas account_unpack_defs = account_unpackNonce_def account_unpackBalance_def
  account_unpackStorageRootCID_def account_unpackCodeCID_def

lemmas log_unpack_defs = log_unpackAddress_def log_unpackTopics_def log_unpackData_def

lemmas tx_unpack_defs = tx_unpackTxType_def tx_unpackChainID_def tx_unpackAccountNonce_def
  tx_unpackGasPrice_def tx_unpackGasFeeCap_def tx_unpackGasTipCap_def tx_unpackGasLimit_def
  tx_unpackRecipient_def tx_unpackAmount_def tx_unpackData_def tx_unpackAccessList_def
  tx_unpackSignatureValues_def

lemmas rct_unpack_defs = rct_unpackTxType_def rct_unpackPostStateOrStatus_def
  rct_unpackCumulativeGasUsed_def rct_unpackBloom_def rct_unpackLogs_def rct_unpackLogRootCID_def

lemma typed_DecodeHeader: "okAll (typedAs TyHeader) (DecodeHeader E h)"
  unfolding DecodeHeader_def
proof (rule typed_table)
  show "list_all (keepsTyped TyHeader) (map (\<lambda>upFunc. upFunc E h) header_requiredUnpackFuncs)"
    unfolding header_requiredUnpackFuncs_def list.map list.pred_inject(2)
    by (intro conjI list.pred_inject(1) keepsTypedI; unfold header_unpack_defs; (rule typed_entry typed_nullable typed_required typed_link typed_then typing | assumption)+)
qed

lemma typed_DecodeAccount: "okAll (typedAs TyAccount) (DecodeAccount E a)"
  unfolding DecodeAccount_def
proof (rule typed_table)
  show "list_all (keepsTyped TyAccount) (map (\<lambda>upFunc. upFunc E a) account_requiredUnpackFuncs)"
    unfolding account_requiredUnpackFuncs_def list.map list.pred_inject(2)
    by (intro conjI list.pred_inject(1) keepsTypedI; unfold account_unpack_defs; (rule typed_entry typed_nullable typed_required typed_link typed_then typing | assumption)+)
qed

lemma typed_DecodeLog: "okAll (typedAs TyLog) (DecodeLog l)"
  unfolding DecodeLog_def
proof (rule typed_table)
  show "list_all (keepsTyped TyLog) (map (\<lambda>upFunc. upFunc l) log_requiredUnpackFuncs)"
    unfolding log_requiredUnpackFuncs_def list.map list.pred_inject(2)
    by (intro conjI list.pred_inject(1) keepsTypedI; unfold log_unpack_defs; (rule typed_entry typed_nullable typed_required typed_link typed_then typing | assumption)+)
qed

lemma typed_DecodeTx: "okAll (typedAs TyTransaction) (DecodeTx t)"
  unfolding DecodeTx_def
proof (rule typed_table)
  show "list_all (keepsTyped TyTransaction) (map (\<lambda>upFunc. upFunc t) tx_requiredUnpackFuncs)"
    unfolding tx_requiredUnpackFuncs_def list.map list.pred_inject(2)
    by (intro conjI list.pred_inject(1) keepsTypedI; unfold tx_unpack_defs; (rule typed_entry typed_nullable typed_required typed_link typed_then typing | assumption)+)
qed

lemma typed_rct_status: "keepsTyped TyReceipt (rct_unpackPostStateOrStatus E r)"
  unfolding rct_unpackPostStateOrStatus_def
  by (rule keepsTypedI typed_then typed_if | (rule okAll_andThen, rule typed_if) | rule typing | assumption)+

lemma typed_rct_logRoot: "keepsTyped TyReceipt (rct_unpackLogRootCID E r)"
  unfolding rct_unpackLogRootCID_def
  by (rule keepsTypedI, rule okAll_any) (rule typing | assumption)+

lemma typed_DecodeReceipt: "okAll (typedAs TyReceipt) (DecodeReceipt E r)"
  unfolding DecodeReceipt_def
proof (rule typed_table)
  show "list_all (keepsTyped TyReceipt) (map (\<lambda>upFunc. upFunc E r) rct_requiredUnpackFuncs)"
    unfolding rct_requiredUnpackFuncs_def list.map list.pred_inject(2)
    by (intro conjI list.pred_inject(1) typed_rct_status typed_rct_logRoot keepsTypedI;
      unfold rct_unpack_defs; (rule typed_entry typing | assumption)+)
qed

lemma typed_node [typing]: "typedAs ty t \<Longrightarrow> okAll (typedOpt ty' nul) (assignNode ty' nul wnil (NTyped t))"
  by (rule typed_assignNode) (simp add: typedAs_def)

lemma typed_DecodeUncles: "okAll (typedAs TyUncles) (DecodeUncles E hs)"
  unfolding DecodeUncles_def
proof (rule okAll_andThen [OF typed_beginList])
  fix la assume "listOK TyUncles la"
  then have "okAll (listOK TyUncles) (forEach (\<lambda>uncle la.
      andThen (wrapErr ''invalid DAG-ETH Uncles binary'' (DecodeHeader E uncle)) (\<lambda>node.
        la_val la (\<lambda>ty nul. assignNode ty nul False (NTyped node)))) hs la)"
    by (rule okAll_forEach) (rule okAll_andThen [OF okAll_wrapErr [OF typed_DecodeHeader]] typed_la_val typing | assumption)+
  then show "okAll (typedAs TyUncles) (andThen (forEach (\<lambda>uncle la.
      andThen (wrapErr ''invalid DAG-ETH Uncles binary'' (DecodeHeader E uncle)) (\<lambda>node.
        la_val la (\<lambda>ty nul. assignNode ty nul False (NTyped node)))) hs la) la_done)"
    by (rule okAll_andThen [OF _ typed_la_done])
qed

lemma typed_DecodeBytes:
  "okAll (typedAs TyHeader) (header_DecodeBytes E b)" "okAll (typedAs TyUncles) (uncles_DecodeBytes E b)"
  "okAll (typedAs TyTransaction) (tx_DecodeBytes E b)" "okAll (typedAs TyReceipt) (rct_DecodeBytes E b)"
  "okAll (typedAs TyAccount) (account_DecodeBytes E b)" "okAll (typedAs TyLog) (log_DecodeBytes E b)"
  unfolding header_DecodeBytes_def uncles_DecodeBytes_def tx_DecodeBytes_def rct_DecodeBytes_def
    account_DecodeBytes_def log_DecodeBytes_def
  by (rule okAll_any, rule typed_DecodeHeader typed_DecodeUncles typed_DecodeTx typed_DecodeReceipt
      typed_DecodeAccount typed_DecodeLog)+

section \<open>Trie nodes\<close>

fun valueType :: "ValueKind \<Rightarrow> tyname" where
  "valueType TX_VALUE = TyTransaction"
| "valueType RCT_VALUE = TyReceipt"
| "valueType STATE_VALUE = TyAccount"
| "valueType LOG_VALUE = TyLog"
| "valueType _ = TyBytes"

lemma typed_member:
  assumes "unionOK ty ua" "okAll (typedAs (valueType k)) r" "k \<noteq> UNKNOWN_VALUE"
  shows "okAll (unionOK ty) (andThen (ua_key ua (ValueKind_String k)) (\<lambda>ua. ua_val ua (\<lambda>ty nul. finished r)))"
proof (rule typed_ua_entry [OF assms(1)])
  fix i assume "idxOf (memberNames ty) (ValueKind_String k) = Some i"
  then have "snd (membersOf ty ! i) = valueType k"
    using assms(3)
    by (cases ty; cases k) (auto simp: memberNames_def membersOf.simps go_Value_def go_Child_def go_TrieNode_def split: if_splits)
  with assms(2) show "okAll (typedOpt (snd (membersOf ty ! i)) False) (finished r)"
    by (simp add: finished_def typed_Some)
qed

lemma typed_unpackValue: "unionOK ty ua \<Longrightarrow> okAll (unionOK ty) (unpackValue E c v ua)"
  unfolding unpackValue_def
  by (intro typed_if typed_member typed_ua_entry typed_scalars okAll_Fail) (simp_all add: typed_DecodeBytes)

lemma typed_assembleValueUnion [typing]: "okAll (typedOpt ty nul) (assembleValueUnion E c v ty nul)"
  unfolding assembleValueUnion_def finished_def
  by (rule okAll_andThen [OF typed_beginUnion]) (rule typed_Some okAll_andThen [OF typed_unpackValue typed_ua_done] | assumption)+

lemma typed_item:
  "(\<And>b. okAll P (f b)) \<Longrightarrow> (\<And>xs. okAll P (g xs)) \<Longrightarrow>
   okAll P (andThen (idx items i) (\<lambda>x. case x of RBytes b \<Rightarrow> f b | RList xs \<Rightarrow> g xs))"
  by (rule okAll_any) (auto split: rlpItem.split)

lemma typed_unpackLeafNode: "structOK ty ma \<Longrightarrow> okAll (structOK ty) (unpackLeafNode E c fs ma)"
  unfolding unpackLeafNode_def
  by (rule typed_item typed_then typing | assumption)+

lemma typed_unpackExtensionNode: "structOK ty ma \<Longrightarrow> okAll (structOK ty) (unpackExtensionNode E c fs ma)"
  unfolding unpackExtensionNode_def
  by (rule typed_item typed_then typing okAll_any [of _ _ "Keccak256ToCid E c _"] | assumption)+

lemma typed_assembleStruct:
  "(\<And>ma. structOK ty ma \<Longrightarrow> okAll (structOK ty) (f ma)) \<Longrightarrow> okAll (typedOpt ty nul) (assembleStruct f ty nul)"
  unfolding assembleStruct_def finished_def
  by (intro typed_then(3) typed_Some okAll_andThen [OF _ typed_sa_done])

lemma typed_assembleUnion:
  "(\<And>e. okAll (typedOpt e False) (x e False)) \<Longrightarrow> okAll (typedAs ty) (assembleUnion k x ty)"
  unfolding assembleUnion_def
  by (rule okAll_andThen [OF typed_beginUnion], rule okAll_andThen [OF typed_ua_entry typed_ua_done])

lemma typed_embeddedLeaf: "okAll (typedAs TyChild) (embeddedLeaf E c fs)"
  unfolding embeddedLeaf_def finished_def
  by (auto intro!: okAll_Fail okAll_any typed_assembleUnion typed_Some typed_assembleStruct typed_unpackLeafNode
      split: prod.split)

lemma typed_unpackChild: "structOK ty ma \<Longrightarrow> okAll (structOK ty) (unpackChild E c fs i ma)"
  unfolding unpackChild_def
  by (rule typed_then(1) typed_item typed_if okAll_any [of _ _ "Keccak256ToCid E c _"]
      okAll_andThen [OF typed_embeddedLeaf] okAll_andThen [OF typed_assembleUnion] typing | assumption)+

lemma typed_unpackBranchNode: "structOK ty ma \<Longrightarrow> okAll (structOK ty) (unpackBranchNode E c fs ma)"
  unfolding unpackBranchNode_def
proof (rule okAll_andThen)
  assume "structOK ty ma"
  then show "okAll (structOK ty) (forEach (unpackChild E c fs) [0..<16] ma)"
    by (rule okAll_forEach) (rule typed_unpackChild)
qed (rule typed_then(1) typed_item typing | assumption)+

lemma typed_unpackTrieNode: "okAll (typedAs TyTrieNode) (unpackTrieNode E c fs)"
  unfolding unpackTrieNode_def
proof (rule okAll_andThen [OF typed_beginUnion], rule okAll_andThen [OF _ typed_ua_done])
  fix ua assume ua: "unionOK TyTrieNode ua"
  have entry: "okAll (unionOK TyTrieNode) (andThen (ua_key ua k) (\<lambda>ua. ua_val ua (assembleStruct f)))"
    if "\<And>ty ma. structOK ty ma \<Longrightarrow> okAll (structOK ty) (f ma)" for f k
    using that by (intro typed_ua_entry [OF ua] typed_assembleStruct)
  show "okAll (unionOK TyTrieNode)
      (if length fs = 2 then
         andThen (decodeTwoMemberNode fs) (\<lambda>(nodeKind, decoded).
         case nodeKind of
           EXTENSION_NODE \<Rightarrow>
             andThen (ua_key ua (NodeKind_String EXTENSION_NODE))
               (\<lambda>ma. ua_val ma (assembleStruct (unpackExtensionNode E c decoded)))
         | LEAF_NODE \<Rightarrow>
             andThen (ua_key ua (NodeKind_String LEAF_NODE))
               (\<lambda>ma. ua_val ma (assembleStruct (unpackLeafNode E c decoded)))
         | _ \<Rightarrow> Fail (Err ''unrecognized trie node type''))
       else if length fs = 17 then
         andThen (ua_key ua (NodeKind_String BRANCH_NODE))
           (\<lambda>ma. ua_val ma (assembleStruct (unpackBranchNode E c fs)))
       else Ok ua)"
    using entry typed_unpackExtensionNode typed_unpackLeafNode typed_unpackBranchNode ua
    by (auto intro!: okAll_any okAll_Ok okAll_Fail split: NodeKind.split simp del: NodeKind_String.simps)
qed

lemma typed_DecodeTrieNode: "okAll (typedAs TyTrieNode) (DecodeTrieNode E c rd)"
  unfolding DecodeTrieNode_def DecodeTrieNodeBytes_def by (intro okAll_any typed_unpackTrieNode)

end
