(* ===== verification/Path_Properties.thy ===== *)
theory Path_Properties
  imports Shared_Utils
begin

text \<open>
  The properties of the compact (hex-prefix) encoding of trie paths: the two conversions are inverse
  to each other on valid paths and valid encodings, packing never fails, and the encoded path of an
  address is the compact form of its leaf key.
\<close>

section \<open>Round trips\<close>

lemma path_packs:
  assumes "validPath hex"
  shows "\<exists>c. HexToCompact hex = Ok c \<and> CompactToHex c = hex \<and> validCompact c \<and> (hd c div 16 \<ge> 2 \<longleftrightarrow> hasTerm hex)"
proof -
  obtain c bs where "hexToCompact hex = Ok (c # bs)" "compactToHex (c # bs) = hex" "validCompact (c # bs)"
      "c div 16 < 2 \<longleftrightarrow> \<not> hasTerm hex"
    using compactToHex_hexToCompact [OF assms] by auto
  then show ?thesis by (intro exI [of _ "c # bs"]) (auto simp: HexToCompact_def CompactToHex_def not_less [symmetric])
qed

lemma compact_unpacks:
  assumes "validCompact c"
  shows "validPath (CompactToHex c) \<and> HexToCompact (CompactToHex c) = Ok c"
proof -
  obtain f cs where c: "c = f # cs" using assms by (cases c) (auto simp: validCompact_def)
  define body where "body = (if odd (f div 16) then [f mod 16] else []) @ splitNibbles cs"
  have hex: "compactToHex c = body @ (if f div 16 < 2 then [] else [16])"
    by (simp add: c compactToHex_Cons body_def)
  have nib: "list_all nibble body" by (simp add: body_def)
  with hasTerm_nibbles [OF nib] have "validPath (CompactToHex c)"
    by (auto simp: validPath_def CompactToHex_def hex)
  with hexToCompact_compactToHex [OF assms] show ?thesis
    by (simp add: HexToCompact_def CompactToHex_def)
qed

text \<open>C30: Packing and unpacking are inverse to each other: a path of nibbles, with or without the leaf terminator, is packed
  into a valid compact encoding that unpacks to the same path and is flagged as a leaf exactly when the path has
  the terminator; and a compact encoding with a defined flag and zero padding unpacks to a valid path whose packing
  is the same encoding.\<close>

theorem path_compact_path:
  "(validPath hex \<longrightarrow> (\<exists>c. HexToCompact hex = Ok c \<and> CompactToHex c = hex \<and> validCompact c \<and>
      (hd c div 16 \<ge> 2 \<longleftrightarrow> hasTerm hex))) \<and>
   (validCompact c \<longrightarrow> validPath (CompactToHex c) \<and> HexToCompact (CompactToHex c) = Ok c)"
  using path_packs compact_unpacks by blast

theorem path_compact_path_witness:
  "(\<exists>c. HexToCompact [1, 2, 3, 16] = Ok c \<and> CompactToHex c = [1, 2, 3, 16] \<and> validCompact c \<and> hd c div 16 \<ge> 2) \<and>
   HexToCompact (CompactToHex [0x31, 0x23]) = Ok [0x31, 0x23]"
proof -
  have "validPath [1, 2, 3, 16]" "hasTerm [1, 2, 3, 16]" by (simp_all add: validPath_def hasTerm_def nibble_def)
  moreover have "validCompact [0x31, 0x23]" by (simp add: validCompact_def)
  ultimately show ?thesis using path_compact_path [of "[1, 2, 3, 16]" "[0x31, 0x23]"] by blast
qed

section \<open>Totality\<close>

text \<open>Packing never fails or panics, whatever the bytes of the path: the number of bytes is half the number of
  nibbles without the terminator, rounded down, plus one.\<close>

theorem HexToCompact_length:
  "\<exists>c. HexToCompact hex = Ok c \<and> length c = (length hex - (if hasTerm hex then 1 else 0)) div 2 + 1"
  using hexToCompact_total [of hex] by (auto simp: HexToCompact_def pathBody_def)

section \<open>Leaf keys\<close>

text \<open>C33: The encoded path of an address is the compact form of the leaf path of its key: it unpacks to the
  nibbles of the Keccak hash closed by the terminator, and packing that path gives it back.\<close>

theorem encoded_path_of_address:
  "CompactToHex (AddressToEncodedPath E a) = keybytesToHex (AddressToLeafKey E a) \<and>
   HexToCompact (keybytesToHex (AddressToLeafKey E a)) = Ok (AddressToEncodedPath E a)"
proof -
  have path: "CompactToHex (AddressToEncodedPath E a) = keybytesToHex (AddressToLeafKey E a)"
    by (simp add: CompactToHex_def AddressToEncodedPath_def evenLeafFlag_def AddressToLeafKey_def
        compactToHex_Cons keybytesToHex_def)
  have "validCompact (AddressToEncodedPath E a)"
    by (simp add: validCompact_def AddressToEncodedPath_def evenLeafFlag_def)
  from hexToCompact_compactToHex [OF this] path show ?thesis
    by (simp add: HexToCompact_def CompactToHex_def)
qed

end
