(* ===== verification/Assembler_Progress.thy ===== *)
theory Assembler_Progress
  imports Assembler_Typing
begin

text \<open>
  Progress of the struct assembler: from which states a client can still complete the struct, when every field is given
  in one \<open>AssignNode\<close> on the assembler of the field.  The only dead end is a key assembler that was asked for when every
  field had its value.  The value of a field is what \<open>assignNode\<close> makes of a node that exists, so that a field is
  never given anything its own assembler would refuse.
\<close>

section \<open>Every type has a value\<close>

definition inhabited :: "tyname \<Rightarrow> bool" where
  "inhabited ty \<longleftrightarrow> (\<exists>t. tnWf t \<and> tnType t = ty)"

lemma inhabited_scalar: "typeDecl ty \<in> {DBytes, DLink, DString, DBool} \<Longrightarrow> inhabited ty"
  unfolding inhabited_def
  by (elim insertE emptyE)
    (rule exI [of _ "TnBytes ty []"] exI [of _ "TnLink ty (CidLink [])"] exI [of _ "TnString ty []"] exI [of _ "TnBool ty False"], simp)+

lemma inhabited_list: "typeDecl ty = DList e \<Longrightarrow> inhabited ty"
  unfolding inhabited_def by (rule exI [of _ "TnList ty []"]) simp

lemma inhabited_struct:
  assumes "typeDecl ty = DStruct (fieldsOf ty)" "\<forall>fd \<in> set (fieldsOf ty). fnullable fd \<or> inhabited (ftype fd)"
  shows "inhabited ty"
proof -
  define pick where "pick = (\<lambda>fd :: field. if fnullable fd then None else Some (SOME t. tnWf t \<and> tnType t = ftype fd))"
  have pick: "case pick fd of None \<Rightarrow> fnullable fd | Some t \<Rightarrow> tnWf t \<and> tnType t = ftype fd" if "fd \<in> set (fieldsOf ty)" for fd
    using someI_ex [of "\<lambda>t. tnWf t \<and> tnType t = ftype fd"] that assms(2) by (auto simp: pick_def inhabited_def)
  have "tnWf (TnStruct ty (map pick (fieldsOf ty)))"
    using assms(1) pick by (fastforce simp: list_all_iff zip_map2 zip_same_conv_map split: option.splits)
  then show ?thesis unfolding inhabited_def by (intro exI [of _ "TnStruct ty (map pick (fieldsOf ty))"]) simp
qed

lemma inhabited_union:
  assumes "membersOf ty \<noteq> []" "inhabited (snd (membersOf ty ! 0))"
  shows "inhabited ty"
proof -
  obtain t where "tnWf t" "tnType t = snd (membersOf ty ! 0)" using assms(2) by (auto simp: inhabited_def)
  then have "tnWf (TnUnion ty 1 t)" using assms(1) by (simp add: Suc_le_eq)
  then show ?thesis unfolding inhabited_def by (intro exI [of _ "TnUnion ty 1 t"]) simp
qed

definition flat :: "tyname \<Rightarrow> bool" where
  "flat ty = (case typeDecl ty of DStruct _ \<Rightarrow> False | DUnion _ \<Rightarrow> False | _ \<Rightarrow> True)"

lemma inhabited_flat: "flat ty \<Longrightarrow> inhabited ty"
  by (cases "typeDecl ty") (auto simp: flat_def intro: inhabited_list inhabited_scalar)

lemma inhabited_flat_struct:
  assumes "typeDecl ty = DStruct fs" "list_all (\<lambda>fd. fnullable fd \<or> flat (ftype fd)) fs"
  shows "inhabited ty"
  using assms by (intro inhabited_struct) (auto simp: fieldsOf.simps list_all_iff intro: inhabited_flat)

lemma inhabited_all: "inhabited ty"
proof -
  have structs: "inhabited TyAccessElement" "inhabited TyAccount" "inhabited TyBlock" "inhabited TyFrame" "inhabited TyHeader"
    "inhabited TyLog" "inhabited TyReceipt" "inhabited TyTransaction" "inhabited TyTrieBranchNode"
    "inhabited TyTrieExtensionNode" "inhabited TyTxTrace"
    by (rule inhabited_flat_struct, simp, simp add: go_defs go_field_defs flat_def)+
  have "inhabited TyValue" by (rule inhabited_union) (simp_all add: membersOf.simps go_Value_def structs)
  then have "inhabited TyTrieLeafNode"
    by (intro inhabited_struct) (auto simp: fieldsOf.simps go_TrieLeafNode_def go_field_defs flat_def intro: inhabited_flat)
  moreover have "inhabited TyTrieNode" by (rule inhabited_union) (simp_all add: membersOf.simps go_TrieNode_def structs)
  moreover have "inhabited TyChild"
    by (rule inhabited_union) (simp_all add: membersOf.simps go_Child_def inhabited_flat flat_def)
  ultimately show ?thesis
    using structs \<open>inhabited TyValue\<close> by (cases ty) (simp_all add: inhabited_flat flat_def)
qed

section \<open>Calls\<close>

text \<open>The calls of a client that gives every field by one \<open>AssignNode\<close> on the assembler it was handed.  That assembler is
  new, since a field is given once; for a nullable struct or union its target is nil.\<close>

inductive asm_call :: "sasm \<Rightarrow> sasm \<Rightarrow> bool" where
  call_key: "assembleKey st = Ok st' \<Longrightarrow> asm_call st st'"
| call_keyString: "keyAssignString st k = Ok st' \<Longrightarrow> asm_call st st'"
| call_value: "assembleValue st = Ok st' \<Longrightarrow> asm_call st st'"
| call_entry: "assembleEntry st k = Ok st' \<Longrightarrow> asm_call st st'"
| call_assign: "sa_state st = maState_midValue \<Longrightarrow> pending st \<Longrightarrow> nodeTyped v \<Longrightarrow>
    assignNode (ftype (curField st)) (fnullable (curField st)) (fnullable (curField st) \<and> ptrMaybe (ftype (curField st))) v = Ok r \<Longrightarrow>
    asm_call st (storeChild st r)"
| call_finish: "sa_finish st = Ok st' \<Longrightarrow> asm_call st st'"

lemma asm_call_step: "asm_call st st' \<Longrightarrow> asm_step st st'"
proof (induction rule: asm_call.induct)
  case (call_assign st v r)
  with typed_assignNode [OF call_assign.hyps(3)] have "r = None \<longrightarrow> fnullable (curField st)"
    by (fastforce simp: okAll_def typedOpt_def)
  with call_assign show ?case by (intro step_assign) auto
qed (auto intro: asm_step.intros)

lemma asm_calls_steps: "asm_call\<^sup>*\<^sup>* st st' \<Longrightarrow> asm_step\<^sup>*\<^sup>* st st'"
  by (induction rule: rtranclp_induct) (auto dest: asm_call_step)

section \<open>Steps that make progress\<close>

definition unseen :: "sasm \<Rightarrow> nat set" where
  "unseen st = {i. i < length (fieldsOf (sa_ty st)) \<and> \<not> bit (sa_s st) i}"

definition canFinish :: "sasm \<Rightarrow> bool" where
  "canFinish st \<longleftrightarrow> (\<exists>st'. asm_call\<^sup>*\<^sup>* st st' \<and> sa_state st' = maState_finished)"

lemma finite_unseen [simp]: "finite (unseen st)"
  by (simp add: unseen_def)

lemma canFinish_step: "asm_call st st' \<Longrightarrow> canFinish st' \<Longrightarrow> canFinish st"
  by (auto simp: canFinish_def intro: converse_rtranclp_into_rtranclp)

lemma idxOf_field: "i < length (fieldsOf ty) \<Longrightarrow> idxOf (fieldNames ty) (fieldNames ty ! i) = Some i"
  by (simp add: idxOf_nth)

lemma sa_settled_pending: "sa_settled st \<Longrightarrow> sa_state st = maState_midValue \<Longrightarrow> \<not> pending st"
  by (auto simp: sa_settled_def pending_def split: if_splits)

lemma settled_storeChild:
  assumes "machineInv ty st" "sa_state st = maState_midValue"
  shows "sa_settled (storeChild st (Some v))" "unseen (storeChild st (Some v)) = unseen st"
    "sa_wnil (storeChild st (Some v)) = sa_wnil st" "machineInv ty (storeChild st (Some v))"
proof -
  show "machineInv ty (storeChild st (Some v))" using storeChild_inv [OF assms, of "Some v"] by simp
  have "sa_f st < length (fieldsOf ty)" "sa_ty st = ty" "length (sa_m st) = length (fieldsOf ty)"
    using assms by (auto simp: machineInv_def current_def sa_shape_def)
  then show "sa_settled (storeChild st (Some v))" using assms(2) by (auto simp: sa_settled_def curField_def)
qed (auto simp: unseen_def)

lemma finish_all_seen:
  assumes "sa_settled st" "unseen st = {}"
  shows "canFinish st"
proof -
  obtain st0 where st0: "sa_ready st = Ok st0" "sa_ty st0 = sa_ty st" "sa_s st0 = sa_s st"
    using sa_ready_settled [OF assms(1)] by blast
  then have "sa_s st0 AND mask (length (fieldsOf (sa_ty st0))) = mask (length (fieldsOf (sa_ty st0)))"
    using assms(2) by (auto simp: unseen_def and_mask_eq_mask_iff)
  then have "sa_finish st = Ok (st0\<lparr>sa_state := maState_finished\<rparr>)"
    using st0 by (auto simp: sa_finish_def Let_def)
  then have "asm_call st (st0\<lparr>sa_state := maState_finished\<rparr>)" by (rule call_finish)
  then show ?thesis by (auto simp: canFinish_def)
qed

text \<open>Handing out a child leaves the machine in the middle of a value that has not been reported.\<close>

lemma sa_child_pending:
  assumes "sa_shape ty st" "\<not> sa_wnil st" "sa_state st = maState_midValue" "sa_f st < length (fieldsOf ty)"
    and "sa_cm st = Maybe_Absent"
  shows "\<exists>st'. sa_child st = Ok st' \<and> sa_state st' = maState_midValue \<and> pending st' \<and> sa_s st' = sa_s st \<and>
    sa_ty st' = sa_ty st \<and> \<not> sa_wnil st'"
  using assms by (auto simp: sa_child_def pending_def sa_shape_def curField_def)

text \<open>The assembler of the field accepts a value of its type.\<close>

lemma call_report:
  assumes "sa_state st = maState_midValue" "pending st"
  obtains t where "asm_call st (storeChild st (Some t))"
proof -
  obtain t where "tnWf t" "tnType t = ftype (curField st)" using inhabited_all unfolding inhabited_def by blast
  with call_assign [OF assms, of "NTyped t" "Some t"] that show thesis by (simp add: assignNode_same)
qed

lemma unseen_key:
  assumes "i \<in> unseen st" "sa_ty st' = sa_ty st" "sa_s st' = sa_s st + 2 ^ i"
  shows "unseen st' = unseen st - {i}"
  using assms bit_add_power_int [of "sa_s st" i] by (auto simp: unseen_def)

lemma settled_canFinish:
  "machineInv ty st \<Longrightarrow> sa_settled st \<Longrightarrow> \<not> sa_wnil st \<Longrightarrow> canFinish st"
proof (induction "card (unseen st)" arbitrary: st rule: less_induct)
  case less
  show ?case
  proof (cases "unseen st = {}")
    case True
    then show ?thesis using finish_all_seen less.prems by blast
  next
    case False
    then obtain i where i: "i \<in> unseen st" by blast
    obtain st0 where st0: "sa_ready st = Ok st0" "sa_state st0 = maState_initial" "sa_ty st0 = sa_ty st"
        "sa_wnil st0 = sa_wnil st" "sa_s st0 = sa_s st"
      using sa_ready_settled [OF less.prems(2)] by blast
    have inv0: "machineInv ty st0" "sa_cm st0 = Maybe_Absent"
      using sa_ready_inv [OF less.prems(1) st0(1)] st0(2) by (auto simp: machineInv_def)
    let ?k = "fieldNames (sa_ty st0) ! i" and ?s = "st0\<lparr>sa_s := sa_s st0 + 2 ^ i, sa_state := maState_midValue, sa_f := i\<rparr>"
    have ty: "sa_ty st0 = ty" using inv0(1) by (simp add: machineInv_def sa_shape_def)
    have len: "i < length (fieldsOf ty)" "\<not> bit (sa_s st0) i" using i st0 ty by (auto simp: unseen_def)
    obtain st1 where st1: "sa_child ?s = Ok st1" "sa_state st1 = maState_midValue" "pending st1"
        "sa_s st1 = sa_s st0 + 2 ^ i" "sa_ty st1 = sa_ty st0" "\<not> sa_wnil st1"
      using sa_child_pending [of ty ?s] inv0 st0 less.prems(3) len(1) by (auto simp: machineInv_def sa_shape_def)
    have entry: "assembleEntry st ?k = Ok st1"
      using len st1(1) and_exp_neq_0_iff [of "sa_s st0" i]
      by (simp add: assembleEntry_def st0(1) ty idxOf_field del: andThen_eq_Ok)
    have inv1: "machineInv ty st1" by (rule assembleEntry_inv [OF less.prems(1) entry])
    obtain t where t: "asm_call st1 (storeChild st1 (Some t))" using call_report [OF st1(2,3)] .
    let ?st2 = "storeChild st1 (Some t)"
    note st2 = settled_storeChild [OF inv1 st1(2), of t]
    have "unseen ?st2 = unseen st - {i}"
      using unseen_key [OF i, of st1] st1(4,5) st0(3,5) st2(2) by simp
    then have "card (unseen ?st2) < card (unseen st)" using i by (intro psubset_card_mono) auto
    from less.hyps [OF this] st2 st1(6) have "canFinish ?st2" by blast
    then have "canFinish st1" using canFinish_step t by blast
    then show ?thesis using canFinish_step call_entry entry by blast
  qed
qed

section \<open>Every state\<close>

lemma sa_tidy_wnil: "sa_tidy st = Some st' \<Longrightarrow> sa_wnil st' = sa_wnil st"
  by (auto simp: sa_tidy_def split: if_splits maybe.splits)

lemma sa_ready_wnil: "sa_ready st = Ok st' \<Longrightarrow> sa_wnil st' = sa_wnil st"
  by (auto simp: sa_ready_def sa_tidy_wnil split: maState.splits option.splits)

lemma sa_child_wnil: "sa_child st = Ok st' \<Longrightarrow> sa_wnil st' = sa_wnil st"
  by (auto simp: sa_child_def split: if_splits)

lemma assembleKey_wnil: "assembleKey st = Ok st' \<Longrightarrow> sa_wnil st' = sa_wnil st"
  by (auto simp: assembleKey_def dest: sa_ready_wnil)

lemma keyAssignString_wnil: "keyAssignString st k = Ok st' \<Longrightarrow> sa_wnil st' = sa_wnil st"
  by (auto simp: keyAssignString_def split: if_splits option.splits)

lemma assembleValue_wnil: "assembleValue st = Ok st' \<Longrightarrow> sa_wnil st' = sa_wnil st"
  by (auto simp: assembleValue_def split: maState.splits dest: sa_child_wnil)

lemma assembleEntry_wnil: "assembleEntry st k = Ok st' \<Longrightarrow> sa_wnil st' = sa_wnil st"
  by (auto simp: assembleEntry_def split: if_splits option.splits dest!: sa_ready_wnil sa_child_wnil)

lemma sa_finish_wnil: "sa_finish st = Ok st' \<Longrightarrow> sa_wnil st' = sa_wnil st"
  by (auto simp: sa_finish_def Let_def split: if_splits dest: sa_ready_wnil)

lemma storeChild_wnil: "sa_wnil (storeChild st r) = sa_wnil st"
  by (cases r) auto

lemma asm_step_wnil: "asm_step st st' \<Longrightarrow> sa_wnil st' = sa_wnil st"
  by (induction rule: asm_step.induct)
    (simp_all only: assembleKey_wnil keyAssignString_wnil assembleValue_wnil assembleEntry_wnil sa_finish_wnil storeChild_wnil)

lemma asm_steps_wnil: "asm_step\<^sup>*\<^sup>* st st' \<Longrightarrow> sa_wnil st' = sa_wnil st"
  by (induction rule: rtranclp_induct) (auto dest: asm_step_wnil)

lemma midValue_canFinish:
  assumes "machineInv ty st" "sa_state st = maState_midValue" "\<not> sa_wnil st"
  shows "canFinish st"
proof (cases "pending st")
  case True
  obtain t where t: "asm_call st (storeChild st (Some t))" using call_report [OF assms(2) True] .
  note st' = settled_storeChild [OF assms(1,2), of t]
  have "canFinish (storeChild st (Some t))" using settled_canFinish [OF st'(4,1)] st'(3) assms(3) by simp
  then show ?thesis using canFinish_step t by blast
next
  case False
  then have "sa_settled st" using assms(1,2) by (simp add: machineInv_def)
  then show ?thesis using settled_canFinish assms by blast
qed

lemma expectValue_canFinish:
  assumes "machineInv ty st" "sa_state st = maState_expectValue" "\<not> sa_wnil st"
  shows "canFinish st"
proof -
  have "sa_shape ty st" "sa_f st < length (fieldsOf ty)" "sa_cm st = Maybe_Absent"
    using assms(1,2) by (auto simp: machineInv_def current_def sa_shape_def)
  then obtain st' where st': "sa_child (st\<lparr>sa_state := maState_midValue\<rparr>) = Ok st'" "sa_state st' = maState_midValue" "\<not> sa_wnil st'"
    using sa_child_pending [of ty "st\<lparr>sa_state := maState_midValue\<rparr>"] assms(3) by auto
  then have "assembleValue st = Ok st'" using assms(2) by (simp add: assembleValue_def)
  then show ?thesis
    using midValue_canFinish [OF assembleValue_inv [OF assms(1)] st'(2,3)] canFinish_step call_value by blast
qed

lemma midKey_canFinish:
  assumes "machineInv ty st" "sa_state st = maState_midKey" "\<not> sa_wnil st" "i \<in> unseen st"
  shows "canFinish st"
proof -
  let ?st' = "st\<lparr>sa_s := sa_s st + 2 ^ i, sa_state := maState_expectValue, sa_f := i\<rparr>"
  have "keyAssignString st (fieldNames (sa_ty st) ! i) = Ok ?st'"
    using assms(2,4) and_exp_neq_0_iff [of "sa_s st" i] by (simp add: keyAssignString_def unseen_def idxOf_field)
  then show ?thesis
    using expectValue_canFinish [OF keyAssignString_inv [OF assms(1)]] assms(3) canFinish_step call_keyString by fastforce
qed

inductive_cases asm_callE: "asm_call st st'"

lemma midKey_stuck:
  assumes "sa_state st = maState_midKey" "unseen st = {}"
  shows "\<not> asm_call st st'"
proof
  assume "asm_call st st'"
  then show False
    by (rule asm_callE)
      (use assms in \<open>auto simp: assembleKey_def assembleValue_def assembleEntry_def sa_finish_def sa_ready_def
        keyAssignString_def and_exp_neq_0_iff unseen_def split: if_splits option.splits dest!: idxOf_SomeD\<close>)
qed

text \<open>C18: A client that gives each field by one successful \<open>AssignNode\<close> on the field's assembler can finish the struct from every
  point it can get to: there are always nodes that the remaining fields accept.  The only exception is a key assembler
  that was asked for when all fields were already given: that state is a dead end.\<close>

theorem asm_can_finish:
  assumes "asm_call\<^sup>*\<^sup>* (newStructAsm ty False) st"
  shows "canFinish st \<longleftrightarrow> \<not> (sa_state st = maState_midKey \<and> unseen st = {})"
proof -
  have inv: "machineInv ty st" by (rule asm_steps_inv [OF asm_calls_steps [OF assms] machineInv_new])
  have wnil: "\<not> sa_wnil st" using asm_steps_wnil [OF asm_calls_steps [OF assms]] by (simp add: newStructAsm_def)
  show ?thesis
  proof (cases "sa_state st")
    case maState_initial
    then show ?thesis using settled_canFinish [OF inv _ wnil] by (simp add: sa_settled_def)
  next
    case maState_midKey
    then show ?thesis
      using midKey_canFinish [OF inv _ wnil] midKey_stuck
      by (auto simp: canFinish_def elim: converse_rtranclpE)
  next
    case maState_expectValue
    then show ?thesis using expectValue_canFinish [OF inv _ wnil] by simp
  next
    case maState_midValue
    then show ?thesis using midValue_canFinish [OF inv _ wnil] by simp
  next
    case maState_finished
    then show ?thesis by (auto simp: canFinish_def)
  qed
qed

theorem asm_can_finish_witness:
  "canFinish (newStructAsm TyHeader False) \<and>
   (\<exists>st. assembleEntry (newStructAsm TyTrieLeafNode False) ''Value'' = Ok st \<and> canFinish st)"
proof -
  obtain st :: sasm where st: "assembleEntry (newStructAsm TyTrieLeafNode False) ''Value'' = Ok st" "sa_state st = maState_midValue"
    by (simp add: assembleEntry_def newStructAsm_def sa_ready_def fieldNames_def fieldsOf.simps go_TrieLeafNode_def
        go_field_defs sa_child_def curField_def)
  then have "asm_call\<^sup>*\<^sup>* (newStructAsm TyTrieLeafNode False) st" by (auto intro: call_entry)
  with st asm_can_finish [of TyTrieLeafNode st] asm_can_finish [of TyHeader "newStructAsm TyHeader False"]
  show ?thesis by (auto simp: newStructAsm_def)
qed

end
