(* ===== verification/Representation.thy ===== *)
theory Representation
  imports Assembler_Typing Reference_Env
begin

text \<open>
  The representation views and the assemblers of the representation prototypes.  For structs, lists and
  scalars the representation assemblers repeat the steps of the type-level ones, so the model of these steps
  serves for both; the assemblers of keyed unions (\<open>Value\<close>, \<open>TrieNode\<close>) and of the kinded union \<open>Child\<close>
  differ and are modelled here, step by step.
\<close>

section \<open>The representation assembler of a keyed union\<close>

text \<open>The state is the one of the type-level assembler; the keys are the serial ones.\<close>

definition ruKeyAssignString :: "'v guasm \<Rightarrow> string \<Rightarrow> 'v guasm res" where
  "ruKeyAssignString ua k =
     (if ua_state ua \<noteq> maState_midKey then Panic ''misuse: KeyAssembler held beyond its valid lifetime''
      else if ua_ca ua \<noteq> 0 then
        Fail (ErrNotUnionStructure ''cannot add another entry -- a union can only contain one thing!'')
      else case idxOf (reprKeys (ua_ty ua)) k of
        None \<Rightarrow> Fail (ErrInvalidKey k)
      | Some i \<Rightarrow>
          (if ua_wnil ua then Panic ''nil pointer dereference''
           else Ok (ua\<lparr>ua_ca := Suc i, ua_state := maState_expectValue\<rparr>)))"

text \<open>\<open>ma.AssembleKey().AssignString(k)\<close>; \<open>AssembleKey\<close> is the one of the type-level assembler.\<close>

definition ruKey :: "'v guasm \<Rightarrow> string \<Rightarrow> 'v guasm res" where
  "ruKey ua k = andThen (ua_assembleKey ua) (\<lambda>ua. ruKeyAssignString ua k)"

text \<open>\<open>AssembleValue\<close>: its switch counts the members from 0, while \<open>ca\<close> counts them from 1.  The result is the
  member whose assembler is handed out, and the new state.\<close>

definition ruValue :: "'v guasm \<Rightarrow> (nat \<times> 'v guasm) res" where
  "ruValue ua =
     (case ua_state ua of
        maState_initial \<Rightarrow> Panic ''invalid state: AssembleValue cannot be called when no key is primed''
      | maState_midKey \<Rightarrow> Panic ''invalid state: in the middle of assembling a key''
      | maState_expectValue \<Rightarrow>
          (if ua_ca ua < length (reprKeys (ua_ty ua))
           then Ok (ua_ca ua, ua\<lparr>ua_state := maState_midValue\<rparr>)
           else Panic ''unreachable'')
      | maState_midValue \<Rightarrow> Panic ''invalid state: in the middle of assembling another value''
      | maState_finished \<Rightarrow> Panic ''invalid state: assembler already finished'')"

text \<open>\<open>AssembleEntry\<close> hands out the member of the key.\<close>

definition ruEntry :: "'v guasm \<Rightarrow> string \<Rightarrow> (nat \<times> 'v guasm) res" where
  "ruEntry ua k =
     andThen (ua_ready ua) (\<lambda>ua.
       if ua_ca ua \<noteq> 0 then
         Fail (ErrNotUnionStructure ''cannot add another entry -- a union can only contain one thing!'')
       else case idxOf (reprKeys (ua_ty ua)) k of
         None \<Rightarrow> Fail (ErrInvalidKey k)
       | Some i \<Rightarrow>
           (if ua_wnil ua then Panic ''nil pointer dereference''
            else Ok (i, ua\<lparr>ua_ca := Suc i, ua_state := maState_midValue\<rparr>)))"

section \<open>The representation assembler of \<open>Child\<close>\<close>

text \<open>A fresh assembler: the pointer \<open>ca2\<close> to the assembler of the embedded node is nil, and nothing sets it.\<close>

definition childAssignNull :: "tnode option res" where
  "childAssignNull = Fail (ErrNotUnionStructure ''AssignNull called but is not valid for any of the kinds that are valid members of this union'')"

definition childAssignLink :: "link \<Rightarrow> tnode option res" where
  "childAssignLink l = andThen (assignLink TyLink l) (\<lambda>r.
     case r of Some t \<Rightarrow> Ok (Some (TnUnion TyChild 1 t)) | None \<Rightarrow> Panic ''unreachable'')"

definition childBeginMap :: "uasm res" where
  "childBeginMap = Panic ''nil pointer dereference''"

definition childNotMember :: "string \<Rightarrow> tnode option res" where
  "childNotMember m = Fail (ErrNotUnionStructure (m @ '' called but is not valid for any of the kinds that are valid members of this union''))"

fun childAssignNode :: "node \<Rightarrow> tnode option res" where
  "childAssignNode v =
     (if isNull v then childAssignNull
      else case (case v of NTyped t \<Rightarrow> if tnType t = TyChild then Some t else None | _ \<Rightarrow> None) of
        Some t \<Rightarrow> Ok (Some t)
      | None \<Rightarrow>
        (case nodeKind v of
           KBool \<Rightarrow> childNotMember ''AssignBool''
         | KInt \<Rightarrow> childNotMember ''AssignInt''
         | KFloat \<Rightarrow> childNotMember ''AssignFloat''
         | KString \<Rightarrow> childNotMember ''AssignString''
         | KBytes \<Rightarrow> childNotMember ''AssignBytes''
         | KList \<Rightarrow> childNotMember ''BeginList''
         | KLink \<Rightarrow> andThen (asLink v) childAssignLink
         | KMap \<Rightarrow> andThen childBeginMap (\<lambda>_. Panic ''unreachable'')
         | KNull \<Rightarrow> Panic ''unreachable''))"

section \<open>Values without unions\<close>

fun unionFree :: "tnode \<Rightarrow> bool" where
  "unionFree (TnStruct _ fs) = list_all (\<lambda>x. case x of None \<Rightarrow> True | Some t \<Rightarrow> unionFree t) fs"
| "unionFree (TnList _ ts) = list_all unionFree ts"
| "unionFree (TnUnion _ _ _) = False"
| "unionFree _ = True"

text \<open>The only nullable fields that hold a pointer are those of the branch node, of union types.\<close>

lemma nullable_pointer: "f \<in> set (fieldsOf ty) \<Longrightarrow> fnullable f \<Longrightarrow> ptrMaybe (ftype f) \<Longrightarrow> ftype f \<in> {TyChild, TyValue}"
  by (cases ty) (auto simp: fieldsOf.simps go_defs go_field_defs ptrMaybe_def)

lemma unionFree_type: "tnWf t \<Longrightarrow> unionFree t \<Longrightarrow> tnType t \<notin> {TyChild, TyValue}"
  by (cases t) (auto split: tydecl.splits)

text \<open>A struct assembled from the representations of its fields.\<close>

lemma fieldAt_nth: "i < length (fieldsOf ty) \<Longrightarrow> fieldAt ty (fieldNames ty ! i) = fieldsOf ty ! i"
  by (simp add: fieldAt_def idxOf_nth)

lemma assignNode_repr_field:
  assumes "tnWf (TnStruct ty fs)" "i < length fs"
    and "\<And>t nul wnil. fs ! i = Some t \<Longrightarrow> wnil \<longrightarrow> \<not> ptrMaybe (tnType t) \<Longrightarrow>
      assignNode (tnType t) nul wnil (representation t) = Ok (Some t)"
    and "\<And>t. fs ! i = Some t \<Longrightarrow> unionFree t"
  shows "assignNode (ftype (fieldsOf ty ! i)) (fnullable (fieldsOf ty ! i))
      (fnullable (fieldsOf ty ! i) \<and> ptrMaybe (ftype (fieldsOf ty ! i))) (reprMaybe (fs ! i)) = Ok (fs ! i)"
proof (cases "fs ! i")
  case None
  then have "fnullable (fieldsOf ty ! i)" using assms(1,2) by (auto simp: list_all_length)
  with None show ?thesis by (simp add: assignNode.simps [of _ _ _ NNull])
next
  case (Some t)
  then have t: "tnType t = ftype (fieldsOf ty ! i)" "tnWf t"
    using assms(1,2) by (auto simp: list_all_length split: option.splits)
  have "fieldsOf ty ! i \<in> set (fieldsOf ty)" using assms(1,2) by simp
  with t unionFree_type [OF t(2) assms(4) [OF Some]] have
    "\<not> (fnullable (fieldsOf ty ! i) \<and> ptrMaybe (ftype (fieldsOf ty ! i)))"
    using nullable_pointer by auto
  with assms(3) [OF Some, of False "fnullable (fieldsOf ty ! i)"] t Some show ?thesis by auto
qed

lemma assignNode_repr_struct:
  assumes "tnWf (TnStruct ty fs)"
    and "\<And>i. i < length fs \<Longrightarrow> assignNode (ftype (fieldsOf ty ! i)) (fnullable (fieldsOf ty ! i))
      (fnullable (fieldsOf ty ! i) \<and> ptrMaybe (ftype (fieldsOf ty ! i))) (reprMaybe (fs ! i)) = Ok (fs ! i)"
  shows "assignNode ty nul False (NRepr (TnStruct ty fs)) = Ok (Some (TnStruct ty fs))"
proof -
  let ?es = "zip (fieldNames ty) (map reprMaybe fs)" and ?rs = "map (\<lambda>e. [e]) (zip (fieldNames ty) fs)"
  have len: "length fs = length (fieldsOf ty)" and decl: "typeDecl ty = DStruct (fieldsOf ty)"
    using assms(1) by auto
  let ?f = "\<lambda>e ma. andThen (ma_key ma (fst e)) (\<lambda>ma.
      ma_val ma (\<lambda>ty' nul'. assignNode ty' nul' (nul' \<and> ptrMaybe ty') (snd e)))"
  have puts: "list_all2 (puts_as ty) (map ?f ?es) ?rs"
  proof (rule list_all2_all_nthI)
    fix i assume "i < length (map ?f ?es)"
    then have i: "i < length fs" by simp
    have "puts_as ty (?f (fieldNames ty ! i, reprMaybe (fs ! i))) [(fieldNames ty ! i, fs ! i)]"
      unfolding fst_conv snd_conv
      using i len assms(2) by (intro puts_as_entry [OF _ _ refl]) (auto simp: fieldAt_nth)
    with i len show "puts_as ty (map ?f ?es ! i) (?rs ! i)" by simp
  qed (simp add: len)
  have nulls: "list_all (\<lambda>e. snd e = None \<longrightarrow> nullableIn ty (fst e)) (concat ?rs)"
    using assms(1) len
    by (auto simp: list_all_length nullableIn_def idxOf_nth split: option.splits)
  have "andThen (runAll (map ?f ?es) (newStructAsm ty False)) sa_done = Ok (TnStruct ty fs)"
    using struct_in_order [OF puts _ nulls] len by simp
  then show ?thesis
    using decl by (auto simp: assignNode.simps [of ty] forEach_runAll)
qed

lemma assignNode_repr:
  "tnWf t \<Longrightarrow> unionFree t \<Longrightarrow> wnil \<longrightarrow> \<not> ptrMaybe (tnType t) \<Longrightarrow>
   assignNode (tnType t) nul wnil (representation t) = Ok (Some t)"
proof (induction t arbitrary: nul wnil)
  case (TnStruct ty fs)
  then have wnil: "\<not> wnil" by (simp add: ptrMaybe_def)
  have "unionFree t" if "i < length fs" "fs ! i = Some t" for i t
    using that TnStruct.prems(2) by (auto simp: list_all_length split: option.splits)
  moreover have "assignNode (tnType t) n w (representation t) = Ok (Some t)"
    if "i < length fs" "fs ! i = Some t" "w \<longrightarrow> \<not> ptrMaybe (tnType t)" for i t n w
    using that TnStruct.IH [of "Some t" t w n] TnStruct.prems(1,2)
    by (auto simp: list_all_length in_set_conv_nth split: option.splits)
  ultimately show ?case using TnStruct.prems(1) wnil
    by (auto intro!: assignNode_repr_struct assignNode_repr_field)
next
  case (TnList ty ts)
  then obtain e where e: "typeDecl ty = DList e" "list_all (\<lambda>v. tnType v = e) ts" by (auto split: tydecl.splits)
  have "andThen (forEach (\<lambda>v la. la_val la (\<lambda>ty' nul'. assignNode ty' nul' False (representation v))) ts (newListAsm ty)) la_done
      = Ok (TnList ty (map (\<lambda>v. v) ts))"
    using TnList e by (intro la_list) (auto simp: elemType_def list_all_iff)
  with e show ?case
    by (auto simp: assignNode.simps [of ty] forEach_runAll comp_def)
qed (auto intro: assignNode_same)

lemma wrapTyped_repr:
  "tnWf t \<Longrightarrow> unionFree t \<Longrightarrow> wrapTyped (tnType t) (representation t) = Ok (NTyped t)"
  using assignNode_repr [of t False False] by (simp add: wrapTyped_def)

text \<open>The types of the codecs other than the trie's have no unions inside.\<close>

definition unionFreeTy :: "tyname \<Rightarrow> bool" where
  "unionFreeTy ty \<longleftrightarrow> ty \<notin> {TyChild, TyValue, TyTrieNode, TyTrieBranchNode, TyTrieLeafNode}"

lemma unionFreeTy_field: "unionFreeTy ty \<Longrightarrow> f \<in> set (fieldsOf ty) \<Longrightarrow> unionFreeTy (ftype f)"
  by (cases ty) (auto simp: unionFreeTy_def fieldsOf.simps go_defs go_field_defs)

lemma unionFreeTy_elem: "unionFreeTy ty \<Longrightarrow> typeDecl ty = DList e \<Longrightarrow> unionFreeTy e"
  by (cases ty) (auto simp: unionFreeTy_def)

lemma unionFreeTy_members: "unionFreeTy ty \<Longrightarrow> membersOf ty = []"
  by (cases ty) (auto simp: unionFreeTy_def membersOf.simps)

lemma unionFree_of_type: "tnWf t \<Longrightarrow> unionFreeTy (tnType t) \<Longrightarrow> unionFree t"
proof (induction t)
  case (TnStruct ty fs)
  have "unionFree v" if "i < length fs" "fs ! i = Some v" for i v
  proof -
    have "tnType v = ftype (fieldsOf ty ! i)" "tnWf v" "fieldsOf ty ! i \<in> set (fieldsOf ty)"
      using TnStruct.prems(1) that by (auto simp: list_all_length split: option.splits)
    with TnStruct.IH [of "Some v" v] TnStruct.prems(2) that unionFreeTy_field [of ty] show ?thesis
      by (auto simp: in_set_conv_nth)
  qed
  then show ?case by (auto simp: list_all_length split: option.splits)
next
  case (TnList ty ts)
  then show ?case using unionFreeTy_elem [of ty] by (auto simp: list_all_iff split: tydecl.splits)
next
  case (TnUnion ty tag t)
  then show ?case using unionFreeTy_members by fastforce
qed simp_all

definition struct_encoders :: "ext \<Rightarrow> (tyname \<times> (node \<Rightarrow> bytes writer \<Rightarrow> bytes res)) list" where
  "struct_encoders E =
     [(TyHeader, header_Encode E), (TyUncles, uncles_Encode E), (TyTransaction, tx_Encode E),
      (TyReceipt, rct_Encode E), (TyAccount, account_Encode E), (TyLog, log_Encode E)]"

text \<open>C39: Encoders do not care which view of a value they are given: for headers, uncles, transactions, receipts,
  accounts and logs, encoding the representation view of a well-formed value has the outcome of encoding the value.\<close>

theorem repr_view_encoded:
  assumes "(ty, encode) \<in> set (struct_encoders E)" "tnWf t" "tnType t = ty"
  shows "encode (representation t) w = encode (NTyped t) w"
proof -
  have "unionFreeTy ty" using assms(1) by (auto simp: struct_encoders_def unionFreeTy_def)
  with assms(2,3) have free: "unionFree t" using unionFree_of_type by blast
  have len: "nodeLength (representation t) = nodeLength (NTyped t)" if "ty = TyUncles"
    using that assms(2,3) by (cases t) auto
  have "wrapTyped ty (representation t) = wrapTyped ty (NTyped t)"
    using wrapTyped_repr [OF assms(2) free] assms(3) by simp
  with assms(1) len show ?thesis
    unfolding struct_encoders_def
    by (auto simp del: wrapTyped_same simp: header_Encode_def header_AppendEncode_def EncodeHeader_def uncles_Encode_def uncles_AppendEncode_def
        EncodeUncles_def tx_Encode_def tx_AppendEncode_def rct_Encode_def rct_AppendEncode_def packReceiptRLP_def
        account_Encode_def account_AppendEncode_def EncodeAccount_def log_Encode_def log_AppendEncode_def EncodeLog_def)
qed

theorem repr_view_encoded_witness:
  "log_Encode refEnv (representation (TnStruct TyLog [Some (TnBytes TyAddress [1]),
     Some (TnList TyTopics [TnBytes TyHash [2]]), Some (TnBytes TyBytes [3])])) bytesBuffer =
   log_Encode refEnv (NTyped (TnStruct TyLog [Some (TnBytes TyAddress [1]),
     Some (TnList TyTopics [TnBytes TyHash [2]]), Some (TnBytes TyBytes [3])])) bytesBuffer"
proof (rule repr_view_encoded)
  show "(TyLog, log_Encode refEnv) \<in> set (struct_encoders refEnv)" by (simp add: struct_encoders_def)
qed (simp_all add: fieldsOf.simps go_Log_def goField_def)

section \<open>Unions\<close>

text \<open>The representation view of a trie node cannot be encoded: its key is the serial name of the node kind,
  which the type-level assembler behind the encoder does not know.\<close>

theorem trie_repr_rejected:
  assumes "tnWf t" "tnType t = TyTrieNode"
  shows "\<exists>k \<in> set (reprKeys TyTrieNode). trie_Encode E (representation t) w = Fail (ErrInvalidKey k)"
proof -
  obtain tag x where t: "t = TnUnion TyTrieNode tag x" "1 \<le> tag" "tag \<le> 3"
    using assms by (cases t) (auto simp: membersOf.simps go_TrieNode_def)
  then have "tag = 1 \<or> tag = 2 \<or> tag = 3" by auto
  then show ?thesis
    unfolding t(1)
    by (elim disjE)
      (simp_all add: trie_Encode_def trie_AppendEncode_def wrapTyped_def assignNode.simps [of TyTrieNode] reprKeys_def
        ua_key_eq ua_ready_def newUnionAsm_def memberNames_def membersOf.simps go_TrieNode_def)
qed

theorem trie_repr_rejected_witness:
  "\<exists>k \<in> set (reprKeys TyTrieNode). trie_Encode refEnv (representation (TnUnion TyTrieNode 2
     (TnStruct TyTrieExtensionNode [Some (TnBytes TyBytes [1]), Some (TnLink TyLink (CidLink [2]))]))) bytesBuffer =
   Fail (ErrInvalidKey k)"
  by (rule trie_repr_rejected)
    (simp_all add: membersOf.simps go_TrieNode_def fieldsOf.simps go_TrieExtensionNode_def goField_def)

text \<open>Assembling a keyed union through its representation by key and value goes to the wrong member: after the
  key of a member, \<open>AssembleValue\<close> hands out the assembler of the next one, and panics after the last key,
  while \<open>AssembleEntry\<close> hands out the right one.\<close>

theorem keyed_union_misdirects:
  assumes "ty = TyTrieNode \<or> ty = TyValue" "i < length (reprKeys ty)"
  shows "andThen (andThen (ruKey (newUnionAsm ty False) (reprKeys ty ! i)) ruValue) (\<lambda>(m, _). Ok m) =
      (if Suc i < length (reprKeys ty) then Ok (Suc i) else Panic ''unreachable'') \<and>
    andThen (ruEntry (newUnionAsm ty False) (reprKeys ty ! i)) (\<lambda>(m, _). Ok m) = Ok i"
proof -
  have "distinct (reprKeys ty)" by (simp add: reprKeys_def)
  with assms(2) have "idxOf (reprKeys ty) (reprKeys ty ! i) = Some i" by (rule idxOf_nth [rotated])
  then show ?thesis
    by (simp add: ruKey_def ruKeyAssignString_def ua_assembleKey_def ruValue_def ruEntry_def ua_ready_def newUnionAsm_def)
qed

theorem keyed_union_misdirects_witness:
  "andThen (andThen (ruKey (newUnionAsm TyTrieNode False) ''leaf'') ruValue) (\<lambda>(m, _). Ok m) = Panic ''unreachable'' \<and>
   andThen (ruEntry (newUnionAsm TyTrieNode False) ''leaf'') (\<lambda>(m, _). Ok m) = Ok 2"
  using keyed_union_misdirects [of TyTrieNode 2] by (simp add: reprKeys_def)

text \<open>What the views show of \<open>Child\<close>, its representation assembler rejects: a null child, and a node stored in
  place.\<close>

lemma child_repr_limits:
  "\<exists>m. childAssignNode NNull = Fail (ErrNotUnionStructure m)"
  "tnType t = TyTrieNode \<Longrightarrow> childAssignNode (representation (TnUnion TyChild 2 t)) = Panic ''nil pointer dereference''"
  "childAssignNode (representation (TnUnion TyChild 1 (TnLink TyLink l))) = Ok (Some (TnUnion TyChild 1 (TnLink TyLink l)))"
  by (simp_all add: childAssignNull_def childBeginMap_def childAssignLink_def assignLink_def)

end
