(* ===== verification/Forwarders.thy ===== *)
theory Forwarders
  imports Multicodec
begin

text \<open>
  The deprecated names of the codec functions that every \<^verbatim>\<open>multicodec.go\<close> keeps: \<open>Decoder\<close> and \<open>Unmarshal\<close> forward
  to \<open>Decode\<close>, \<open>Encoder\<close> and \<open>Marshal\<close> to \<open>Encode\<close>.  They are the very functions that the plugin registers.
\<close>

section \<open>header\<close>

definition header_Decoder :: "ext \<Rightarrow> reader \<Rightarrow> tnode res" where
  "header_Decoder E rd = header_Decode E rd"

definition header_Unmarshal :: "ext \<Rightarrow> reader \<Rightarrow> tnode res" where
  "header_Unmarshal E rd = header_Decode E rd"

definition header_Encoder :: "ext \<Rightarrow> node \<Rightarrow> 'w writer \<Rightarrow> 'w res" where
  "header_Encoder E inNode w = header_Encode E inNode w"

definition header_Marshal :: "ext \<Rightarrow> node \<Rightarrow> 'w writer \<Rightarrow> 'w res" where
  "header_Marshal E inNode w = header_Encode E inNode w"

section \<open>uncles\<close>

definition uncles_Decoder :: "ext \<Rightarrow> reader \<Rightarrow> tnode res" where
  "uncles_Decoder E rd = uncles_Decode E rd"

definition uncles_Unmarshal :: "ext \<Rightarrow> reader \<Rightarrow> tnode res" where
  "uncles_Unmarshal E rd = uncles_Decode E rd"

definition uncles_Encoder :: "ext \<Rightarrow> node \<Rightarrow> 'w writer \<Rightarrow> 'w res" where
  "uncles_Encoder E inNode w = uncles_Encode E inNode w"

definition uncles_Marshal :: "ext \<Rightarrow> node \<Rightarrow> 'w writer \<Rightarrow> 'w res" where
  "uncles_Marshal E inNode w = uncles_Encode E inNode w"

section \<open>tx\<close>

definition tx_Decoder :: "ext \<Rightarrow> reader \<Rightarrow> tnode res" where
  "tx_Decoder E rd = tx_Decode E rd"

definition tx_Unmarshal :: "ext \<Rightarrow> reader \<Rightarrow> tnode res" where
  "tx_Unmarshal E rd = tx_Decode E rd"

definition tx_Encoder :: "ext \<Rightarrow> node \<Rightarrow> 'w writer \<Rightarrow> 'w res" where
  "tx_Encoder E inNode w = tx_Encode E inNode w"

definition tx_Marshal :: "ext \<Rightarrow> node \<Rightarrow> 'w writer \<Rightarrow> 'w res" where
  "tx_Marshal E inNode w = tx_Encode E inNode w"

section \<open>tx_trie\<close>

definition tx_trie_Decoder :: "ext \<Rightarrow> reader \<Rightarrow> tnode res" where
  "tx_trie_Decoder E rd = tx_trie_Decode E rd"

definition tx_trie_Unmarshal :: "ext \<Rightarrow> reader \<Rightarrow> tnode res" where
  "tx_trie_Unmarshal E rd = tx_trie_Decode E rd"

definition tx_trie_Encoder :: "ext \<Rightarrow> node \<Rightarrow> 'w writer \<Rightarrow> 'w res" where
  "tx_trie_Encoder E inNode w = tx_trie_Encode E inNode w"

definition tx_trie_Marshal :: "ext \<Rightarrow> node \<Rightarrow> 'w writer \<Rightarrow> 'w res" where
  "tx_trie_Marshal E inNode w = tx_trie_Encode E inNode w"

section \<open>rct\<close>

definition rct_Decoder :: "ext \<Rightarrow> reader \<Rightarrow> tnode res" where
  "rct_Decoder E rd = rct_Decode E rd"

definition rct_Unmarshal :: "ext \<Rightarrow> reader \<Rightarrow> tnode res" where
  "rct_Unmarshal E rd = rct_Decode E rd"

definition rct_Encoder :: "ext \<Rightarrow> node \<Rightarrow> 'w writer \<Rightarrow> 'w res" where
  "rct_Encoder E inNode w = rct_Encode E inNode w"

definition rct_Marshal :: "ext \<Rightarrow> node \<Rightarrow> 'w writer \<Rightarrow> 'w res" where
  "rct_Marshal E inNode w = rct_Encode E inNode w"

section \<open>rct_trie\<close>

definition rct_trie_Decoder :: "ext \<Rightarrow> reader \<Rightarrow> tnode res" where
  "rct_trie_Decoder E rd = rct_trie_Decode E rd"

definition rct_trie_Unmarshal :: "ext \<Rightarrow> reader \<Rightarrow> tnode res" where
  "rct_trie_Unmarshal E rd = rct_trie_Decode E rd"

definition rct_trie_Encoder :: "ext \<Rightarrow> node \<Rightarrow> 'w writer \<Rightarrow> 'w res" where
  "rct_trie_Encoder E inNode w = rct_trie_Encode E inNode w"

definition rct_trie_Marshal :: "ext \<Rightarrow> node \<Rightarrow> 'w writer \<Rightarrow> 'w res" where
  "rct_trie_Marshal E inNode w = rct_trie_Encode E inNode w"

section \<open>log\<close>

definition log_Decoder :: "ext \<Rightarrow> reader \<Rightarrow> tnode res" where
  "log_Decoder E rd = log_Decode E rd"

definition log_Unmarshal :: "ext \<Rightarrow> reader \<Rightarrow> tnode res" where
  "log_Unmarshal E rd = log_Decode E rd"

definition log_Encoder :: "ext \<Rightarrow> node \<Rightarrow> 'w writer \<Rightarrow> 'w res" where
  "log_Encoder E inNode w = log_Encode E inNode w"

definition log_Marshal :: "ext \<Rightarrow> node \<Rightarrow> 'w writer \<Rightarrow> 'w res" where
  "log_Marshal E inNode w = log_Encode E inNode w"

section \<open>log_trie\<close>

definition log_trie_Decoder :: "ext \<Rightarrow> reader \<Rightarrow> tnode res" where
  "log_trie_Decoder E rd = log_trie_Decode E rd"

definition log_trie_Unmarshal :: "ext \<Rightarrow> reader \<Rightarrow> tnode res" where
  "log_trie_Unmarshal E rd = log_trie_Decode E rd"

definition log_trie_Encoder :: "ext \<Rightarrow> node \<Rightarrow> 'w writer \<Rightarrow> 'w res" where
  "log_trie_Encoder E inNode w = log_trie_Encode E inNode w"

definition log_trie_Marshal :: "ext \<Rightarrow> node \<Rightarrow> 'w writer \<Rightarrow> 'w res" where
  "log_trie_Marshal E inNode w = log_trie_Encode E inNode w"

section \<open>state_trie\<close>

definition state_trie_Decoder :: "ext \<Rightarrow> reader \<Rightarrow> tnode res" where
  "state_trie_Decoder E rd = state_trie_Decode E rd"

definition state_trie_Unmarshal :: "ext \<Rightarrow> reader \<Rightarrow> tnode res" where
  "state_trie_Unmarshal E rd = state_trie_Decode E rd"

definition state_trie_Encoder :: "ext \<Rightarrow> node \<Rightarrow> 'w writer \<Rightarrow> 'w res" where
  "state_trie_Encoder E inNode w = state_trie_Encode E inNode w"

definition state_trie_Marshal :: "ext \<Rightarrow> node \<Rightarrow> 'w writer \<Rightarrow> 'w res" where
  "state_trie_Marshal E inNode w = state_trie_Encode E inNode w"

section \<open>state_account\<close>

definition account_Decoder :: "ext \<Rightarrow> reader \<Rightarrow> tnode res" where
  "account_Decoder E rd = account_Decode E rd"

definition account_Unmarshal :: "ext \<Rightarrow> reader \<Rightarrow> tnode res" where
  "account_Unmarshal E rd = account_Decode E rd"

definition account_Encoder :: "ext \<Rightarrow> node \<Rightarrow> 'w writer \<Rightarrow> 'w res" where
  "account_Encoder E inNode w = account_Encode E inNode w"

definition account_Marshal :: "ext \<Rightarrow> node \<Rightarrow> 'w writer \<Rightarrow> 'w res" where
  "account_Marshal E inNode w = account_Encode E inNode w"

section \<open>storage_trie\<close>

definition storage_trie_Decoder :: "ext \<Rightarrow> reader \<Rightarrow> tnode res" where
  "storage_trie_Decoder E rd = storage_trie_Decode E rd"

definition storage_trie_Unmarshal :: "ext \<Rightarrow> reader \<Rightarrow> tnode res" where
  "storage_trie_Unmarshal E rd = storage_trie_Decode E rd"

definition storage_trie_Encoder :: "ext \<Rightarrow> node \<Rightarrow> 'w writer \<Rightarrow> 'w res" where
  "storage_trie_Encoder E inNode w = storage_trie_Encode E inNode w"

definition storage_trie_Marshal :: "ext \<Rightarrow> node \<Rightarrow> 'w writer \<Rightarrow> 'w res" where
  "storage_trie_Marshal E inNode w = storage_trie_Encode E inNode w"

section \<open>The registered functions under their old names\<close>

lemma registered_Decoder:
  "map snd (plugin_decoders E) =
     [header_Decoder E, uncles_Decoder E, tx_Decoder E, tx_trie_Decoder E, rct_Decoder E,
       rct_trie_Decoder E, log_Decoder E, log_trie_Decoder E,
       state_trie_Decoder E, account_Decoder E, storage_trie_Decoder E]"
  by (simp add: plugin_decoders_def fun_eq_iff
      header_Decoder_def
      uncles_Decoder_def
      tx_Decoder_def
      tx_trie_Decoder_def
      rct_Decoder_def
      rct_trie_Decoder_def
      log_Decoder_def
      log_trie_Decoder_def
      state_trie_Decoder_def
      account_Decoder_def
      storage_trie_Decoder_def)

lemma registered_Unmarshal:
  "map snd (plugin_decoders E) =
     [header_Unmarshal E, uncles_Unmarshal E, tx_Unmarshal E, tx_trie_Unmarshal E, rct_Unmarshal E,
       rct_trie_Unmarshal E, log_Unmarshal E, log_trie_Unmarshal E,
       state_trie_Unmarshal E, account_Unmarshal E, storage_trie_Unmarshal E]"
  by (simp add: plugin_decoders_def fun_eq_iff
      header_Unmarshal_def
      uncles_Unmarshal_def
      tx_Unmarshal_def
      tx_trie_Unmarshal_def
      rct_Unmarshal_def
      rct_trie_Unmarshal_def
      log_Unmarshal_def
      log_trie_Unmarshal_def
      state_trie_Unmarshal_def
      account_Unmarshal_def
      storage_trie_Unmarshal_def)

lemma registered_Encoder:
  "map snd (plugin_encoders E) =
     [header_Encoder E, uncles_Encoder E, tx_Encoder E, tx_trie_Encoder E, rct_Encoder E,
       rct_trie_Encoder E, log_Encoder E, log_trie_Encoder E,
       state_trie_Encoder E, account_Encoder E, storage_trie_Encoder E]"
  by (simp add: plugin_encoders_def fun_eq_iff
      header_Encoder_def
      uncles_Encoder_def
      tx_Encoder_def
      tx_trie_Encoder_def
      rct_Encoder_def
      rct_trie_Encoder_def
      log_Encoder_def
      log_trie_Encoder_def
      state_trie_Encoder_def
      account_Encoder_def
      storage_trie_Encoder_def)

lemma registered_Marshal:
  "map snd (plugin_encoders E) =
     [header_Marshal E, uncles_Marshal E, tx_Marshal E, tx_trie_Marshal E, rct_Marshal E,
       rct_trie_Marshal E, log_Marshal E, log_trie_Marshal E,
       state_trie_Marshal E, account_Marshal E, storage_trie_Marshal E]"
  by (simp add: plugin_encoders_def fun_eq_iff
      header_Marshal_def
      uncles_Marshal_def
      tx_Marshal_def
      tx_trie_Marshal_def
      rct_Marshal_def
      rct_trie_Marshal_def
      log_Marshal_def
      log_trie_Marshal_def
      state_trie_Marshal_def
      account_Marshal_def
      storage_trie_Marshal_def)

end
