(* ===== verification/Member_Machine.thy ===== *)
theory Member_Machine
  imports Assembler_Typing
begin

text \<open>
  The assemblers of unions and lists as state machines.  As for structs, a client may call the methods in any order, and
  the child assembler it was handed may report a value once; calls that panic or return an error are no steps.
\<close>

section \<open>Unions\<close>

abbreviation memberType :: "uasm \<Rightarrow> tyname" where
  "memberType ua \<equiv> snd (membersOf (ua_ty ua) ! (ua_ca ua - 1))"

inductive union_step :: "uasm \<Rightarrow> uasm \<Rightarrow> bool" where
  u_key: "ua_assembleKey ua = Ok ua' \<Longrightarrow> union_step ua ua'"
| u_keyString: "ua_keyAssignString ua k = Ok ua' \<Longrightarrow> union_step ua ua'"
| u_value: "ua_assembleValue ua = Ok ua' \<Longrightarrow> union_step ua ua'"
| u_entry: "ua_assembleEntry ua k = Ok ua' \<Longrightarrow> union_step ua ua'"
| u_report: "ua_state ua = maState_midValue \<Longrightarrow> ua_cm ua = Maybe_Absent \<Longrightarrow> typedAs (memberType ua) t \<Longrightarrow>
    union_step ua (ua_store ua (Some t))"
| u_finish: "ua_finish ua = Ok ua' \<Longrightarrow> union_step ua ua'"

text \<open>No member has been chosen; one has been chosen but not reported; one has been reported.\<close>

definition noMember :: "uasm \<Rightarrow> bool" where
  "noMember ua \<longleftrightarrow> ua_ca ua = 0 \<and> ua_cm ua = Maybe_Absent \<and> ua_x ua = None \<and> \<not> ua_ca2 ua"

definition chosenMember :: "uasm \<Rightarrow> bool" where
  "chosenMember ua \<longleftrightarrow> 1 \<le> ua_ca ua \<and> ua_ca ua \<le> length (membersOf (ua_ty ua)) \<and> ua_cm ua = Maybe_Absent \<and> ua_x ua = None"

definition fullMember :: "uasm \<Rightarrow> bool" where
  "fullMember ua \<longleftrightarrow> 1 \<le> ua_ca ua \<and> ua_ca ua \<le> length (membersOf (ua_ty ua)) \<and> ua_cm ua = Maybe_Value \<and>
     (\<exists>t. ua_x ua = Some t \<and> typedAs (memberType ua) t)"

fun unionInv :: "maState \<Rightarrow> uasm \<Rightarrow> bool" where
  "unionInv maState_initial ua \<longleftrightarrow> noMember ua \<or> fullMember ua"
| "unionInv maState_midKey ua \<longleftrightarrow> noMember ua \<or> fullMember ua"
| "unionInv maState_expectValue ua \<longleftrightarrow> chosenMember ua"
| "unionInv maState_midValue ua \<longleftrightarrow> chosenMember ua \<or> fullMember ua"
| "unionInv maState_finished ua \<longleftrightarrow> fullMember ua"

lemmas member_defs = noMember_def chosenMember_def fullMember_def

lemma member_state [simp]:
  "noMember (ua\<lparr>ua_state := q\<rparr>) = noMember ua" "chosenMember (ua\<lparr>ua_state := q\<rparr>) = chosenMember ua"
  "fullMember (ua\<lparr>ua_state := q\<rparr>) = fullMember ua"
  by (simp_all add: member_defs)

lemma ua_ready_inv:
  assumes "unionInv (ua_state ua) ua" "ua_ready ua = Ok ua'"
  shows "ua' = ua\<lparr>ua_state := maState_initial\<rparr> \<and> (noMember ua \<or> fullMember ua)"
  using assms by (cases "ua_state ua") (auto simp: ua_ready_def chosenMember_def split: if_splits)

lemma union_step_inv:
  "union_step ua ua' \<Longrightarrow> unionInv (ua_state ua) ua \<Longrightarrow>
     unionInv (ua_state ua') ua' \<and> ua_ty ua' = ua_ty ua \<and> (ua_ca ua \<noteq> 0 \<longrightarrow> ua_ca ua' = ua_ca ua)"
proof (induction rule: union_step.induct)
  case (u_key ua ua')
  then obtain ua1 where "ua_ready ua = Ok ua1" "ua' = ua1\<lparr>ua_state := maState_midKey\<rparr>"
    by (auto simp: ua_assembleKey_def)
  with ua_ready_inv u_key.prems show ?case by fastforce
next
  case (u_keyString ua k ua')
  then obtain i where "ua_state ua = maState_midKey" "ua_ca ua = 0" "idxOf (memberNames (ua_ty ua)) k = Some i"
      "ua' = ua\<lparr>ua_ca := Suc i, ua_state := maState_expectValue\<rparr>"
    by (auto simp: ua_keyAssignString_def split: if_splits option.splits)
  with u_keyString.prems idxOf_member show ?case by (fastforce simp: member_defs)
next
  case (u_value ua ua')
  then show ?case by (auto simp: ua_assembleValue_def member_defs split: maState.splits if_splits)
next
  case (u_entry ua k ua')
  then obtain ua1 i where "ua_ready ua = Ok ua1" "ua_ca ua1 = 0" "idxOf (memberNames (ua_ty ua1)) k = Some i"
      "ua' = ua1\<lparr>ua_state := maState_midValue, ua_ca := Suc i\<rparr>"
    by (auto simp: ua_assembleEntry_def split: if_splits option.splits)
  with ua_ready_inv [OF u_entry.prems] idxOf_member show ?case by (fastforce simp: member_defs)
next
  case (u_report ua t)
  then show ?case by (auto simp: ua_store_def member_defs)
next
  case (u_finish ua ua')
  then obtain ua1 where "ua_ready ua = Ok ua1" "ua_ca ua1 \<noteq> 0" "ua' = ua1\<lparr>ua_state := maState_finished\<rparr>"
    by (auto simp: ua_finish_def split: if_splits)
  with ua_ready_inv [OF u_finish.prems] show ?case by (fastforce simp: member_defs)
qed

lemma union_steps_inv:
  "union_step\<^sup>*\<^sup>* ua ua' \<Longrightarrow> unionInv (ua_state ua) ua \<Longrightarrow>
     unionInv (ua_state ua') ua' \<and> ua_ty ua' = ua_ty ua \<and> (ua_ca ua \<noteq> 0 \<longrightarrow> ua_ca ua' = ua_ca ua)"
proof (induction rule: rtranclp_induct)
  case (step ua1 ua2)
  with union_step_inv [OF step.hyps(2)] show ?case by metis
qed simp

lemma unionInv_new: "unionInv (ua_state (newUnionAsm ty w)) (newUnionAsm ty w)"
  by (simp add: newUnionAsm_def noMember_def)

text \<open>A second key cannot be taken back: a union whose key assembler was asked for after the member was chosen is stuck, and
  so is a struct that waits for it.\<close>

lemma union_second_key_stuck:
  assumes "ua_state ua = maState_midKey" "ua_ca ua \<noteq> 0"
  shows "\<not> union_step ua ua'"
proof
  assume "union_step ua ua'"
  then show False
    by (cases rule: union_step.cases)
      (use assms in \<open>auto simp: ua_assembleKey_def ua_assembleValue_def ua_assembleEntry_def ua_finish_def ua_ready_def ua_keyAssignString_def\<close>)
qed

text \<open>C32: A union has exactly one entry: whatever sequence of calls a client makes on a fresh union assembler, the member
  that the first key chose is never exchanged, and a finished union is a well-formed value with that member.\<close>

theorem union_one_member:
  assumes "union_step\<^sup>*\<^sup>* (newUnionAsm ty w) ua" "union_step\<^sup>*\<^sup>* ua ua'"
  shows "(ua_ca ua \<noteq> 0 \<longrightarrow> ua_ca ua' = ua_ca ua) \<and>
    (ua_state ua' = maState_finished \<longrightarrow> (\<exists>t. ua_x ua' = Some t \<and> tnWf (TnUnion ty (ua_ca ua') t)))"
proof -
  have ua: "unionInv (ua_state ua) ua" "ua_ty ua = ty"
    using union_steps_inv [OF assms(1) unionInv_new] by (auto simp: newUnionAsm_def)
  from union_steps_inv [OF assms(2) ua(1)] have ua': "unionInv (ua_state ua') ua'" "ua_ty ua' = ty"
    and "ua_ca ua \<noteq> 0 \<longrightarrow> ua_ca ua' = ua_ca ua" using ua(2) by auto
  moreover have "\<exists>t. ua_x ua' = Some t \<and> tnWf (TnUnion ty (ua_ca ua') t)" if "ua_state ua' = maState_finished"
    using ua' that by (auto simp: fullMember_def typedAs_def)
  ultimately show ?thesis by blast
qed

text \<open>The assembler behind the pointer exists only once \<open>AssembleValue\<close> has asked for it: before, \<open>AssembleEntry\<close> panics on
  the key of the second member of \<open>Child\<close>, in every state in which it could be called.\<close>

theorem child_entry_panics:
  assumes "union_step\<^sup>*\<^sup>* (newUnionAsm TyChild w) ua" "ua_state ua = maState_initial" "ua_ca ua = 0"
  shows "ua_assembleEntry ua ''TrieNode'' = Panic ''nil pointer dereference''"
proof -
  have "unionInv (ua_state ua) ua" "ua_ty ua = TyChild"
    using union_steps_inv [OF assms(1) unionInv_new] by (auto simp: newUnionAsm_def)
  with assms(2,3) show ?thesis
    by (auto simp: ua_assembleEntry_def ua_ready_def ua_boxed_def member_defs memberNames_def membersOf.simps go_Child_def)
qed

theorem union_one_member_witness:
  "\<exists>ua t. union_step\<^sup>*\<^sup>* (newUnionAsm TyChild False) ua \<and> ua_state ua = maState_finished \<and> ua_x ua = Some t \<and>
    tnWf (TnUnion TyChild 1 t)"
proof -
  let ?u1 = "(newUnionAsm TyChild False)\<lparr>ua_state := maState_midValue, ua_ca := 1\<rparr>"
  let ?u2 = "ua_store ?u1 (Some (TnLink TyLink (CidLink [1])))" let ?u3 = "?u2\<lparr>ua_state := maState_finished\<rparr>"
  have "union_step (newUnionAsm TyChild False) ?u1"
    by (rule u_entry [of _ "''Link''"])
      (simp add: ua_assembleEntry_def ua_ready_def newUnionAsm_def memberNames_def membersOf.simps go_Child_def ua_boxed_def)
  moreover have "union_step ?u1 ?u2"
    by (rule u_report) (simp_all add: newUnionAsm_def membersOf.simps go_Child_def typedAs_def)
  moreover have "union_step ?u2 ?u3"
    by (rule u_finish) (simp add: ua_finish_def ua_ready_def ua_store_def newUnionAsm_def)
  ultimately have "union_step\<^sup>*\<^sup>* (newUnionAsm TyChild False) ?u3" by (auto intro: converse_rtranclp_into_rtranclp)
  from union_one_member [OF this rtranclp.rtrancl_refl] this show ?thesis
    by (auto simp: ua_store_def newUnionAsm_def)
qed

section \<open>Lists\<close>

text \<open>A run of a list assembler with the values that were reported during it.\<close>

inductive list_run :: "lasm \<Rightarrow> tnode list \<Rightarrow> lasm \<Rightarrow> bool" for la where
  l_start: "list_run la [] la"
| l_value: "list_run la vs la1 \<Longrightarrow> la_assembleValue la1 = Ok la2 \<Longrightarrow> list_run la vs la2"
| l_report: "list_run la vs la1 \<Longrightarrow> la_state la1 = laState_midValue \<Longrightarrow> la_cm la1 = Maybe_Absent \<Longrightarrow>
    list_run la (vs @ [v]) (la_store la1 (Some v))"
| l_finish: "list_run la vs la1 \<Longrightarrow> la_finish la1 = Ok la2 \<Longrightarrow> list_run la vs la2"

definition listInv :: "lasm \<Rightarrow> bool" where
  "listInv la \<longleftrightarrow> la_cm la = Maybe_Absent \<or> la_state la = laState_midValue \<and> la_cm la = Maybe_Value"

text \<open>Whatever the calls, the list has the reported values in their order.\<close>

lemma list_run_exact: "list_run (newListAsm ty) vs la \<Longrightarrow> la_x la = vs \<and> la_ty la = ty \<and> listInv la"
  by (induction rule: list_run.induct)
    (auto simp: newListAsm_def listInv_def la_assembleValue_def la_finish_def la_ready_def split: laState.splits if_splits)

end
