(* ===== verification/Machine_Morphism.thy ===== *)
theory Machine_Morphism
  imports Assembler_Typing
begin

text \<open>
  The assembler machines do not look at the values they collect: applying a function to all values of a state commutes with
  every operation.  Two instances of a machine that differ in their values by such a function therefore run in step.
\<close>

section \<open>Results\<close>

definition mapRes :: "('a \<Rightarrow> 'b) \<Rightarrow> 'a res \<Rightarrow> 'b res" where
  "mapRes f r = andThen r (\<lambda>x. Ok (f x))"

lemma mapRes_simps [simp]: "mapRes f (Ok x) = Ok (f x)" "mapRes f (Fail e) = Fail e" "mapRes f (Panic m) = Panic m"
  by (simp_all add: mapRes_def)

lemma mapRes_andThen: "mapRes f (andThen r g) = andThen r (\<lambda>x. mapRes f (g x))"
  by (cases r) simp_all

lemma andThen_mapRes: "andThen (mapRes f r) g = andThen r (\<lambda>x. g (f x))"
  by (cases r) simp_all

lemma mapRes_if: "mapRes f (if b then r else r') = (if b then mapRes f r else mapRes f r')"
  by simp

text \<open>Loops that run in step, under an invariant of the one that is mapped.\<close>

lemma forEach_commute:
  assumes "\<And>x s. x \<in> set xs \<Longrightarrow> I s \<Longrightarrow> g x (h s) = mapRes h (f x s) \<and> okAll I (f x s)" "I s"
  shows "forEach g xs (h s) = mapRes h (forEach f xs s) \<and> okAll I (forEach f xs s)"
  using assms
proof (induction xs arbitrary: s)
  case (Cons x xs)
  have step: "g x (h s) = mapRes h (f x s)" "okAll I (f x s)" using Cons.prems(1) [of x s] Cons.prems(2) by auto
  show ?case
  proof (cases "f x s")
    case (Ok s')
    then have "I s'" using step(2) by (simp add: okAll_def)
    with Cons.IH [of s'] Cons.prems(1) step(1) Ok show ?thesis by simp
  qed (use step(1) in \<open>auto simp: okAll_def\<close>)
qed (simp add: okAll_def)

section \<open>Structs\<close>

definition mapSa :: "('a \<Rightarrow> 'b) \<Rightarrow> 'a gsasm \<Rightarrow> 'b gsasm" where
  "mapSa f st =
     \<lparr>sa_ty = sa_ty st, sa_wnil = sa_wnil st, sa_state = sa_state st, sa_s = sa_s st, sa_f = sa_f st,
      sa_cm = sa_cm st, sa_w = map (map_option f) (sa_w st), sa_m = sa_m st\<rparr>"

lemma mapSa_sel [simp]:
  "sa_ty (mapSa f st) = sa_ty st" "sa_wnil (mapSa f st) = sa_wnil st" "sa_state (mapSa f st) = sa_state st"
  "sa_s (mapSa f st) = sa_s st" "sa_f (mapSa f st) = sa_f st" "sa_cm (mapSa f st) = sa_cm st"
  "sa_w (mapSa f st) = map (map_option f) (sa_w st)" "sa_m (mapSa f st) = sa_m st" "curField (mapSa f st) = curField st"
  "sa_missing (mapSa f st) = sa_missing st"
  by (simp_all add: mapSa_def curField_def sa_missing_def)

lemma mapSa_upd [simp]:
  "(mapSa f st)\<lparr>sa_state := q\<rparr> = mapSa f (st\<lparr>sa_state := q\<rparr>)" "(mapSa f st)\<lparr>sa_s := s\<rparr> = mapSa f (st\<lparr>sa_s := s\<rparr>)"
  "(mapSa f st)\<lparr>sa_f := i\<rparr> = mapSa f (st\<lparr>sa_f := i\<rparr>)" "(mapSa f st)\<lparr>sa_cm := c\<rparr> = mapSa f (st\<lparr>sa_cm := c\<rparr>)"
  "(mapSa f st)\<lparr>sa_m := ms\<rparr> = mapSa f (st\<lparr>sa_m := ms\<rparr>)"
  "(mapSa f st)\<lparr>sa_w := map (map_option f) ws\<rparr> = mapSa f (st\<lparr>sa_w := ws\<rparr>)"
  by (simp_all add: mapSa_def)

lemma mapSa_new [simp]: "mapSa f (newStructAsm ty w) = newStructAsm ty w"
  by (simp add: mapSa_def newStructAsm_def)

lemma sa_ready_map: "sa_ready (mapSa f st) = mapRes (mapSa f) (sa_ready st)"
  by (auto simp: sa_ready_def sa_tidy_def split: maState.splits maybe.splits)

lemma ma_key_map: "ma_key (mapSa f st) k = mapRes (mapSa f) (ma_key st k)"
  by (cases "sa_ready st")
    (auto simp: ma_key_def assembleKey_def sa_ready_map keyAssignString_def split: option.splits)

lemma assembleValue_map: "assembleValue (mapSa f st) = mapRes (mapSa f) (assembleValue st)"
  by (auto simp: assembleValue_def sa_child_def curField_def split: maState.splits)

lemma storeChild_map: "storeChild (mapSa f st) (map_option f r) = mapSa f (storeChild st r)"
  by (cases r) (simp_all add: mapSa_def curField_def map_update)

lemma sa_finish_map: "sa_finish (mapSa f st) = mapRes (mapSa f) (sa_finish st)"
  by (cases "sa_ready st") (auto simp: sa_finish_def sa_ready_map Let_def)

lemma sa_fields_map:
  "length (sa_w st) = length (fieldsOf (sa_ty st)) \<Longrightarrow> sa_fields (mapSa f st) = map (map_option f) (sa_fields st)"
  by (simp add: sa_fields_def)

text \<open>What an entry keeps: the type, the number of fields, and a property of the values.\<close>

definition fieldsAll :: "tyname \<Rightarrow> ('a \<Rightarrow> bool) \<Rightarrow> 'a gsasm \<Rightarrow> bool" where
  "fieldsAll ty P st \<longleftrightarrow> sa_ty st = ty \<and> length (sa_w st) = length (fieldsOf ty) \<and> (\<forall>x \<in> set (sa_w st). pred_option P x)"

lemma fieldsAll_new: "fieldsAll ty P (newStructAsm ty w)"
  by (auto simp: fieldsAll_def newStructAsm_def)

lemma sa_ready_all: "sa_ready st = Ok st' \<Longrightarrow> fieldsAll ty P st' = fieldsAll ty P st"
  by (auto simp: sa_ready_def sa_tidy_def fieldsAll_def split: maState.splits if_splits maybe.splits option.splits)

lemma ma_key_all:
  assumes "ma_key st k = Ok st'"
  shows "fieldsAll ty P st' = fieldsAll ty P st"
proof -
  obtain st1 where "sa_ready st = Ok st1" "sa_ty st' = sa_ty st1" "sa_w st' = sa_w st1"
    using assms by (auto simp: ma_key_def assembleKey_def keyAssignString_def split: if_splits option.splits)
  with sa_ready_all [of st st1] show ?thesis by (auto simp: fieldsAll_def)
qed

lemma assembleValue_all:
  "assembleValue st = Ok st' \<Longrightarrow> fieldsAll ty P st' = fieldsAll ty P st \<and> curField st' = curField st"
  by (auto simp: assembleValue_def sa_child_def fieldsAll_def curField_def split: maState.splits if_splits)

lemma storeChild_all: "fieldsAll ty P st \<Longrightarrow> pred_option P r \<Longrightarrow> fieldsAll ty P (storeChild st r)"
  by (cases r) (auto simp: fieldsAll_def dest!: set_update_subset_insert [THEN subsetD])

lemma entry_commute:
  assumes "fieldsAll ty P st"
    and "\<And>fd. fd \<in> set (fieldsOf ty) \<Longrightarrow> y (ftype fd) (fnullable fd) = mapRes (map_option f) (x (ftype fd) (fnullable fd)) \<and>
      okAll (pred_option P) (x (ftype fd) (fnullable fd))"
  shows "andThen (ma_key (mapSa f st) k) (\<lambda>ma. ma_val ma y) = mapRes (mapSa f) (andThen (ma_key st k) (\<lambda>ma. ma_val ma x)) \<and>
    okAll (fieldsAll ty P) (andThen (ma_key st k) (\<lambda>ma. ma_val ma x))"
proof (cases "ma_key st k")
  case (Ok st1)
  have "curField st1 \<in> set (fieldsOf ty)"
    using ma_key_Ok [OF Ok] idxOf_SomeD [of "fieldNames ty" k] assms(1) by (fastforce simp: curField_def fieldsAll_def)
  note xy = assms(2) [OF this]
  have st1: "fieldsAll ty P st1" using ma_key_all [OF Ok] assms(1) by simp
  show ?thesis
  proof (cases "assembleValue st1")
    case (Ok st2)
    note st2 = assembleValue_all [OF Ok, of ty P]
    with st1 xy show ?thesis
      by (cases "x (ftype (curField st1)) (fnullable (curField st1))")
        (auto simp: \<open>ma_key st k = Ok st1\<close> Ok ma_key_map ma_val_def assembleValue_map storeChild_map okAll_def storeChild_all)
  qed (simp_all add: Ok ma_key_map ma_val_def assembleValue_map okAll_def)
qed (simp_all add: ma_key_map okAll_def)

section \<open>Lists\<close>

definition mapLa :: "('a \<Rightarrow> 'b) \<Rightarrow> 'a glasm \<Rightarrow> 'b glasm" where
  "mapLa f la = \<lparr>la_ty = la_ty la, la_state = la_state la, la_cm = la_cm la, la_x = map f (la_x la)\<rparr>"

lemma mapLa_simps [simp]:
  "la_ty (mapLa f la) = la_ty la" "la_state (mapLa f la) = la_state la" "la_cm (mapLa f la) = la_cm la"
  "la_x (mapLa f la) = map f (la_x la)" "mapLa f (newListAsm ty) = newListAsm ty"
  "(mapLa f la)\<lparr>la_state := q\<rparr> = mapLa f (la\<lparr>la_state := q\<rparr>)" "(mapLa f la)\<lparr>la_cm := c\<rparr> = mapLa f (la\<lparr>la_cm := c\<rparr>)"
  by (simp_all add: mapLa_def newListAsm_def)

lemma la_ready_map: "la_ready (mapLa f la) = mapRes (mapLa f) (la_ready la)"
  by (auto simp: la_ready_def split: laState.splits)

lemma la_store_map: "la_store (mapLa f la) (map_option f r) = mapLa f (la_store la r)"
  by (cases r) (simp_all add: mapLa_def)

lemma la_finish_map: "la_finish (mapLa f la) = mapRes (mapLa f) (la_finish la)"
  by (cases "la_ready la") (simp_all add: la_finish_def la_ready_map)

definition rowsAll :: "tyname \<Rightarrow> ('a \<Rightarrow> bool) \<Rightarrow> 'a glasm \<Rightarrow> bool" where
  "rowsAll ty P la \<longleftrightarrow> la_ty la = ty \<and> list_all P (la_x la)"

lemma rowsAll_new: "rowsAll ty P (newListAsm ty)"
  by (simp add: rowsAll_def newListAsm_def)

lemma la_ready_all: "la_ready la = Ok la' \<Longrightarrow> la_x la' = la_x la \<and> la_ty la' = la_ty la"
  by (auto simp: la_ready_def split: laState.splits if_splits)

lemma la_store_all: "rowsAll ty P la \<Longrightarrow> pred_option P r \<Longrightarrow> rowsAll ty P (la_store la r)"
  by (cases r) (auto simp: rowsAll_def)

lemma la_val_commute:
  assumes "rowsAll ty P la"
    and "y (elemType ty) False = mapRes (map_option f) (x (elemType ty) False)" "okAll (pred_option P) (x (elemType ty) False)"
  shows "la_val (mapLa f la) y = mapRes (mapLa f) (la_val la x) \<and> okAll (rowsAll ty P) (la_val la x)"
proof (cases "la_ready la")
  case (Ok la1)
  then have la1: "la_ty la1 = ty" "rowsAll ty P (la1\<lparr>la_state := laState_midValue\<rparr>)"
    using la_ready_all [OF Ok] assms(1) by (simp_all add: rowsAll_def)
  with assms show ?thesis
    by (cases "x (elemType ty) False")
      (auto simp: Ok la_val_defs la_ready_map la_store_map okAll_def la_store_all)
qed (simp_all add: la_val_defs la_ready_map okAll_def)

end
