(* ===== verification/Assembler_Reuse.thy ===== *)
theory Assembler_Reuse
  imports Machine_Morphism
begin

text \<open>
  Reuse of assemblers.  An assembler embeds the assemblers of its parts: a struct one per field, a union one per
  member, a list one for all its elements, which it resets after each element.  What is left in these assemblers
  after a use decides whether the next one succeeds.  Here they are kept as a tree, with the \<open>reset\<close> of the code; the rest
  of the development makes a new assembler for each part.  The two are shown to agree.
\<close>

section \<open>Trees of assemblers\<close>

text \<open>The state that stays in an assembler between two uses; the value that it points to is set by whoever hands it out.
  The assembler of a member of a union may be behind a pointer, which is nil (\<open>None\<close>) until it is needed.\<close>

datatype casm =
    CScalar
  | CStruct maState int nat maybe "casm list"
  | CUnion maState maybe nat "casm option list"
  | CList laState maybe casm

definition boxedMember :: "tyname \<Rightarrow> tyname \<Rightarrow> bool" where
  "boxedMember ty member \<longleftrightarrow> ty = TyChild \<and> member = TyTrieNode"

text \<open>The types, by the depth of their assemblers; it is the pointer that keeps it finite.\<close>

definition asmDepth :: "tyname \<Rightarrow> nat" where
  "asmDepth ty =
     (case ty of
        TyStorageKeys \<Rightarrow> 2 | TyTopics \<Rightarrow> 2 | TyTxCIDList \<Rightarrow> 2
      | TyAccessElement \<Rightarrow> 3 | TyLog \<Rightarrow> 3 | TyHeader \<Rightarrow> 3 | TyFrame \<Rightarrow> 3 | TyAccount \<Rightarrow> 3 | TyBlock \<Rightarrow> 3
      | TyTrieExtensionNode \<Rightarrow> 3 | TyChild \<Rightarrow> 3
      | TyAccessList \<Rightarrow> 4 | TyLogs \<Rightarrow> 4 | TyUncles \<Rightarrow> 4 | TyFrameList \<Rightarrow> 4
      | TyTransaction \<Rightarrow> 5 | TyReceipt \<Rightarrow> 5 | TyTxTrace \<Rightarrow> 5
      | TyTransactions \<Rightarrow> 6 | TyReceipts \<Rightarrow> 6 | TyValue \<Rightarrow> 6
      | TyTrieLeafNode \<Rightarrow> 7 | TyTrieBranchNode \<Rightarrow> 7 | TyTrieNode \<Rightarrow> 8 | _ \<Rightarrow> 1)"

lemma asmDepth_fields: "typeDecl ty = DStruct fs \<Longrightarrow> list_all (\<lambda>fd. asmDepth (ftype fd) < asmDepth ty) fs"
  by (cases ty) (simp_all, (drule sym, simp add: go_defs go_field_defs asmDepth_def)+)

lemma asmDepth_members:
  "typeDecl ty = DUnion ms \<Longrightarrow> list_all (\<lambda>m. boxedMember ty (snd m) \<or> asmDepth (snd m) < asmDepth ty) ms"
  by (cases ty) (simp_all, (drule sym, simp add: go_Child_def go_TrieNode_def go_Value_def asmDepth_def boxedMember_def)+)

lemma asmDepth_elem: "typeDecl ty = DList e \<Longrightarrow> asmDepth e < asmDepth ty"
  by (cases ty) (simp_all, (drule sym, simp add: asmDepth_def)+)

text \<open>The zero value of the assembler type.\<close>

function freshAsm :: "tyname \<Rightarrow> casm" where
  "freshAsm ty =
     (case typeDecl ty of
        DStruct fs \<Rightarrow> CStruct maState_initial 0 0 Maybe_Absent (map (\<lambda>fd. freshAsm (ftype fd)) fs)
      | DUnion ms \<Rightarrow> CUnion maState_initial Maybe_Absent 0
          (map (\<lambda>m. if boxedMember ty (snd m) then None else Some (freshAsm (snd m))) ms)
      | DList e \<Rightarrow> CList laState_initial Maybe_Absent (freshAsm e)
      | _ \<Rightarrow> CScalar)"
  by pat_completeness auto
termination
  by (relation "measure asmDepth") (fastforce simp: list_all_iff dest: asmDepth_fields asmDepth_members asmDepth_elem)+

declare freshAsm.simps [simp del]

section \<open>Reset\<close>

text \<open>\<open>reset\<close> of each kind of assembler: a struct resets the assemblers of all its fields, a union the one of the member that
  it has, a list the one of its elements.  The current field of a struct and the state word of a struct or list are
  left as they are.\<close>

fun reset :: "casm \<Rightarrow> casm res"
  and resetAll :: "casm list \<Rightarrow> casm list res"
  and resetMember :: "nat \<Rightarrow> casm option list \<Rightarrow> casm option list res" where
  "reset CScalar = Ok CScalar"
| "reset (CStruct st s f cm cas) = andThen (resetAll cas) (\<lambda>cas. Ok (CStruct maState_initial 0 f cm cas))"
| "reset (CUnion st cm ca ms) =
     (case ca of
        0 \<Rightarrow> Ok (CUnion maState_initial cm ca ms)
      | Suc i \<Rightarrow> andThen (resetMember i ms) (\<lambda>ms. Ok (CUnion maState_initial Maybe_Absent 0 ms)))"
| "reset (CList st cm va) = andThen (reset va) (\<lambda>va. Ok (CList laState_initial cm va))"
| "resetAll [] = Ok []"
| "resetAll (c # cs) = andThen (reset c) (\<lambda>c. andThen (resetAll cs) (\<lambda>cs. Ok (c # cs)))"
| "resetMember i [] = Panic ''unreachable''"
| "resetMember 0 (None # ms) = Panic ''nil pointer dereference''"
| "resetMember 0 (Some c # ms) = andThen (reset c) (\<lambda>c. Ok (Some c # ms))"
| "resetMember (Suc i) (m # ms) = andThen (resetMember i ms) (\<lambda>ms. Ok (m # ms))"

section \<open>Using a tree\<close>

text \<open>What a client does with an assembler: one \<open>AssignNode\<close>; or \<open>BeginMap\<close>, entries by \<open>AssembleKey\<close> and \<open>AssembleValue\<close>,
  \<open>Finish\<close>; or \<open>BeginList\<close>, elements, \<open>Finish\<close>.\<close>

datatype act = Give node | Fields "(string \<times> act) list" | Elems "act list"

fun asize :: "act \<Rightarrow> nat" where
  "asize (Give v) = Suc (nsize v)"
| "asize (Fields es) = Suc (sum_list (map (\<lambda>e. Suc (asize (snd e))) es))"
| "asize (Elems xs) = Suc (sum_list (map (\<lambda>x. Suc (asize x)) xs))"

text \<open>What is done with the assembler of a part, given its type, whether null is allowed, whether its target is nil, and
  the state it is in: the value and the state it is left in.\<close>

type_synonym partUse = "tyname \<Rightarrow> bool \<Rightarrow> bool \<Rightarrow> casm \<Rightarrow> (tnode option \<times> casm) res"

definition struct_entry :: "partUse \<Rightarrow> string \<Rightarrow> sasm \<times> casm list \<Rightarrow> (sasm \<times> casm list) res" where
  "struct_entry x k s =
     andThen (ma_key (fst s) k) (\<lambda>ma.
     andThen (assembleValue ma) (\<lambda>ma.
     let ty = ftype (curField ma); nul = fnullable (curField ma) in
     andThen (x ty nul (nul \<and> ptrMaybe ty) (snd s ! sa_f ma)) (\<lambda>rc.
     Ok (storeChild ma (fst rc), (snd s)[sa_f ma := snd rc]))))"

definition useStruct :: "('e \<Rightarrow> partUse) \<Rightarrow> ('e \<Rightarrow> string) \<Rightarrow> 'e list \<Rightarrow> tyname \<Rightarrow> bool \<Rightarrow> casm \<Rightarrow> (tnode option \<times> casm) res" where
  "useStruct x key es ty wnil c =
     (case c of
        CStruct st s f cm cas \<Rightarrow>
          andThen (forEach (\<lambda>e. struct_entry (x e) (key e)) es
              ((newStructAsm ty wnil)\<lparr>sa_state := st, sa_s := s, sa_f := f, sa_cm := cm\<rparr>, cas)) (\<lambda>s.
          andThen (sa_finish (fst s)) (\<lambda>ma.
          Ok (Some (sa_build ma), CStruct (sa_state ma) (sa_s ma) (sa_f ma) (sa_cm ma) (snd s))))
      | _ \<Rightarrow> Panic ''another assembler'')"

text \<open>The assembler of a member behind a nil pointer is allocated when it is handed out.\<close>

definition union_entry :: "partUse \<Rightarrow> string \<Rightarrow> uasm \<times> casm option list \<Rightarrow> (uasm \<times> casm option list) res" where
  "union_entry x k s =
     andThen (ua_key (fst s) k) (\<lambda>ua.
     andThen (ua_assembleValue ua) (\<lambda>ua.
     let i = ua_ca ua - 1; ty = snd (membersOf (ua_ty ua) ! i);
         c = (case snd s ! i of None \<Rightarrow> freshAsm ty | Some c \<Rightarrow> c) in
     andThen (x ty False False c) (\<lambda>rc. Ok (ua_store ua (fst rc), (snd s)[i := Some (snd rc)]))))"

definition useUnion :: "('e \<Rightarrow> partUse) \<Rightarrow> ('e \<Rightarrow> string) \<Rightarrow> 'e list \<Rightarrow> tyname \<Rightarrow> bool \<Rightarrow> casm \<Rightarrow> (tnode option \<times> casm) res" where
  "useUnion x key es ty wnil c =
     (case c of
        CUnion st cm ca ms \<Rightarrow>
          andThen (forEach (\<lambda>e. union_entry (x e) (key e)) es
              ((newUnionAsm ty wnil)\<lparr>ua_state := st, ua_cm := cm, ua_ca := ca\<rparr>, ms)) (\<lambda>s.
          andThen (ua_finish (fst s)) (\<lambda>ua.
          case ua_x ua of
            Some t \<Rightarrow> Ok (Some (TnUnion (ua_ty ua) (ua_ca ua) t), CUnion (ua_state ua) (ua_cm ua) (ua_ca ua) (snd s))
          | None \<Rightarrow> Panic ''invalid union state; how did you create this object?''))
      | _ \<Rightarrow> Panic ''another assembler'')"

text \<open>\<open>valueFinishTidy\<close> of a list resets the assembler of its elements.\<close>

definition list_ready :: "lasm \<times> casm \<Rightarrow> (lasm \<times> casm) res" where
  "list_ready s =
     andThen (la_ready (fst s)) (\<lambda>la.
     if la_state (fst s) = laState_midValue then andThen (reset (snd s)) (\<lambda>va. Ok (la, va)) else Ok (la, snd s))"

definition list_entry :: "partUse \<Rightarrow> lasm \<times> casm \<Rightarrow> (lasm \<times> casm) res" where
  "list_entry x s =
     andThen (list_ready s) (\<lambda>s.
     let la = (fst s)\<lparr>la_state := laState_midValue\<rparr> in
     andThen (x (elemType (la_ty la)) False False (snd s)) (\<lambda>rc. Ok (la_store la (fst rc), snd rc)))"

definition useList :: "('e \<Rightarrow> partUse) \<Rightarrow> 'e list \<Rightarrow> tyname \<Rightarrow> casm \<Rightarrow> (tnode option \<times> casm) res" where
  "useList x es ty c =
     (case c of
        CList st cm va \<Rightarrow>
          andThen (forEach (\<lambda>e. list_entry (x e)) es ((newListAsm ty)\<lparr>la_state := st, la_cm := cm\<rparr>, va)) (\<lambda>s.
          andThen (list_ready s) (\<lambda>s.
          Ok (Some (TnList (la_ty (fst s)) (la_x (fst s))), CList laState_finished (la_cm (fst s)) (snd s))))
      | _ \<Rightarrow> Panic ''another assembler'')"

lemma use_cong [fundef_cong]:
  "es = es' \<Longrightarrow> key = key' \<Longrightarrow> ty = ty' \<Longrightarrow> w = w' \<Longrightarrow> c = c' \<Longrightarrow> (\<And>e. e \<in> set es' \<Longrightarrow> x e = x' e) \<Longrightarrow>
     useStruct x key es ty w c = useStruct x' key' es' ty' w' c'"
  "es = es' \<Longrightarrow> key = key' \<Longrightarrow> ty = ty' \<Longrightarrow> w = w' \<Longrightarrow> c = c' \<Longrightarrow> (\<And>e. e \<in> set es' \<Longrightarrow> x e = x' e) \<Longrightarrow>
     useUnion x key es ty w c = useUnion x' key' es' ty' w' c'"
  "fs = fs' \<Longrightarrow> ty = ty' \<Longrightarrow> c = c' \<Longrightarrow> (\<And>e. e \<in> set fs' \<Longrightarrow> y e = y' e) \<Longrightarrow> useList y fs ty c = useList y' fs' ty' c'"
  by (auto simp: useStruct_def useUnion_def useList_def split: casm.splits intro!: andThen_cong forEach_cong)

text \<open>A client's use of the assembler of type \<open>ty\<close> in the state \<open>c\<close>.  \<open>BeginMap\<close> allocates the target when it is nil.\<close>

function run :: "act \<Rightarrow> tyname \<Rightarrow> bool \<Rightarrow> bool \<Rightarrow> casm \<Rightarrow> (tnode option \<times> casm) res" where
  "run (Give v) ty nul wnil c =
     (if isNull v then andThen (assignNull ty nul) (\<lambda>r. Ok (r, c))
      else case (case v of NTyped t \<Rightarrow> if tnType t = ty then Some t else None | _ \<Rightarrow> None) of
        Some t \<Rightarrow> Ok (Some t, c)
      | None \<Rightarrow>
        (case typeDecl ty of
           DStruct _ \<Rightarrow>
             (if nodeKind v \<noteq> KMap then Fail (ErrWrongKind ''AssignNode'')
              else useStruct (\<lambda>e. run (Give (snd e))) fst (mapEntries v) ty wnil c)
         | DUnion _ \<Rightarrow>
             (if nodeKind v \<noteq> KMap then Fail (ErrWrongKind ''AssignNode'')
              else useUnion (\<lambda>e. run (Give (snd e))) fst (mapEntries v) ty wnil c)
         | DList _ \<Rightarrow>
             (if nodeKind v \<noteq> KList then Fail (ErrWrongKind ''AssignNode'')
              else useList (\<lambda>e. run (Give e)) (listEntries v) ty c)
         | _ \<Rightarrow> andThen (assignNode ty nul wnil v) (\<lambda>r. Ok (r, c))))"
| "run (Fields es) ty nul wnil c =
     (case typeDecl ty of
        DStruct _ \<Rightarrow> useStruct (\<lambda>e. run (snd e)) fst es ty False c
      | DUnion _ \<Rightarrow> useUnion (\<lambda>e. run (snd e)) fst es ty False c
      | _ \<Rightarrow> Fail (ErrWrongKind ''BeginMap''))"
| "run (Elems xs) ty nul wnil c =
     (case typeDecl ty of
        DList _ \<Rightarrow> useList run xs ty c
      | _ \<Rightarrow> Fail (ErrWrongKind ''BeginList''))"
  by pat_completeness auto

lemma asize_part:
  "e \<in> set es \<Longrightarrow> asize (snd e) < asize (Fields es)" "x \<in> set xs \<Longrightarrow> asize x < asize (Elems xs)"
  "e' \<in> set (mapEntries v) \<Longrightarrow> asize (Give (snd e')) < asize (Give v)"
  "n \<in> set (listEntries v) \<Longrightarrow> asize (Give n) < asize (Give v)"
  using member_le_sum_list [of "Suc (asize (snd e))" "map (\<lambda>e. Suc (asize (snd e))) es"]
    member_le_sum_list [of "Suc (asize x)" "map (\<lambda>x. Suc (asize x)) xs"]
    nsize_mapEntries [of "fst e'" "snd e'" v] nsize_listEntries [of n v]
  by auto

termination run
  by (relation "measure (\<lambda>(a, _). asize a)") (simp_all add: asize_part del: asize.simps)

declare run.simps [simp del]

text \<open>The same with a new assembler for every part: what the models of the decoders and of \<open>AssignNode\<close> do.\<close>

function newRun :: "act \<Rightarrow> tyname \<Rightarrow> bool \<Rightarrow> bool \<Rightarrow> tnode option res" where
  "newRun (Give v) ty nul wnil = assignNode ty nul wnil v"
| "newRun (Fields es) ty nul wnil =
     (case typeDecl ty of
        DStruct _ \<Rightarrow>
          andThen (forEach (\<lambda>e ma. andThen (ma_key ma (fst e)) (\<lambda>ma.
              ma_val ma (\<lambda>ty nul. newRun (snd e) ty nul (nul \<and> ptrMaybe ty)))) es (newStructAsm ty False))
            (\<lambda>ma. andThen (sa_done ma) (\<lambda>t. Ok (Some t)))
      | DUnion _ \<Rightarrow>
          andThen (forEach (\<lambda>e ua. andThen (ua_key ua (fst e)) (\<lambda>ua.
              ua_val ua (\<lambda>ty nul. newRun (snd e) ty nul False))) es (newUnionAsm ty False))
            (\<lambda>ua. andThen (ua_done ua) (\<lambda>t. Ok (Some t)))
      | _ \<Rightarrow> Fail (ErrWrongKind ''BeginMap''))"
| "newRun (Elems xs) ty nul wnil =
     (case typeDecl ty of
        DList _ \<Rightarrow>
          andThen (forEach (\<lambda>x la. la_val la (\<lambda>ty nul. newRun x ty nul False)) xs (newListAsm ty))
            (\<lambda>la. andThen (la_done la) (\<lambda>t. Ok (Some t)))
      | _ \<Rightarrow> Fail (ErrWrongKind ''BeginList''))"
  by pat_completeness auto
termination
  by (relation "measure (\<lambda>(a, _). asize a)") (simp_all add: asize_part del: asize.simps)

declare newRun.simps [simp del]

section \<open>Fresh trees\<close>

text \<open>A tree as \<open>freshAsm\<close> makes it, up to the current field of structs, which is written before it is read, and to member
  assemblers that were allocated in an earlier use.\<close>

fun isFresh :: "tyname \<Rightarrow> casm \<Rightarrow> bool"
  and allFresh :: "tyname list \<Rightarrow> casm list \<Rightarrow> bool"
  and membersFresh :: "tyname \<Rightarrow> tyname list \<Rightarrow> casm option list \<Rightarrow> bool" where
  "isFresh ty CScalar \<longleftrightarrow> typeDecl ty \<in> {DBytes, DLink, DString, DBool}"
| "isFresh ty (CStruct st s f cm cas) \<longleftrightarrow> typeDecl ty = DStruct (fieldsOf ty) \<and> st = maState_initial \<and> s = 0 \<and>
     cm = Maybe_Absent \<and> allFresh (map ftype (fieldsOf ty)) cas"
| "isFresh ty (CUnion st cm ca ms) \<longleftrightarrow> typeDecl ty = DUnion (membersOf ty) \<and> st = maState_initial \<and>
     cm = Maybe_Absent \<and> ca = 0 \<and> membersFresh ty (map snd (membersOf ty)) ms"
| "isFresh ty (CList st cm va) \<longleftrightarrow> typeDecl ty = DList (elemType ty) \<and> st = laState_initial \<and> cm = Maybe_Absent \<and>
     isFresh (elemType ty) va"
| "allFresh (t # ts) (c # cs) \<longleftrightarrow> isFresh t c \<and> allFresh ts cs"
| "allFresh ts cs \<longleftrightarrow> ts = [] \<and> cs = []"
| "membersFresh ty (t # ts) (None # ms) \<longleftrightarrow> boxedMember ty t \<and> membersFresh ty ts ms"
| "membersFresh ty (t # ts) (Some c # ms) \<longleftrightarrow> isFresh t c \<and> membersFresh ty ts ms"
| "membersFresh ty ts ms \<longleftrightarrow> ts = [] \<and> ms = []"

definition memberFresh :: "tyname \<Rightarrow> tyname \<Rightarrow> casm option \<Rightarrow> bool" where
  "memberFresh ty t x = (case x of None \<Rightarrow> boxedMember ty t | Some c \<Rightarrow> isFresh t c)"

lemma allFresh_iff: "allFresh ts cs \<longleftrightarrow> list_all2 isFresh ts cs"
  by (induction cs arbitrary: ts; case_tac ts) auto

lemma membersFresh_iff: "membersFresh ty ts ms \<longleftrightarrow> list_all2 (memberFresh ty) ts ms"
proof (induction ms arbitrary: ts)
  case (Cons m ms)
  then show ?case by (cases ts; cases m) (auto simp: memberFresh_def)
qed (case_tac ts; simp)

lemma freshAsm_isFresh: "isFresh ty (freshAsm ty)"
proof (induction ty rule: freshAsm.induct)
  case (1 ty)
  show ?case
  proof (cases "typeDecl ty")
    case (DStruct fs)
    with 1(1) show ?thesis
      by (auto simp: freshAsm.simps [of ty] allFresh_iff fieldsOf.simps list_all2_map1 list_all2_map2 list_all2_same)
  next
    case (DUnion ms)
    have "memberFresh ty (snd m) (if boxedMember ty (snd m) then None else Some (freshAsm (snd m)))" if "m \<in> set ms" for m
      using 1(3) [OF DUnion that] by (simp add: memberFresh_def)
    with DUnion show ?thesis
      by (auto simp: freshAsm.simps [of ty] membersFresh_iff membersOf.simps list_all2_map1 list_all2_map2 list_all2_same)
  next
    case (DList e)
    with 1(2) show ?thesis by (simp add: freshAsm.simps [of ty] elemType_def)
  qed (simp_all add: freshAsm.simps [of ty])
qed

text \<open>A tree that \<open>reset\<close> makes fresh; a fresh one is an example.\<close>

definition resettable :: "tyname \<Rightarrow> casm \<Rightarrow> bool" where
  "resettable ty c \<longleftrightarrow> (\<exists>c'. reset c = Ok c' \<and> isFresh ty c')"

lemma fresh_resets:
  "isFresh ty c \<Longrightarrow> \<exists>c'. reset c = Ok c' \<and> isFresh ty c'"
  "allFresh ts cs \<Longrightarrow> \<exists>cs'. resetAll cs = Ok cs' \<and> allFresh ts cs'"
  "membersFresh ty' ts' ms' \<Longrightarrow> True"
  by (induction ty c and ts cs and ty' ts' ms' rule: isFresh_allFresh_membersFresh.induct) auto

lemma fresh_resettable: "isFresh ty c \<Longrightarrow> resettable ty c"
  unfolding resettable_def by (rule fresh_resets)

lemma resetAll_resettable: "list_all2 resettable ts cs \<Longrightarrow> \<exists>cs'. resetAll cs = Ok cs' \<and> allFresh ts cs'"
  by (induction rule: list_all2_induct) (auto simp: resettable_def)

lemma resetMember_resettable:
  assumes "length ms = length ts" "i < length ts" "ms ! i = Some c" "resettable (ts ! i) c"
    and "\<And>j. j < length ts \<Longrightarrow> j \<noteq> i \<Longrightarrow> memberFresh ty (ts ! j) (ms ! j)"
  shows "\<exists>ms'. resetMember i ms = Ok ms' \<and> membersFresh ty ts ms'"
proof -
  obtain c' where c': "reset c = Ok c'" "isFresh (ts ! i) c'" using assms(4) by (auto simp: resettable_def)
  have "resetMember i ms = Ok (ms[i := Some c'])" if "i < length ms" "ms ! i = Some c" for i and ms :: "casm option list"
    using that
  proof (induction ms arbitrary: i)
    case (Cons m ms)
    with c'(1) show ?case by (cases i) auto
  qed simp
  then have "resetMember i ms = Ok (ms[i := Some c'])" using assms(1-3) by simp
  moreover have "memberFresh ty (ts ! j) (ms[i := Some c'] ! j)" if "j < length ts" for j
    using that assms(1,5) c'(2) by (cases "j = i") (simp_all add: memberFresh_def)
  then have "membersFresh ty ts (ms[i := Some c'])"
    using assms(1) by (simp add: membersFresh_iff list_all2_conv_all_nth)
  ultimately show ?thesis by blast
qed

section \<open>Agreement\<close>

text \<open>The same outcome, and an assembler that can be reset.\<close>

definition tracks :: "tyname \<Rightarrow> (tnode option \<times> casm) res \<Rightarrow> tnode option res \<Rightarrow> bool" where
  "tracks ty r s \<longleftrightarrow> mapRes fst r = s \<and> okAll (\<lambda>rc. resettable ty (snd rc)) r"

lemma tracks_fail: "tracks ty (Fail e) (Fail e)"
  by (simp add: tracks_def okAll_def)

lemma tracks_keep: "isFresh ty c \<Longrightarrow> tracks ty (andThen r (\<lambda>x. Ok (x, c))) r"
  by (cases r) (auto simp: tracks_def okAll_def fresh_resettable)

text \<open>What a loop leaves behind, and the end of it.\<close>

lemma tracks_loop:
  assumes "r' = mapRes fst r \<and> okAll I r" "\<And>s. I s \<Longrightarrow> tracks ty (k s) (k' (fst s))"
  shows "tracks ty (andThen r k) (andThen r' k')"
  using assms by (cases r) (auto simp: tracks_def okAll_def)

subsection \<open>Structs\<close>

definition structInv :: "tyname \<Rightarrow> sasm \<times> casm list \<Rightarrow> bool" where
  "structInv ty s \<longleftrightarrow> sa_ty (fst s) = ty \<and> length (snd s) = length (fieldsOf ty) \<and>
     (\<forall>i<length (fieldsOf ty). resettable (ftype (fieldsOf ty ! i)) (snd s ! i) \<and>
        (\<not> bit (sa_s (fst s)) i \<longrightarrow> isFresh (ftype (fieldsOf ty ! i)) (snd s ! i))) \<and>
     (sa_cm (fst s) = Maybe_Absent \<or> sa_state (fst s) = maState_midValue \<and> \<not> fnullable (curField (fst s)))"

lemma sa_ready_cm:
  assumes "sa_ready ma = Ok ma'" "sa_cm ma = Maybe_Absent \<or> sa_state ma = maState_midValue \<and> \<not> fnullable (curField ma)"
  shows "sa_cm ma' = Maybe_Absent \<and> sa_s ma' = sa_s ma \<and> sa_ty ma' = sa_ty ma"
  using assms by (auto simp: sa_ready_def sa_tidy_def split: maState.splits option.splits if_splits maybe.splits)

lemma key_value_child:
  assumes "ma_key ma k = Ok ma1" "assembleValue ma1 = Ok ma2"
    and "sa_cm ma = Maybe_Absent \<or> sa_state ma = maState_midValue \<and> \<not> fnullable (curField ma)"
  shows "sa_f ma2 < length (fieldsOf (sa_ty ma)) \<and> \<not> bit (sa_s ma) (sa_f ma2) \<and> sa_s ma2 = sa_s ma + 2 ^ sa_f ma2 \<and>
    sa_ty ma2 = sa_ty ma \<and> sa_state ma2 = maState_midValue \<and> sa_cm ma2 = Maybe_Absent"
proof -
  obtain ma0 where ma0: "sa_ready ma = Ok ma0" using assms(1) by (auto simp: ma_key_def assembleKey_def)
  note cm = sa_ready_cm [OF this assms(3)]
  obtain i where i: "idxOf (fieldNames (sa_ty ma)) k = Some i" "\<not> bit (sa_s ma) i"
      "ma1 = ma0\<lparr>sa_s := sa_s ma + 2 ^ i, sa_state := maState_expectValue, sa_f := i\<rparr>"
    using assms(1) ma0 cm
    by (auto simp: ma_key_def assembleKey_def keyAssignString_def and_exp_neq_0_iff [symmetric] split: if_splits option.splits)
  with assms(2) cm idxOf_SomeD [OF i(1)] show ?thesis
    by (auto simp: assembleValue_def sa_child_def split: if_splits)
qed

lemma storeChild_fields [simp]:
  "sa_ty (storeChild ma r) = sa_ty ma" "sa_s (storeChild ma r) = sa_s ma" "sa_state (storeChild ma r) = sa_state ma"
  "sa_f (storeChild ma r) = sa_f ma" "curField (storeChild ma r) = curField ma"
  by (cases r; simp add: curField_def)+

lemma storeChild_cm:
  "sa_cm ma = Maybe_Absent \<Longrightarrow> fnullable (curField ma) \<Longrightarrow> sa_cm (storeChild ma r) = Maybe_Absent"
  by (cases r) auto

lemma struct_entry_tracks:
  assumes "structInv ty s"
    and "\<And>fd w c. fd \<in> set (fieldsOf ty) \<Longrightarrow> isFresh (ftype fd) c \<Longrightarrow>
      tracks (ftype fd) (x (ftype fd) (fnullable fd) w c) (y (ftype fd) (fnullable fd) w)"
  shows "andThen (ma_key (fst s) k) (\<lambda>ma. ma_val ma (\<lambda>ty nul. y ty nul (nul \<and> ptrMaybe ty))) = mapRes fst (struct_entry x k s) \<and>
    okAll (structInv ty) (struct_entry x k s)"
proof (cases "andThen (ma_key (fst s) k) assembleValue")
  case (Ok ma2)
  then obtain ma1 where ma1: "ma_key (fst s) k = Ok ma1" "assembleValue ma1 = Ok ma2" by auto
  have inv: "sa_ty (fst s) = ty" "length (snd s) = length (fieldsOf ty)"
    "\<And>i. i < length (fieldsOf ty) \<Longrightarrow> resettable (ftype (fieldsOf ty ! i)) (snd s ! i)"
    "\<And>i. i < length (fieldsOf ty) \<Longrightarrow> \<not> bit (sa_s (fst s)) i \<Longrightarrow> isFresh (ftype (fieldsOf ty ! i)) (snd s ! i)"
    using assms(1) by (auto simp: structInv_def)
  have child: "sa_f ma2 < length (fieldsOf ty)" "\<not> bit (sa_s (fst s)) (sa_f ma2)" "sa_s ma2 = sa_s (fst s) + 2 ^ sa_f ma2"
      "sa_ty ma2 = ty" "sa_state ma2 = maState_midValue" "sa_cm ma2 = Maybe_Absent"
    using key_value_child [OF ma1] assms(1) by (auto simp: structInv_def)
  let ?fd = "curField ma2"
  let ?r = "x (ftype ?fd) (fnullable ?fd) (fnullable ?fd \<and> ptrMaybe (ftype ?fd)) (snd s ! sa_f ma2)"
  have fd: "?fd = fieldsOf ty ! sa_f ma2" using child(4) by (simp add: curField_def)
  have tr: "tracks (ftype ?fd) ?r (y (ftype ?fd) (fnullable ?fd) (fnullable ?fd \<and> ptrMaybe (ftype ?fd)))"
    using inv(4) child(1,2) by (intro assms(2)) (auto simp: fd)
  have "structInv ty (storeChild ma2 (fst rc), (snd s)[sa_f ma2 := snd rc])" if "?r = Ok rc" for rc
  proof -
    have "resettable (ftype ?fd) (snd rc)" using tr that by (simp add: tracks_def okAll_def)
    moreover have "sa_cm (storeChild ma2 (fst rc)) = Maybe_Absent \<or> \<not> fnullable ?fd" using storeChild_cm child(6) by blast
    ultimately show ?thesis
      using inv child bit_add_power_int [OF child(2)] by (auto simp: structInv_def nth_list_update fd)
  qed
  then have ok: "okAll (structInv ty) (struct_entry x k s)"
    by (auto simp: okAll_def struct_entry_def ma1 Let_def)
  have "ma_val ma1 (\<lambda>ty nul. y ty nul (nul \<and> ptrMaybe ty)) = andThen (mapRes fst ?r) (\<lambda>r. Ok (storeChild ma2 r))"
    using tr by (simp add: ma_val_def ma1(2) tracks_def)
  with ok show ?thesis
    by (simp add: struct_entry_def ma1 Let_def mapRes_andThen andThen_mapRes)
next
  case (Fail e)
  then show ?thesis by (cases "ma_key (fst s) k") (auto simp: struct_entry_def ma_val_def okAll_def)
next
  case (Panic m)
  then show ?thesis by (cases "ma_key (fst s) k") (auto simp: struct_entry_def ma_val_def okAll_def)
qed

text \<open>The current field that a used assembler starts with is not read.\<close>

lemma start_field:
  "andThen (forEach (\<lambda>e ma. andThen (ma_key ma (key e)) (h e)) es ((newStructAsm ty w)\<lparr>sa_f := f\<rparr>)) sa_done =
   andThen (forEach (\<lambda>e ma. andThen (ma_key ma (key e)) (h e)) es (newStructAsm ty w)) sa_done"
proof (cases es)
  case Nil
  then show ?thesis by (simp add: sa_done_def sa_finish_def sa_ready_def newStructAsm_def Let_def sa_missing_def sa_build_def sa_fields_def)
next
  case (Cons e es')
  have "ma_key ((newStructAsm ty w)\<lparr>sa_f := f\<rparr>) k = ma_key (newStructAsm ty w :: sasm) k" for k
    by (simp add: ma_key_def assembleKey_def sa_ready_def newStructAsm_def keyAssignString_def split: option.splits)
  then show ?thesis by (simp add: Cons)
qed

lemma finish_tracks:
  assumes "structInv ty s" "typeDecl ty = DStruct (fieldsOf ty)"
  shows "tracks ty (andThen (sa_finish (fst s)) (\<lambda>ma. Ok (Some (sa_build ma), CStruct (sa_state ma) (sa_s ma) (sa_f ma) (sa_cm ma) (snd s))))
    (andThen (sa_done (fst s)) (\<lambda>t. Ok (Some t)))"
proof (cases "sa_finish (fst s)")
  case (Ok ma)
  then have "sa_cm ma = Maybe_Absent"
    using sa_ready_cm [of "fst s"] assms(1) by (auto simp: sa_finish_def Let_def structInv_def split: if_splits)
  moreover have "list_all2 resettable (map ftype (fieldsOf ty)) (snd s)"
    using assms(1) by (simp add: structInv_def list_all2_conv_all_nth)
  ultimately have "resettable ty (CStruct (sa_state ma) (sa_s ma) (sa_f ma) (sa_cm ma) (snd s))"
    using resetAll_resettable assms(2) unfolding resettable_def by fastforce
  then show ?thesis by (simp add: tracks_def okAll_def sa_done_def Ok)
qed (simp_all add: tracks_def okAll_def sa_done_def)

lemma useStruct_tracks:
  assumes "typeDecl ty = DStruct fs" "isFresh ty c"
    and "\<And>e fd w c. e \<in> set es \<Longrightarrow> fd \<in> set (fieldsOf ty) \<Longrightarrow> isFresh (ftype fd) c \<Longrightarrow>
      tracks (ftype fd) (x e (ftype fd) (fnullable fd) w c) (y e (ftype fd) (fnullable fd) w)"
  shows "tracks ty (useStruct x key es ty wnil c)
    (andThen (forEach (\<lambda>e ma. andThen (ma_key ma (key e)) (\<lambda>ma. ma_val ma (\<lambda>ty nul. y e ty nul (nul \<and> ptrMaybe ty)))) es (newStructAsm ty wnil))
      (\<lambda>ma. andThen (sa_done ma) (\<lambda>t. Ok (Some t))))"
proof -
  have ty: "typeDecl ty = DStruct (fieldsOf ty)" using assms(1) by (simp add: fieldsOf.simps)
  obtain f cas where c: "c = CStruct maState_initial 0 f Maybe_Absent cas" "allFresh (map ftype (fieldsOf ty)) cas"
    using assms(1,2) by (cases c) auto
  let ?s = "((newStructAsm ty wnil)\<lparr>sa_f := f\<rparr> :: sasm, cas)"
  let ?g = "\<lambda>e ma. andThen (ma_key ma (key e)) (\<lambda>ma. ma_val ma (\<lambda>ty nul. y e ty nul (nul \<and> ptrMaybe ty)))"
  have "structInv ty ?s"
    using c(2) by (auto simp: structInv_def allFresh_iff list_all2_conv_all_nth newStructAsm_def fresh_resettable)
  moreover have "?g e (fst s) = mapRes fst (struct_entry (x e) (key e) s) \<and> okAll (structInv ty) (struct_entry (x e) (key e) s)"
    if "e \<in> set es" "structInv ty s" for e s
    using assms(3) [OF that(1)] by (intro struct_entry_tracks [OF that(2)])
  ultimately have loop: "forEach ?g es (fst ?s) = mapRes fst (forEach (\<lambda>e. struct_entry (x e) (key e)) es ?s) \<and>
      okAll (structInv ty) (forEach (\<lambda>e. struct_entry (x e) (key e)) es ?s)" by (intro forEach_commute)
  have "tracks ty
      (andThen (forEach (\<lambda>e. struct_entry (x e) (key e)) es ?s) (\<lambda>s. andThen (sa_finish (fst s)) (\<lambda>ma.
         Ok (Some (sa_build ma), CStruct (sa_state ma) (sa_s ma) (sa_f ma) (sa_cm ma) (snd s)))))
      (andThen (forEach ?g es (fst ?s)) (\<lambda>ma. andThen (sa_done ma) (\<lambda>t. Ok (Some t))))"
    by (rule tracks_loop [OF loop]) (rule finish_tracks [OF _ ty])
  moreover have "andThen (forEach ?g es (fst ?s)) (\<lambda>ma. andThen (sa_done ma) (\<lambda>t. Ok (Some t))) =
      andThen (forEach ?g es (newStructAsm ty wnil)) (\<lambda>ma. andThen (sa_done ma) (\<lambda>t. Ok (Some t)))"
    using start_field [where es = es and key = key and f = f and w = wnil]
    by (simp only: andThen_assoc [symmetric] fst_conv)
  moreover have "(newStructAsm ty wnil)\<lparr>sa_state := maState_initial, sa_s := 0, sa_f := f, sa_cm := Maybe_Absent\<rparr> = fst ?s"
    by (simp add: newStructAsm_def)
  ultimately show ?thesis by (simp add: useStruct_def c(1))
qed

subsection \<open>Unions\<close>

definition unionTreeInv :: "tyname \<Rightarrow> uasm \<times> casm option list \<Rightarrow> bool" where
  "unionTreeInv ty s \<longleftrightarrow> ua_ty (fst s) = ty \<and> length (snd s) = length (membersOf ty) \<and> ua_ca (fst s) \<le> length (membersOf ty) \<and>
     (\<forall>i<length (membersOf ty). let t = snd (membersOf ty ! i) in
        if ua_ca (fst s) = Suc i then \<exists>c. snd s ! i = Some c \<and> resettable t c else memberFresh ty t (snd s ! i))"

lemma ua_key_value:
  assumes "ua_key ua k = Ok ua1" "ua_assembleValue ua1 = Ok ua2"
  shows "ua_ca ua = 0 \<and> ua_ty ua2 = ua_ty ua \<and> 0 < ua_ca ua2 \<and> ua_ca ua2 \<le> length (membersOf (ua_ty ua))"
proof -
  obtain ua0 where "ua_ready ua = Ok ua0" using assms(1) by (auto simp: ua_key_eq)
  then have "ua_ca ua0 = ua_ca ua \<and> ua_ty ua0 = ua_ty ua" by (auto simp: ua_ready_def split: maState.splits if_splits)
  with assms \<open>ua_ready ua = Ok ua0\<close> show ?thesis
    by (auto simp: ua_key_eq ua_assembleValue_def split: if_splits option.splits maState.splits)
qed

lemma union_entry_tracks:
  assumes "unionTreeInv ty s"
    and "\<And>t c. t \<in> set (map snd (membersOf ty)) \<Longrightarrow> isFresh t c \<Longrightarrow> tracks t (x t False False c) (y t False False)"
  shows "andThen (ua_key (fst s) k) (\<lambda>ua. ua_val ua (\<lambda>ty nul. y ty nul False)) = mapRes fst (union_entry x k s) \<and>
    okAll (unionTreeInv ty) (union_entry x k s)"
proof (cases "andThen (ua_key (fst s) k) ua_assembleValue")
  case (Ok ua2)
  then obtain ua1 where ua1: "ua_key (fst s) k = Ok ua1" "ua_assembleValue ua1 = Ok ua2" by auto
  have inv: "ua_ty (fst s) = ty" "length (snd s) = length (membersOf ty)" using assms(1) by (auto simp: unionTreeInv_def)
  have ca: "ua_ca (fst s) = 0" "ua_ty ua2 = ty" "0 < ua_ca ua2" "ua_ca ua2 \<le> length (membersOf ty)"
    using ua_key_value [OF ua1] inv(1) by auto
  define i where "i = ua_ca ua2 - 1"
  let ?t = "snd (membersOf ty ! i)"
  let ?c = "case snd s ! i of None \<Rightarrow> freshAsm ?t | Some c \<Rightarrow> c"
  have i: "i < length (membersOf ty)" using ca by (simp add: i_def)
  have fresh: "memberFresh ty (snd (membersOf ty ! j)) (snd s ! j)" if "j < length (membersOf ty)" for j
    using assms(1) that ca(1) by (auto simp: unionTreeInv_def Let_def)
  have "isFresh ?t ?c" using fresh [OF i] freshAsm_isFresh by (auto simp: memberFresh_def split: option.splits)
  then have tr: "tracks ?t (x ?t False False ?c) (y ?t False False)" using i by (intro assms(2)) auto
  have "unionTreeInv ty (ua_store ua2 (fst rc), (snd s)[i := Some (snd rc)])" if "x ?t False False ?c = Ok rc" for rc
  proof -
    have "resettable ?t (snd rc)" using tr that by (cases rc) (simp add: tracks_def okAll_def)
    with fresh ca inv i show ?thesis by (auto simp: i_def unionTreeInv_def Let_def ua_store_def nth_list_update)
  qed
  moreover have entry: "union_entry x k s = andThen (x ?t False False ?c) (\<lambda>rc. Ok (ua_store ua2 (fst rc), (snd s)[i := Some (snd rc)]))"
    unfolding union_entry_def ua1 andThen.simps Let_def ca(2) i_def [symmetric] by (rule refl)
  ultimately have "okAll (unionTreeInv ty) (union_entry x k s)" by (auto simp: okAll_def)
  moreover have "ua_val ua1 (\<lambda>ty nul. y ty nul False) = andThen (mapRes fst (x ?t False False ?c)) (\<lambda>r. Ok (ua_store ua2 r))"
    using tr unfolding ua_val_def ua1(2) andThen.simps ca(2) i_def [symmetric] by (simp add: tracks_def)
  ultimately show ?thesis by (simp add: entry ua1(1) mapRes_andThen andThen_mapRes)
next
  case (Fail e)
  then show ?thesis by (cases "ua_key (fst s) k") (auto simp: union_entry_def ua_val_def okAll_def)
next
  case (Panic m)
  then show ?thesis by (cases "ua_key (fst s) k") (auto simp: union_entry_def ua_val_def okAll_def)
qed

lemma union_finish_tracks:
  assumes "unionTreeInv ty s" "typeDecl ty = DUnion (membersOf ty)"
  shows "tracks ty (andThen (ua_finish (fst s)) (\<lambda>ua. case ua_x ua of
        Some t \<Rightarrow> Ok (Some (TnUnion (ua_ty ua) (ua_ca ua) t), CUnion (ua_state ua) (ua_cm ua) (ua_ca ua) (snd s))
      | None \<Rightarrow> Panic ''invalid union state; how did you create this object?''))
    (andThen (ua_done (fst s)) (\<lambda>t. Ok (Some t)))"
proof (cases "ua_finish (fst s)")
  case (Ok ua)
  then have ca: "ua_ca ua \<noteq> 0" "ua_ca ua = ua_ca (fst s)"
    by (auto simp: ua_finish_def ua_ready_def split: if_splits maState.splits)
  define i where "i = ua_ca ua - 1"
  have i: "ua_ca ua = Suc i" "i < length (membersOf ty)"
    using assms(1) ca by (auto simp: unionTreeInv_def i_def)
  have members: "\<And>j. j < length (membersOf ty) \<Longrightarrow> let t = snd (membersOf ty ! j) in
      if i = j then \<exists>c. snd s ! j = Some c \<and> resettable t c else memberFresh ty t (snd s ! j)"
    using assms(1) i(1) ca(2) by (auto simp: unionTreeInv_def Let_def)
  then obtain c where c: "snd s ! i = Some c" "resettable (snd (membersOf ty ! i)) c" using i(2) by (force simp: Let_def)
  have "\<exists>ms'. resetMember i (snd s) = Ok ms' \<and> membersFresh ty (map snd (membersOf ty)) ms'"
    using assms(1) i(2) c members by (intro resetMember_resettable [where c = c]) (auto simp: unionTreeInv_def Let_def)
  then have "resettable ty (CUnion (ua_state ua) (ua_cm ua) (ua_ca ua) (snd s))"
    using assms(2) by (auto simp: resettable_def i(1))
  then show ?thesis by (auto simp: tracks_def okAll_def ua_done_def Ok split: option.splits)
qed (simp_all add: tracks_def okAll_def ua_done_def)

lemma useUnion_tracks:
  assumes "typeDecl ty = DUnion ms" "isFresh ty c"
    and "\<And>e t c. e \<in> set es \<Longrightarrow> t \<in> set (map snd (membersOf ty)) \<Longrightarrow> isFresh t c \<Longrightarrow> tracks t (x e t False False c) (y e t False False)"
  shows "tracks ty (useUnion x key es ty wnil c)
    (andThen (forEach (\<lambda>e ua. andThen (ua_key ua (key e)) (\<lambda>ua. ua_val ua (\<lambda>ty nul. y e ty nul False))) es (newUnionAsm ty wnil))
      (\<lambda>ua. andThen (ua_done ua) (\<lambda>t. Ok (Some t))))"
proof -
  have ty: "typeDecl ty = DUnion (membersOf ty)" using assms(1) by (simp add: membersOf.simps)
  obtain ms' where c: "c = CUnion maState_initial Maybe_Absent 0 ms'" "membersFresh ty (map snd (membersOf ty)) ms'"
    using assms(1,2) by (cases c) auto
  let ?s = "(newUnionAsm ty wnil :: uasm, ms')"
  let ?g = "\<lambda>e ua. andThen (ua_key ua (key e)) (\<lambda>ua. ua_val ua (\<lambda>ty nul. y e ty nul False))"
  have "unionTreeInv ty ?s"
    using c(2) by (auto simp: unionTreeInv_def membersFresh_iff list_all2_conv_all_nth newUnionAsm_def Let_def)
  moreover have "?g e (fst s) = mapRes fst (union_entry (x e) (key e) s) \<and> okAll (unionTreeInv ty) (union_entry (x e) (key e) s)"
    if "e \<in> set es" "unionTreeInv ty s" for e s
    using assms(3) [OF that(1)] by (intro union_entry_tracks [OF that(2)])
  ultimately have loop: "forEach ?g es (fst ?s) = mapRes fst (forEach (\<lambda>e. union_entry (x e) (key e)) es ?s) \<and>
      okAll (unionTreeInv ty) (forEach (\<lambda>e. union_entry (x e) (key e)) es ?s)" by (intro forEach_commute)
  have "tracks ty
      (andThen (forEach (\<lambda>e. union_entry (x e) (key e)) es ?s) (\<lambda>s. andThen (ua_finish (fst s)) (\<lambda>ua. case ua_x ua of
          Some t \<Rightarrow> Ok (Some (TnUnion (ua_ty ua) (ua_ca ua) t), CUnion (ua_state ua) (ua_cm ua) (ua_ca ua) (snd s))
        | None \<Rightarrow> Panic ''invalid union state; how did you create this object?'')))
      (andThen (forEach ?g es (fst ?s)) (\<lambda>ua. andThen (ua_done ua) (\<lambda>t. Ok (Some t))))"
    by (rule tracks_loop [OF loop]) (rule union_finish_tracks [OF _ ty])
  moreover have "(newUnionAsm ty wnil)\<lparr>ua_state := maState_initial, ua_cm := Maybe_Absent, ua_ca := 0\<rparr> = fst ?s"
    by (simp add: newUnionAsm_def)
  ultimately show ?thesis by (simp add: useUnion_def c(1))
qed

subsection \<open>Lists\<close>

definition listTreeInv :: "tyname \<Rightarrow> lasm \<times> casm \<Rightarrow> bool" where
  "listTreeInv ty s \<longleftrightarrow> la_ty (fst s) = ty \<and>
     (la_state (fst s) = laState_initial \<and> la_cm (fst s) = Maybe_Absent \<and> isFresh (elemType ty) (snd s) \<or>
      la_state (fst s) = laState_midValue \<and> resettable (elemType ty) (snd s))"

lemma list_ready_tracks:
  assumes "listTreeInv ty s"
  shows "la_ready (fst s) = mapRes fst (list_ready s) \<and>
    okAll (\<lambda>s'. la_ty (fst s') = ty \<and> la_state (fst s') = laState_initial \<and> la_cm (fst s') = Maybe_Absent \<and>
      isFresh (elemType ty) (snd s')) (list_ready s)"
  using assms by (auto simp: listTreeInv_def list_ready_def la_ready_def resettable_def okAll_def)

lemma list_entry_tracks:
  assumes "listTreeInv ty s" "\<And>c. isFresh (elemType ty) c \<Longrightarrow>
      tracks (elemType ty) (x (elemType ty) False False c) (y (elemType ty) False False)"
  shows "la_val (fst s) (\<lambda>ty nul. y ty nul False) = mapRes fst (list_entry x s) \<and> okAll (listTreeInv ty) (list_entry x s)"
proof (cases "list_ready s")
  case (Ok s')
  with list_ready_tracks [OF assms(1)] have s': "la_ready (fst s) = Ok (fst s')" "la_ty (fst s') = ty"
      "la_cm (fst s') = Maybe_Absent" "isFresh (elemType ty) (snd s')" by (auto simp: okAll_def)
  let ?r = "x (elemType ty) False False (snd s')"
  have tr: "tracks (elemType ty) ?r (y (elemType ty) False False)" by (rule assms(2) [OF s'(4)])
  have "listTreeInv ty (la_store ((fst s')\<lparr>la_state := laState_midValue\<rparr>) (fst rc), snd rc)" if "?r = Ok rc" for rc
    using tr that s'(2) by (cases "fst rc") (auto simp: listTreeInv_def tracks_def okAll_def)
  then have "okAll (listTreeInv ty) (list_entry x s)" by (auto simp: okAll_def list_entry_def Ok Let_def s'(2))
  moreover have "la_val (fst s) (\<lambda>ty nul. y ty nul False) =
      andThen (mapRes fst ?r) (\<lambda>r. Ok (la_store ((fst s')\<lparr>la_state := laState_midValue\<rparr>) r))"
    using tr by (simp add: la_val_def la_assembleValue_def s' tracks_def)
  ultimately show ?thesis by (simp add: list_entry_def Ok Let_def s'(2) mapRes_andThen andThen_mapRes)
next
  case (Fail e)
  with list_ready_tracks [OF assms(1)] show ?thesis by (simp add: list_entry_def la_val_def la_assembleValue_def okAll_def)
next
  case (Panic m)
  with list_ready_tracks [OF assms(1)] show ?thesis by (simp add: list_entry_def la_val_def la_assembleValue_def okAll_def)
qed

lemma list_finish_tracks:
  assumes "listTreeInv ty s" "typeDecl ty = DList (elemType ty)"
  shows "tracks ty (andThen (list_ready s) (\<lambda>s.
        Ok (Some (TnList (la_ty (fst s)) (la_x (fst s))), CList laState_finished (la_cm (fst s)) (snd s))))
    (andThen (la_done (fst s)) (\<lambda>t. Ok (Some t)))"
proof (cases "list_ready s")
  case (Ok s')
  with list_ready_tracks [OF assms(1)] have s': "la_ready (fst s) = Ok (fst s')" "la_cm (fst s') = Maybe_Absent"
      "isFresh (elemType ty) (snd s')" by (auto simp: okAll_def)
  from fresh_resets(1) [OF s'(3)] assms(2) s'(2) have "resettable ty (CList laState_finished (la_cm (fst s')) (snd s'))"
    by (auto simp: resettable_def)
  then show ?thesis by (simp add: tracks_def okAll_def la_done_def la_finish_def Ok s'(1))
next
  case (Fail e)
  with list_ready_tracks [OF assms(1)] show ?thesis by (simp add: tracks_def okAll_def la_done_def la_finish_def)
next
  case (Panic m)
  with list_ready_tracks [OF assms(1)] show ?thesis by (simp add: tracks_def okAll_def la_done_def la_finish_def)
qed

lemma useList_tracks:
  assumes "typeDecl ty = DList e" "isFresh ty c"
    and "\<And>x c. x \<in> set xs \<Longrightarrow> isFresh (elemType ty) c \<Longrightarrow>
      tracks (elemType ty) (f x (elemType ty) False False c) (g x (elemType ty) False False)"
  shows "tracks ty (useList f xs ty c)
    (andThen (forEach (\<lambda>x la. la_val la (\<lambda>ty nul. g x ty nul False)) xs (newListAsm ty)) (\<lambda>la. andThen (la_done la) (\<lambda>t. Ok (Some t))))"
proof -
  have ty: "typeDecl ty = DList (elemType ty)" using assms(1) by (simp add: elemType_def)
  obtain va where c: "c = CList laState_initial Maybe_Absent va" "isFresh (elemType ty) va"
    using assms(1,2) by (cases c) auto
  let ?s = "(newListAsm ty :: lasm, va)"
  let ?g = "\<lambda>x la. la_val la (\<lambda>ty nul. g x ty nul False)"
  have "listTreeInv ty ?s" using c(2) by (simp add: listTreeInv_def newListAsm_def)
  moreover have "?g x (fst s) = mapRes fst (list_entry (f x) s) \<and> okAll (listTreeInv ty) (list_entry (f x) s)"
    if "x \<in> set xs" "listTreeInv ty s" for x s
    using assms(3) [OF that(1)] by (intro list_entry_tracks [OF that(2)])
  ultimately have loop: "forEach ?g xs (fst ?s) = mapRes fst (forEach (\<lambda>x. list_entry (f x)) xs ?s) \<and>
      okAll (listTreeInv ty) (forEach (\<lambda>x. list_entry (f x)) xs ?s)" by (intro forEach_commute)
  have "tracks ty
      (andThen (forEach (\<lambda>x. list_entry (f x)) xs ?s) (\<lambda>s. andThen (list_ready s) (\<lambda>s.
        Ok (Some (TnList (la_ty (fst s)) (la_x (fst s))), CList laState_finished (la_cm (fst s)) (snd s)))))
      (andThen (forEach ?g xs (fst ?s)) (\<lambda>la. andThen (la_done la) (\<lambda>t. Ok (Some t))))"
    by (rule tracks_loop [OF loop]) (rule list_finish_tracks [OF _ ty])
  moreover have "(newListAsm ty)\<lparr>la_state := laState_initial, la_cm := Maybe_Absent\<rparr> = fst ?s" by (simp add: newListAsm_def)
  ultimately show ?thesis by (simp add: useList_def c(1))
qed

subsection \<open>Every use\<close>

lemma run_tracks: "isFresh ty c \<Longrightarrow> tracks ty (run a ty nul wnil c) (newRun a ty nul wnil)"
proof (induction a arbitrary: ty nul wnil c rule: measure_induct_rule [where f = asize])
  case (less a)
  show ?case
  proof (cases a)
    case (Fields es)
    have "tracks ty' (run (snd e) ty' nul wnil c) (newRun (snd e) ty' nul wnil)"
      if "e \<in> set es" "isFresh ty' c" for e ty' nul wnil c
      using less.IH [of "snd e"] asize_part(1) [OF that(1)] that(2) by (simp add: Fields)
    note parts = useStruct_tracks [where x = "\<lambda>e. run (snd e)" and y = "\<lambda>e. newRun (snd e)" and es = es, OF _ less.prems this]
      useUnion_tracks [where x = "\<lambda>e. run (snd e)" and y = "\<lambda>e. newRun (snd e)" and es = es, OF _ less.prems this]
    show ?thesis
      by (cases "typeDecl ty") (simp_all add: Fields run.simps newRun.simps tracks_fail parts)
  next
    case (Elems xs)
    have "tracks ty' (run x ty' nul wnil c) (newRun x ty' nul wnil)"
      if "x \<in> set xs" "isFresh ty' c" for x ty' nul wnil c
      using less.IH [of x] asize_part(2) [OF that(1)] that(2) by (simp add: Elems)
    note parts = useList_tracks [where f = run and g = newRun and xs = xs, OF _ less.prems this]
    show ?thesis by (cases "typeDecl ty") (simp_all add: Elems run.simps newRun.simps tracks_fail parts)
  next
    case (Give v)
    have entry: "tracks ty' (run (Give (snd e)) ty' nul wnil c) (assignNode ty' nul wnil (snd e))"
      if "e \<in> set (mapEntries v)" "isFresh ty' c" for e ty' nul wnil c
      using less.IH [of "Give (snd e)"] asize_part(3) [OF that(1)] that(2) by (simp add: Give newRun.simps)
    have elem: "tracks ty' (run (Give n) ty' nul wnil c) (assignNode ty' nul wnil n)"
      if "n \<in> set (listEntries v)" "isFresh ty' c" for n ty' nul wnil c
      using less.IH [of "Give n"] asize_part(4) [OF that(1)] that(2) by (simp add: Give newRun.simps)
    note parts = useStruct_tracks [where x = "\<lambda>e. run (Give (snd e))" and y = "\<lambda>e ty nul w. assignNode ty nul w (snd e)" and
        es = "mapEntries v" and key = fst and wnil = wnil, OF _ less.prems entry]
      useUnion_tracks [where x = "\<lambda>e. run (Give (snd e))" and y = "\<lambda>e ty nul w. assignNode ty nul w (snd e)" and
        es = "mapEntries v" and key = fst and wnil = wnil, OF _ less.prems entry]
      useList_tracks [where f = "\<lambda>e. run (Give e)" and g = "\<lambda>e ty nul w. assignNode ty nul w e" and xs = "listEntries v",
        OF _ less.prems elem]
    show ?thesis
    proof (cases "isNull v \<or> (\<exists>t. v = NTyped t \<and> tnType t = ty)")
      case True
      then show ?thesis
        using tracks_keep [OF less.prems, of "assignNull ty nul"] tracks_keep [OF less.prems, of "Ok (Some t)" for t]
        by (auto simp: Give run.simps newRun.simps assignNode.simps [of ty])
    next
      case False
      then have same: "(case v of NTyped t \<Rightarrow> if tnType t = ty then Some t else None | _ \<Rightarrow> None) = None"
        by (cases v) auto
      from False same show ?thesis
        using tracks_keep [OF less.prems, of "assignNode ty nul wnil v"] parts tracks_fail
        by (cases "typeDecl ty") (simp_all add: Give run.simps newRun.simps assignNode.simps [of ty])
    qed
  qed
qed

text \<open>C40: Assemblers can be reused.  Whatever a client does with a fresh assembler, its parts included -- \<open>AssignNode\<close>, or
  entries and elements nested to any depth, with one assembler for all elements of a list, reset in between -- has the
  outcome that it has when every part gets a new assembler.  And once the use has succeeded, \<open>reset\<close> succeeds and leaves the
  assembler, with all the assemblers inside it, as good as new for every further use.\<close>

theorem reused_as_new:
  "mapRes fst (run a ty nul wnil (freshAsm ty)) = newRun a ty nul wnil \<and>
   (\<forall>r used. run a ty nul wnil (freshAsm ty) = Ok (r, used) \<longrightarrow>
      (\<exists>c. reset used = Ok c \<and> (\<forall>b nul' wnil'. mapRes fst (run b ty nul' wnil' c) = newRun b ty nul' wnil')))"
  using run_tracks [OF freshAsm_isFresh, of ty a nul wnil] run_tracks
  by (fastforce simp: tracks_def okAll_def resettable_def)

definition sampleLogAct :: "byte \<Rightarrow> act" where
  "sampleLogAct n = Fields [(''Address'', Give (NBytes [n])), (''Topics'', Elems [Give (NBytes [1]), Give (NBytes [n])]),
     (''Data'', Give (NBytes []))]"

definition sampleLogValue :: "byte \<Rightarrow> tnode" where
  "sampleLogValue n = TnStruct TyLog [Some (TnBytes TyAddress [n]), Some (TnList TyTopics [TnBytes TyHash [1], TnBytes TyHash [n]]),
     Some (TnBytes TyBytes [])]"

lemma newRun_sample: "newRun (sampleLogAct 2) TyLog False False = Ok (Some (sampleLogValue 2))"
  "newRun (sampleLogAct 3) TyLog False False = Ok (Some (sampleLogValue 3))"
  "newRun (Elems [sampleLogAct 2, sampleLogAct 3]) TyLogs False False =
     Ok (Some (TnList TyLogs [sampleLogValue 2, sampleLogValue 3]))"
  by code_simp+

theorem reused_as_new_witness:
  "\<exists>used c used'. run (sampleLogAct 2) TyLog False False (freshAsm TyLog) = Ok (Some (sampleLogValue 2), used) \<and>
     reset used = Ok c \<and> run (sampleLogAct 3) TyLog False False c = Ok (Some (sampleLogValue 3), used') \<and>
     mapRes fst (run (Elems [sampleLogAct 2, sampleLogAct 3]) TyLogs False False (freshAsm TyLogs)) =
       Ok (Some (TnList TyLogs [sampleLogValue 2, sampleLogValue 3]))"
proof -
  note first = reused_as_new [of "sampleLogAct 2" TyLog False False, unfolded newRun_sample]
  then obtain used where used: "run (sampleLogAct 2) TyLog False False (freshAsm TyLog) = Ok (Some (sampleLogValue 2), used)"
    by (cases "run (sampleLogAct 2) TyLog False False (freshAsm TyLog)") auto
  with first obtain c where c: "reset used = Ok c"
      "mapRes fst (run (sampleLogAct 3) TyLog False False c) = Ok (Some (sampleLogValue 3))"
    using newRun_sample(2) by metis
  then obtain used' where "run (sampleLogAct 3) TyLog False False c = Ok (Some (sampleLogValue 3), used')"
    by (cases "run (sampleLogAct 3) TyLog False False c") auto
  moreover have "mapRes fst (run (Elems [sampleLogAct 2, sampleLogAct 3]) TyLogs False False (freshAsm TyLogs)) =
      Ok (Some (TnList TyLogs [sampleLogValue 2, sampleLogValue 3]))"
    using reused_as_new [of "Elems [sampleLogAct 2, sampleLogAct 3]" TyLogs False False] newRun_sample(3) by simp
  ultimately show ?thesis using used c(1) by blast
qed

text \<open>A second use without \<open>reset\<close> panics: the assembler of the topics is finished.\<close>

theorem unreset_panics:
  "andThen (run (Give (NList [])) TyTopics False False (freshAsm TyTopics)) (\<lambda>rc. run (Give (NList [])) TyTopics False False (snd rc)) =
   Panic ''invalid state: assembler already finished''"
  by code_simp

end
