(* ===== verification/Node_Access.thy ===== *)
theory Node_Access
  imports Node
begin

text \<open>
  Access to the generated nodes: the iterators, the loop that every \<open>AssignNode\<close> runs over them, and the lookups by
  node, by index and by path segment, of the type-level and of the representation view.  The lists \<open>mapEntries\<close> and
  \<open>listEntries\<close> that the codecs' models go through are shown to be what these loops see.
\<close>

section \<open>Iterators\<close>

text \<open>An iterator over the fields of a struct counts them, one over a union has a flag.  The first component says
  whether the iterator belongs to the representation view.\<close>

datatype mapItr =
    StructItr bool tyname "tnode option list" nat
  | UnionItr bool tyname nat tnode bool

datatype listItr = ListItr bool "tnode list" nat

definition viewNode :: "bool \<Rightarrow> tnode \<Rightarrow> node" where
  "viewNode r t = (if r then representation t else NTyped t)"

definition viewMaybe :: "bool \<Rightarrow> tnode option \<Rightarrow> node" where
  "viewMaybe r x = (if r then reprMaybe x else ofMaybe x)"

definition viewKeys :: "bool \<Rightarrow> tyname \<Rightarrow> string list" where
  "viewKeys r ty = (if r then reprKeys ty else memberNames ty)"

text \<open>A nil iterator is \<open>None\<close>.  The representation of \<open>Child\<close> is the one of its member.\<close>

fun reprMapIterator :: "tnode \<Rightarrow> mapItr option" where
  "reprMapIterator (TnStruct ty fs) = Some (StructItr True ty fs 0)"
| "reprMapIterator (TnUnion ty tag t) =
     (if ty = TyChild then (if tag = 2 then reprMapIterator t else None)
      else Some (UnionItr True ty tag t False))"
| "reprMapIterator _ = None"

fun tnMapIterator :: "tnode \<Rightarrow> mapItr option" where
  "tnMapIterator (TnStruct ty fs) = Some (StructItr False ty fs 0)"
| "tnMapIterator (TnUnion ty tag t) = Some (UnionItr False ty tag t False)"
| "tnMapIterator _ = None"

definition mapIterator :: "bool \<Rightarrow> tnode \<Rightarrow> mapItr option" where
  "mapIterator r t = (if r then reprMapIterator t else tnMapIterator t)"

fun listIterator :: "bool \<Rightarrow> tnode \<Rightarrow> listItr option" where
  "listIterator r (TnList _ ts) = Some (ListItr r ts 0)"
| "listIterator r _ = None"

fun mapItr_Done :: "mapItr \<Rightarrow> bool" where
  "mapItr_Done (StructItr _ ty _ i) = (length (fieldsOf ty) \<le> i)"
| "mapItr_Done (UnionItr _ _ _ _ d) = d"

fun mapItr_Next :: "mapItr \<Rightarrow> ((string \<times> node) \<times> mapItr) res" where
  "mapItr_Next (StructItr r ty fs i) =
     (if length (fieldsOf ty) \<le> i then Fail ErrIteratorOverread
      else if length fs \<le> i then Panic ''malformed struct''
      else Ok ((fieldNames ty ! i, viewMaybe r (fs ! i)), StructItr r ty fs (Suc i)))"
| "mapItr_Next (UnionItr r ty tag t d) =
     (if d then Fail ErrIteratorOverread
      else if 1 \<le> tag \<and> tag \<le> length (membersOf ty)
      then Ok ((viewKeys r ty ! (tag - 1), viewMaybe r (Some t)), UnionItr r ty tag t True)
      else Panic ''unreachable'')"

fun listItr_Done :: "listItr \<Rightarrow> bool" where
  "listItr_Done (ListItr _ ts i) = (length ts \<le> i)"

fun listItr_Next :: "listItr \<Rightarrow> ((nat \<times> node) \<times> listItr) res" where
  "listItr_Next (ListItr r ts i) =
     (if length ts \<le> i then Fail ErrIteratorOverread
      else Ok ((i, viewMaybe r (Some (ts ! i))), ListItr r ts (Suc i)))"

text \<open>The loop \<open>for !itr.Done() { k, v, err := itr.Next(); ... }\<close>.\<close>

fun mapItr_left :: "mapItr \<Rightarrow> nat" where
  "mapItr_left (StructItr _ ty _ i) = length (fieldsOf ty) - i"
| "mapItr_left (UnionItr _ _ _ _ d) = (if d then 0 else 1)"

fun listItr_left :: "listItr \<Rightarrow> nat" where
  "listItr_left (ListItr _ ts i) = length ts - i"

lemma mapItr_Next_left: "mapItr_Next it = Ok (e, it') \<Longrightarrow> mapItr_left it' < mapItr_left it"
  by (cases it) (auto split: if_splits)

lemma listItr_Next_left: "listItr_Next it = Ok (e, it') \<Longrightarrow> listItr_left it' < listItr_left it"
  by (cases it) (auto split: if_splits)

function mapLoop :: "(string \<times> node \<Rightarrow> 's \<Rightarrow> 's res) \<Rightarrow> mapItr \<Rightarrow> 's \<Rightarrow> 's res" where
  "mapLoop f it s =
     (if mapItr_Done it then Ok s
      else case mapItr_Next it of
        Ok (e, it') \<Rightarrow> andThen (f e s) (mapLoop f it')
      | Fail err \<Rightarrow> Fail err
      | Panic m \<Rightarrow> Panic m)"
  by pat_completeness auto
termination
  by (relation "measure (\<lambda>(_, it, _). mapItr_left it)") (auto dest: mapItr_Next_left)

function listLoop :: "(nat \<times> node \<Rightarrow> 's \<Rightarrow> 's res) \<Rightarrow> listItr \<Rightarrow> 's \<Rightarrow> 's res" where
  "listLoop f it s =
     (if listItr_Done it then Ok s
      else case listItr_Next it of
        Ok (e, it') \<Rightarrow> andThen (f e s) (listLoop f it')
      | Fail err \<Rightarrow> Fail err
      | Panic m \<Rightarrow> Panic m)"
  by pat_completeness auto
termination
  by (relation "measure (\<lambda>(_, it, _). listItr_left it)") (auto dest: listItr_Next_left)

declare mapLoop.simps [simp del] listLoop.simps [simp del]

section \<open>Lookups\<close>

fun asInt :: "node \<Rightarrow> int res" where
  "asInt (NInt i) = Ok i"
| "asInt _ = Fail (ErrWrongKind ''AsInt'')"

text \<open>\<open>LookupByIndex\<close> compares with the length only, and indexes the slice.\<close>

fun tnLookupByIndex :: "tnode \<Rightarrow> int \<Rightarrow> tnode res" where
  "tnLookupByIndex (TnList ty ts) i =
     (if int (length ts) \<le> i then Fail (ErrIndexNotExists i)
      else if i < 0 then Panic ''index out of range''
      else Ok (ts ! nat i))"
| "tnLookupByIndex _ i = Fail (ErrWrongKind ''LookupByIndex'')"

definition lookupByIndex :: "bool \<Rightarrow> tnode \<Rightarrow> int \<Rightarrow> node res" where
  "lookupByIndex r t i = andThen (tnLookupByIndex t i) (\<lambda>v. Ok (viewNode r v))"

text \<open>\<open>LookupByNode\<close>: maps take a string, lists an integer.\<close>

definition lookupByNode :: "bool \<Rightarrow> tnode \<Rightarrow> node \<Rightarrow> node res" where
  "lookupByNode r t k =
     (case nodeKind (viewNode r t) of
        KMap \<Rightarrow> andThen (asString k) (lookupByString (viewNode r t))
      | KList \<Rightarrow> andThen (asInt k) (lookupByIndex r t)
      | _ \<Rightarrow> Fail (ErrWrongKind ''LookupByNode''))"

text \<open>A path segment is a value of another package, read by its methods \<open>String\<close> and \<open>Index\<close>.\<close>

record 'seg segOps =
  segString :: "'seg \<Rightarrow> string"
  segIndex :: "'seg \<Rightarrow> int res"

definition lookupBySegment :: "'seg segOps \<Rightarrow> bool \<Rightarrow> tnode \<Rightarrow> 'seg \<Rightarrow> node res" where
  "lookupBySegment S r t seg =
     (case nodeKind (viewNode r t) of
        KMap \<Rightarrow> lookupByString (viewNode r t) (segString S seg)
      | KList \<Rightarrow>
          (case segIndex S seg of
             Ok i \<Rightarrow> lookupByIndex r t i
           | Fail err \<Rightarrow> Fail (ErrInvalidSegmentForList err)
           | Panic m \<Rightarrow> Panic m)
      | _ \<Rightarrow> Fail (ErrWrongKind ''LookupBySegment''))"

section \<open>The loops see the entries\<close>

lemma viewMaybe_Some [simp]: "viewMaybe r (Some t) = viewNode r t"
  by (simp add: viewMaybe_def viewNode_def)

text \<open>The contract of an iterator: while it is not done, \<open>Next\<close> gives the first of the entries that are left.  A loop
  that follows \<open>Done\<close> and \<open>Next\<close> then runs its body over all of them.\<close>

locale iterator =
  fixes isDone :: "'it \<Rightarrow> bool"
    and getNext :: "'it \<Rightarrow> ('e \<times> 'it) res"
    and ok :: "'it \<Rightarrow> bool"
    and remaining :: "'it \<Rightarrow> 'e list"
    and loop :: "('e \<Rightarrow> 's \<Rightarrow> 's res) \<Rightarrow> 'it \<Rightarrow> 's \<Rightarrow> 's res"
  assumes loop_step: "loop f it s =
      (if isDone it then Ok s
       else case getNext it of Ok (e, it') \<Rightarrow> andThen (f e s) (loop f it') | Fail err \<Rightarrow> Fail err | Panic m \<Rightarrow> Panic m)"
    and done_left: "ok it \<Longrightarrow> isDone it \<longleftrightarrow> remaining it = []"
    and next_left: "ok it \<Longrightarrow> remaining it = e # es \<Longrightarrow> \<exists>it'. getNext it = Ok (e, it') \<and> ok it' \<and> remaining it' = es"
    and overread: "isDone it \<Longrightarrow> getNext it = Fail ErrIteratorOverread"
begin

lemma loop_left: "ok it \<Longrightarrow> loop f it s = forEach f (remaining it) s"
proof (induction "remaining it" arbitrary: it s)
  case Nil
  then show ?case by (simp add: loop_step done_left)
next
  case (Cons e es)
  then obtain it' where it': "getNext it = Ok (e, it')" "ok it'" "remaining it' = es" using next_left by metis
  from Cons.hyps(2) [symmetric] it' Cons.hyps(1) [of it'] Cons.prems show ?case
    by (simp add: loop_step [of f it] done_left cong: andThen_cong)
qed

lemma next_not_left: "ok it \<Longrightarrow> remaining it = [] \<Longrightarrow> getNext it = Fail ErrIteratorOverread"
  by (simp add: overread done_left)

end

fun mapItr_ok :: "mapItr \<Rightarrow> bool" where
  "mapItr_ok (StructItr _ ty fs _) \<longleftrightarrow> length fs = length (fieldsOf ty)"
| "mapItr_ok (UnionItr _ ty tag _ _) \<longleftrightarrow> 1 \<le> tag \<and> tag \<le> length (membersOf ty)"

fun mapItr_entries :: "mapItr \<Rightarrow> (string \<times> node) list" where
  "mapItr_entries (StructItr r ty fs i) = drop i (zip (fieldNames ty) (map (viewMaybe r) fs))"
| "mapItr_entries (UnionItr r ty tag t d) = (if d then [] else [(viewKeys r ty ! (tag - 1), viewNode r t)])"

fun listItr_entries :: "listItr \<Rightarrow> (nat \<times> node) list" where
  "listItr_entries (ListItr r ts i) = map (\<lambda>j. (j, viewNode r (ts ! j))) [i..<length ts]"

lemma drop_Cons_nth: "drop i xs = y # ys \<Longrightarrow> i < length xs \<and> xs ! i = y \<and> drop (Suc i) xs = ys"
  by (metis Cons_nth_drop_Suc drop_eq_Nil leI list.discI list.inject)

interpretation map_itr: iterator mapItr_Done mapItr_Next mapItr_ok mapItr_entries mapLoop
proof
  fix it :: mapItr and e es
  assume "mapItr_ok it" "mapItr_entries it = e # es"
  then show "\<exists>it'. mapItr_Next it = Ok (e, it') \<and> mapItr_ok it' \<and> mapItr_entries it' = es"
    by (cases it) (auto dest!: drop_Cons_nth split: if_splits)
next
  fix it :: mapItr
  show "mapItr_Done it \<longleftrightarrow> mapItr_entries it = []" if "mapItr_ok it" using that by (cases it) simp_all
  show "mapItr_Done it \<Longrightarrow> mapItr_Next it = Fail ErrIteratorOverread"
    by (cases it) simp_all
qed (rule mapLoop.simps)

interpretation list_itr: iterator listItr_Done listItr_Next "\<lambda>_. True" listItr_entries listLoop
proof
  fix it :: listItr and e es
  assume "listItr_entries it = e # es"
  then show "\<exists>it'. listItr_Next it = Ok (e, it') \<and> True \<and> listItr_entries it' = es"
  proof (cases it)
    case (ListItr r ts i)
    with \<open>listItr_entries it = e # es\<close> have "i < length ts" by (cases "i < length ts") auto
    with ListItr \<open>listItr_entries it = e # es\<close> show ?thesis by (auto simp: upt_conv_Cons)
  qed
next
  fix it :: listItr
  show "listItr_Done it \<longleftrightarrow> listItr_entries it = []" by (cases it) auto
  show "listItr_Done it \<Longrightarrow> listItr_Next it = Fail ErrIteratorOverread" by (cases it) simp
qed (rule listLoop.simps)

lemma mapLoop_struct:
  "length fs = length (fieldsOf ty) \<Longrightarrow>
   mapLoop f (StructItr r ty fs 0) s = forEach f (zip (fieldNames ty) (map (viewMaybe r) fs)) s"
  using map_itr.loop_left [of "StructItr r ty fs 0"] by simp

lemma mapLoop_union:
  "1 \<le> tag \<Longrightarrow> tag \<le> length (membersOf ty) \<Longrightarrow>
   mapLoop f (UnionItr r ty tag t False) s = forEach f [(viewKeys r ty ! (tag - 1), viewNode r t)] s"
  using map_itr.loop_left [of "UnionItr r ty tag t False"] by simp

lemma forEach_map: "forEach f (map g xs) s = forEach (\<lambda>x. f (g x)) xs s"
  by (simp add: forEach_runAll comp_def)

lemma listLoop_list: "listLoop (\<lambda>e. f (snd e)) (ListItr r ts 0) s = forEach f (map (viewNode r) ts) s"
proof -
  have "map (viewNode r) ts = map snd (listItr_entries (ListItr r ts 0))"
    by (auto intro: nth_equalityI)
  then show ?thesis by (simp add: list_itr.loop_left [OF TrueI] forEach_map)
qed

text \<open>What the map iterator of a view goes through, and that there is one exactly for maps.\<close>

lemma viewMaybe_fun: "viewMaybe True = reprMaybe" "viewMaybe False = ofMaybe"
  by (simp_all add: viewMaybe_def fun_eq_iff)

lemma reprMapIterator_loop:
  "tnWf t \<Longrightarrow> (case reprMapIterator t of
     Some it \<Rightarrow> reprKind t = KMap \<and> mapLoop f it s = forEach f (reprEntries t) s
   | None \<Rightarrow> reprKind t \<noteq> KMap)"
proof (induction t)
  case (TnStruct ty fs)
  then show ?case by (simp add: mapLoop_struct viewMaybe_fun)
next
  case (TnUnion ty tag t)
  moreover have "tag \<noteq> 2 \<Longrightarrow> tag = 1" if "ty = TyChild"
    using TnUnion.prems that by (auto simp: membersOf.simps go_Child_def)
  moreover have "tag = 2 \<Longrightarrow> reprKind t = KMap" if "ty = TyChild"
    using TnUnion.prems that by (cases t) (auto simp: membersOf.simps go_Child_def split: tydecl.splits)
  ultimately show ?case by (auto simp: mapLoop_union viewKeys_def viewNode_def split: option.splits)
qed auto

lemma mapIterator_loop:
  assumes "tnWf t"
  shows "case mapIterator r t of
     Some it \<Rightarrow> nodeKind (viewNode r t) = KMap \<and> mapLoop f it s = forEach f (mapEntries (viewNode r t)) s
   | None \<Rightarrow> nodeKind (viewNode r t) \<noteq> KMap"
proof (cases r)
  case True
  with reprMapIterator_loop [OF assms, of f s] show ?thesis
    by (cases t) (auto simp: mapIterator_def viewNode_def split: option.splits)
next
  case False
  with assms show ?thesis
    by (cases t) (auto simp: mapIterator_def viewNode_def viewMaybe_fun viewKeys_def mapLoop_struct mapLoop_union)
qed

lemma listIterator_loop:
  "case listIterator r t of
     Some it \<Rightarrow> nodeKind (viewNode r t) = KList \<and> listLoop (\<lambda>e. f (snd e)) it s = forEach f (listEntries (viewNode r t)) s
   | None \<Rightarrow> nodeKind (viewNode r t) \<noteq> KList"
  by (cases t) (auto simp: viewNode_def listLoop_list viewNode_def [abs_def] cong: map_cong)

text \<open>C16: Iteration terminates and is complete: the loop with which \<open>AssignNode\<close> reads a generated node, type-level or
  representation view, visits exactly the entries of the node in their order, whatever its body does; the
  iterator is nil exactly when the node is of another kind.\<close>

theorem iteration_sees_entries:
  assumes "tnWf t"
  shows "(case mapIterator r t of
       Some it \<Rightarrow> nodeKind (viewNode r t) = KMap \<and> mapLoop f it s = forEach f (mapEntries (viewNode r t)) s
     | None \<Rightarrow> nodeKind (viewNode r t) \<noteq> KMap) \<and>
    (case listIterator r t of
       Some it \<Rightarrow> nodeKind (viewNode r t) = KList \<and> listLoop (\<lambda>e. g (snd e)) it s = forEach g (listEntries (viewNode r t)) s
     | None \<Rightarrow> nodeKind (viewNode r t) \<noteq> KList)"
  by (rule conjI [OF mapIterator_loop [OF assms] listIterator_loop])

theorem iteration_sees_entries_witness:
  "mapLoop (\<lambda>e ks. Ok (ks @ [fst e])) (StructItr True TyTrieExtensionNode
      [Some (TnBytes TyBytes [1]), Some (TnLink TyLink (CidLink [2]))] 0) [] =
    Ok [''PartialPath'', ''Child'']"
proof -
  let ?t = "TnStruct TyTrieExtensionNode [Some (TnBytes TyBytes [1]), Some (TnLink TyLink (CidLink [2]))]"
  have "tnWf ?t" by (simp add: fieldsOf.simps go_TrieExtensionNode_def goField_def)
  from iteration_sees_entries [OF this, of True "\<lambda>e ks. Ok (ks @ [fst e])" "[]"] show ?thesis
    by (simp add: mapIterator_def viewNode_def fieldNames_def fieldsOf.simps go_TrieExtensionNode_def goField_def)
qed

section \<open>Lookups agree with iteration\<close>

lemma in_zip_idxOf:
  assumes "distinct ks" "length vs = length ks"
  shows "(k, v) \<in> set (zip ks vs) \<longleftrightarrow> (\<exists>i. idxOf ks k = Some i \<and> v = vs ! i)"
proof
  assume "(k, v) \<in> set (zip ks vs)"
  then obtain i where "i < length ks" "k = ks ! i" "v = vs ! i" using assms(2) by (auto simp: in_set_zip)
  then show "\<exists>i. idxOf ks k = Some i \<and> v = vs ! i" using idxOf_nth [OF assms(1)] by auto
next
  assume "\<exists>i. idxOf ks k = Some i \<and> v = vs ! i"
  then obtain i where "idxOf ks k = Some i" "v = vs ! i" by blast
  then show "(k, v) \<in> set (zip ks vs)" using idxOf_SomeD assms(2) by (fastforce simp: in_set_zip)
qed

lemma idxOf_at:
  "distinct ks \<Longrightarrow> n < length ks \<Longrightarrow> idxOf ks k = Some n \<longleftrightarrow> k = ks ! n"
  using idxOf_SomeD idxOf_nth by metis

lemma length_reprKeys: "ty \<noteq> TyChild \<Longrightarrow> length (reprKeys ty) = length (membersOf ty)"
  by (cases ty) (simp_all add: reprKeys_def membersOf.simps go_defs)

lemma lookup_union_key:
  assumes "distinct ks" "1 \<le> tag" "tag \<le> length ks"
  shows "(case idxOf ks k of None \<Rightarrow> Fail (ErrNoSuchField k) | Some i \<Rightarrow> if tag \<noteq> Suc i then Fail (ErrNotExists k) else Ok x) = Ok v
    \<longleftrightarrow> k = ks ! (tag - 1) \<and> v = x"
proof -
  have "idxOf ks k = Some (tag - 1) \<longleftrightarrow> k = ks ! (tag - 1)" using assms by (intro idxOf_at) auto
  then show ?thesis using assms(2) by (cases "idxOf ks k") auto
qed

lemma reprLookup_entry:
  "tnWf t \<Longrightarrow> reprLookupByString t k = Ok v \<longleftrightarrow> (k, v) \<in> set (reprEntries t)"
proof (induction t)
  case (TnStruct ty fs)
  then show ?case by (auto simp: in_zip_idxOf dest: idxOf_SomeD split: option.splits)
next
  case (TnUnion ty tag t)
  show ?case
  proof (cases "ty = TyChild")
    case True
    with TnUnion show ?thesis by auto
  next
    case False
    have "distinct (reprKeys ty)" by (simp add: reprKeys_def)
    then have "?thesis \<longleftrightarrow> (k = reprKeys ty ! (tag - 1) \<and> v = representation t \<longleftrightarrow>
        (k, v) \<in> set [(reprKeys ty ! (tag - 1), representation t)])"
      using TnUnion.prems length_reprKeys [OF False] False by (simp add: lookup_union_key)
    then show ?thesis by simp
  qed
qed auto

lemma tnLookup_entry:
  assumes "tnWf t"
  shows "lookupByString (NTyped t) k = Ok v \<longleftrightarrow> (k, v) \<in> set (mapEntries (NTyped t))"
proof (cases t)
  case (TnStruct ty fs)
  with assms show ?thesis by (auto simp: in_zip_idxOf dest: idxOf_SomeD split: option.splits)
next
  case (TnUnion ty tag t')
  have "distinct (memberNames ty)" "length (memberNames ty) = length (membersOf ty)" by (simp_all add: memberNames_def)
  then have "?thesis \<longleftrightarrow> (k = memberNames ty ! (tag - 1) \<and> v = NTyped t' \<longleftrightarrow>
      (k, v) \<in> set [(memberNames ty ! (tag - 1), NTyped t')])"
    using assms TnUnion by (simp add: lookup_union_key)
  then show ?thesis by simp
qed auto

lemma view_lookup_entry:
  assumes "tnWf t"
  shows "lookupByString (viewNode r t) k = Ok v \<longleftrightarrow> (k, v) \<in> set (mapEntries (viewNode r t))"
proof (cases r)
  case True
  with reprLookup_entry [OF assms] show ?thesis by (cases t) (auto simp: viewNode_def)
next
  case False
  with tnLookup_entry [OF assms] show ?thesis by (simp add: viewNode_def)
qed

text \<open>C24: Looking up a key and iterating agree: on a generated node, type-level or representation view, a lookup
  returns a value exactly when the pair is one of the entries that iteration yields, and a lookup by index
  returns exactly the elements.\<close>

theorem lookup_iff_entry:
  assumes "tnWf t"
  shows "(lookupByString (viewNode r t) k = Ok v \<longleftrightarrow> (k, v) \<in> set (mapEntries (viewNode r t))) \<and>
    (lookupByIndex r t i = Ok v \<longleftrightarrow>
      0 \<le> i \<and> nat i < length (listEntries (viewNode r t)) \<and> v = listEntries (viewNode r t) ! nat i)"
proof
  show "lookupByString (viewNode r t) k = Ok v \<longleftrightarrow> (k, v) \<in> set (mapEntries (viewNode r t))"
    by (rule view_lookup_entry [OF assms])
  show "lookupByIndex r t i = Ok v \<longleftrightarrow>
      0 \<le> i \<and> nat i < length (listEntries (viewNode r t)) \<and> v = listEntries (viewNode r t) ! nat i"
    by (cases t) (auto simp: lookupByIndex_def viewNode_def)
qed

theorem lookup_iff_entry_witness:
  "lookupByString (NTyped (TnUnion TyChild 1 (TnLink TyLink (CidLink [2])))) ''Link'' = Ok (NTyped (TnLink TyLink (CidLink [2])))"
proof -
  have "tnWf (TnUnion TyChild 1 (TnLink TyLink (CidLink [2])))" by (simp add: membersOf.simps go_Child_def)
  from lookup_iff_entry [OF this, of False "''Link''" "NTyped (TnLink TyLink (CidLink [2]))" 0] show ?thesis
    by (simp add: viewNode_def memberNames_def membersOf.simps go_Child_def)
qed

text \<open>An index below zero is not rejected: it reaches the slice.\<close>

lemma negative_index_panics: "i < 0 \<Longrightarrow> lookupByIndex r (TnList ty ts) i = Panic ''index out of range''"
  by (simp add: lookupByIndex_def)

text \<open>The lookups by node and by segment return what the others do.\<close>

lemma lookupByNode_entry:
  assumes "nodeKind (viewNode r t) = KMap" "tnWf t"
  shows "lookupByNode r t (NString k) = Ok v \<longleftrightarrow> (k, v) \<in> set (mapEntries (viewNode r t))"
    and "segString S seg = k \<Longrightarrow> lookupBySegment S r t seg = Ok v \<longleftrightarrow> (k, v) \<in> set (mapEntries (viewNode r t))"
  using assms view_lookup_entry [of t r k v] by (simp_all add: lookupByNode_def lookupBySegment_def)

end
