(* ===== verification/Native_Access.thy ===== *)
theory Native_Access
  imports Node_Access Assembler
begin

text \<open>
  The Go-native access to generated values, beside the node interface: \<open>Maybe\<close> values, field accessors, the typed lookups
  and iterators of lists, the member of a union, the constructors and readers of scalars, and the prototypes that
  assemblers give for keys and values.  The lemmas relate each to the node interface.
\<close>

section \<open>Maybe values\<close>

record maybeVal =
  mv_m :: maybe
  mv_v :: "tnode option"

definition maybe_IsNull :: "maybeVal \<Rightarrow> bool" where
  "maybe_IsNull x \<longleftrightarrow> mv_m x = Maybe_Null"

definition maybe_IsAbsent :: "maybeVal \<Rightarrow> bool" where
  "maybe_IsAbsent x \<longleftrightarrow> mv_m x = Maybe_Absent"

definition maybe_Exists :: "maybeVal \<Rightarrow> bool" where
  "maybe_Exists x \<longleftrightarrow> mv_m x = Maybe_Value"

definition maybe_AsNode :: "maybeVal \<Rightarrow> node res" where
  "maybe_AsNode x =
     (case mv_m x of
        Maybe_Absent \<Rightarrow> Ok NAbsent
      | Maybe_Null \<Rightarrow> Ok NNull
      | Maybe_Value \<Rightarrow> (case mv_v x of Some t \<Rightarrow> Ok (NTyped t) | None \<Rightarrow> Panic ''nil node'')
      | _ \<Rightarrow> Panic ''unreachable'')"

definition maybe_Must :: "maybeVal \<Rightarrow> tnode option res" where
  "maybe_Must x = (if \<not> maybe_Exists x then Panic ''unbox of a maybe rejected'' else Ok (mv_v x))"

text \<open>A nullable field of a built struct, as the \<open>Maybe\<close> that it is stored in.\<close>

definition fieldMaybe :: "tnode option \<Rightarrow> maybeVal" where
  "fieldMaybe x = \<lparr>mv_m = (if x = None then Maybe_Null else Maybe_Value), mv_v = x\<rparr>"

lemma fieldMaybe_AsNode: "maybe_AsNode (fieldMaybe x) = Ok (ofMaybe x)"
  by (cases x) (simp_all add: maybe_AsNode_def fieldMaybe_def)

lemma maybe_exactly_one:
  "mv_m x \<in> {Maybe_Absent, Maybe_Null, Maybe_Value} \<Longrightarrow>
     (maybe_IsNull x \<longleftrightarrow> \<not> maybe_IsAbsent x \<and> \<not> maybe_Exists x) \<and> \<not> (maybe_IsAbsent x \<and> maybe_Exists x)"
  by (auto simp: maybe_IsNull_def maybe_IsAbsent_def maybe_Exists_def)

section \<open>Fields and members\<close>

datatype fieldVal = FPlain tnode | FMaybe maybeVal

text \<open>\<open>n.FieldX()\<close>: a nullable field is returned as its \<open>Maybe\<close>.  There is no accessor for other names.\<close>

definition fieldAccessor :: "tyname \<Rightarrow> tnode option list \<Rightarrow> string \<Rightarrow> fieldVal option" where
  "fieldAccessor ty fs k =
     (case idxOf (fieldNames ty) k of
        None \<Rightarrow> None
      | Some i \<Rightarrow>
          (if fnullable (fieldsOf ty ! i) then Some (FMaybe (fieldMaybe (fs ! i)))
           else map_option FPlain (fs ! i)))"

fun fieldVal_AsNode :: "fieldVal \<Rightarrow> node res" where
  "fieldVal_AsNode (FPlain t) = Ok (NTyped t)"
| "fieldVal_AsNode (FMaybe x) = maybe_AsNode x"

lemma fieldAccessor_lookup:
  assumes "tnWf (TnStruct ty fs)"
  shows "(case fieldAccessor ty fs k of
      Some x \<Rightarrow> fieldVal_AsNode x = lookupByString (NTyped (TnStruct ty fs)) k
    | None \<Rightarrow> lookupByString (NTyped (TnStruct ty fs)) k = Fail (ErrNoSuchField k))"
proof (cases "idxOf (fieldNames ty) k")
  case (Some i)
  then have "i < length fs" using idxOf_SomeD [OF Some] assms by simp
  moreover have "fs ! i \<noteq> None" if "\<not> fnullable (fieldsOf ty ! i)"
    using that assms \<open>i < length fs\<close> by (cases "fs ! i") (auto simp: list_all_length)
  ultimately show ?thesis using Some by (auto simp: fieldAccessor_def fieldMaybe_AsNode)
qed (simp add: fieldAccessor_def)

fun asInterface :: "tnode \<Rightarrow> tnode res" where
  "asInterface (TnUnion ty tag t) =
     (if 1 \<le> tag \<and> tag \<le> length (membersOf ty) then Ok t
      else Panic ''invalid union state; how did you create this object?'')"
| "asInterface _ = Panic ''no such method''"

lemma asInterface_lookup:
  "tnWf (TnUnion ty tag t) \<Longrightarrow> asInterface (TnUnion ty tag t) = Ok t \<and>
     lookupByString (NTyped (TnUnion ty tag t)) (memberNames ty ! (tag - 1)) = Ok (NTyped t)"
  using tnLookup_entry [of "TnUnion ty tag t" "memberNames ty ! (tag - 1)" "NTyped t"] by simp

section \<open>Lists\<close>

text \<open>\<open>Lookup\<close> and \<open>LookupMaybe\<close> return nil past the end; a negative index reaches the slice.\<close>

definition listLookup :: "tnode list \<Rightarrow> int \<Rightarrow> tnode option res" where
  "listLookup ts i =
     (if int (length ts) \<le> i then Ok None
      else if i < 0 then Panic ''index out of range''
      else Ok (Some (ts ! nat i)))"

definition listLookupMaybe :: "tnode list \<Rightarrow> int \<Rightarrow> maybeVal option res" where
  "listLookupMaybe ts i =
     (if int (length ts) \<le> i then Ok None
      else if i < 0 then Panic ''index out of range''
      else Ok (Some \<lparr>mv_m = Maybe_Value, mv_v = Some (ts ! nat i)\<rparr>))"

lemma listLookup_index:
  "tnLookupByIndex (TnList ty ts) i =
     andThen (listLookup ts i) (\<lambda>r. case r of Some t \<Rightarrow> Ok t | None \<Rightarrow> Fail (ErrIndexNotExists i))"
  by (simp add: listLookup_def)

text \<open>The typed iterator has no error: past the end it returns the index -1 and nil.\<close>

fun typedItr_Next :: "tnode list \<times> nat \<Rightarrow> (int \<times> tnode option) \<times> (tnode list \<times> nat)" where
  "typedItr_Next (ts, i) =
     (if length ts \<le> i then ((-1, None), (ts, i)) else ((int i, Some (ts ! i)), (ts, Suc i)))"

fun typedItr_Done :: "tnode list \<times> nat \<Rightarrow> bool" where
  "typedItr_Done (ts, i) = (length ts \<le> i)"

lemma typedItr_listItr:
  "listItr_Next (ListItr False ts i) =
     (if typedItr_Done (ts, i) then Fail ErrIteratorOverread
      else case typedItr_Next (ts, i) of ((_, Some t), (ts', j)) \<Rightarrow> Ok ((i, NTyped t), ListItr False ts' j) | _ \<Rightarrow> Panic '''')"
  by (simp add: viewMaybe_def)

section \<open>Scalars\<close>

definition fromBytes :: "tyname \<Rightarrow> bytes \<Rightarrow> tnode" where
  "fromBytes ty b = TnBytes ty b"

definition fromString :: "string \<Rightarrow> tnode" where
  "fromString s = TnString TyString s"

definition fromLink :: "link \<Rightarrow> tnode" where
  "fromLink l = TnLink TyLink l"

definition fromBool :: "bool \<Rightarrow> tnode" where
  "fromBool b = TnBool TyBool b"

lemma from_assign:
  "typeDecl ty = DBytes \<Longrightarrow> assignBytes ty b = Ok (Some (fromBytes ty b))"
  "assignString TyString s = Ok (Some (fromString s))" "assignLink TyLink l = Ok (Some (fromLink l))"
  "assignBool TyBool x = Ok (Some (fromBool x))"
  by (simp_all add: assignBytes_def assignString_def assignLink_def assignBool_def fromBytes_def fromString_def
      fromLink_def fromBool_def)

section \<open>Prototypes\<close>

text \<open>The prototype of the value under a key: union assemblers know it, struct assemblers panic.\<close>

definition valuePrototype :: "tyname \<Rightarrow> string \<Rightarrow> tyname option res" where
  "valuePrototype ty k =
     (case typeDecl ty of
        DStruct _ \<Rightarrow> Panic ''todo structbuilder mapassembler valueprototype''
      | DUnion ms \<Rightarrow> Ok (map_of ms k)
      | DList e \<Rightarrow> Ok (Some e)
      | _ \<Rightarrow> Panic ''no such method'')"

lemma valuePrototype_member:
  assumes "typeDecl ty = DUnion ms" "ua_key (newUnionAsm ty False) k = Ok ua"
  shows "valuePrototype ty k = Ok (Some (snd (membersOf ty ! (ua_ca ua - 1))))"
proof -
  obtain i where i: "idxOf (memberNames ty) k = Some i" "ua_ca ua = Suc i"
    using assms(2) by (auto simp: ua_key_eq ua_ready_def newUnionAsm_def split: option.splits)
  have ms: "membersOf ty = ms" by (rule membersOf_union [OF assms(1)])
  with idxOf_SomeD [OF i(1)] have "i < length ms" "ms ! i = (k, snd (ms ! i))"
    by (auto simp: memberNames_def prod_eq_iff)
  then have "map_of ms k = Some (snd (ms ! i))"
    using distinct_members [of ty] ms by (metis map_of_is_SomeI nth_mem)
  with assms(1) i(2) ms show ?thesis by (simp add: valuePrototype_def)
qed

end
