(* ===== verification/Repr_Machine.thy ===== *)
theory Repr_Machine
  imports Assembler
begin

text \<open>
  The representation assemblers of structs and lists, method by method.  They have types, key assemblers and serial
  field names of their own; the state they keep has the layout of the type-level assemblers.  That the two machines
  agree is proved here, not presumed: it needs, among others, that every serial name is the name of its field.
\<close>

section \<open>Serial field names\<close>

definition serial_AccessElement :: "string list" where
  "serial_AccessElement =
    [''Address'', ''StorageKeys'']"

definition serial_Account :: "string list" where
  "serial_Account =
    [''Nonce'', ''Balance'', ''StorageRootCID'', ''CodeCID'']"

definition serial_Block :: "string list" where
  "serial_Block =
    [''Header'', ''Transactions'', ''Receipts'']"

definition serial_Frame :: "string list" where
  "serial_Frame =
    [''Op'', ''From'', ''To'', ''Input'', ''Output'', ''Gas'', ''Cost'', ''Value'']"

definition serial_Header :: "string list" where
  "serial_Header =
    [''ParentCID'', ''UnclesCID'', ''Coinbase'', ''StateRootCID'', ''TxRootCID'', ''RctRootCID'', ''Bloom'',
     ''Difficulty'', ''Number'', ''GasLimit'', ''GasUsed'', ''Time'', ''Extra'', ''MixDigest'', ''Nonce'',
     ''BaseFee'']"

definition serial_Log :: "string list" where
  "serial_Log =
    [''Address'', ''Topics'', ''Data'']"

definition serial_Receipt :: "string list" where
  "serial_Receipt =
    [''TxType'', ''PostState'', ''Status'', ''CumulativeGasUsed'', ''Bloom'', ''Logs'', ''LogRootCID'']"

definition serial_Transaction :: "string list" where
  "serial_Transaction =
    [''TxType'', ''ChainID'', ''AccountNonce'', ''GasPrice'', ''GasTipCap'', ''GasFeeCap'', ''GasLimit'',
     ''Recipient'', ''Amount'', ''Data'', ''AccessList'', ''V'', ''R'', ''S'']"

definition serial_TrieBranchNode :: "string list" where
  "serial_TrieBranchNode =
    [''Child0'', ''Child1'', ''Child2'', ''Child3'', ''Child4'', ''Child5'', ''Child6'', ''Child7'',
     ''Child8'', ''Child9'', ''ChildA'', ''ChildB'', ''ChildC'', ''ChildD'', ''ChildE'', ''ChildF'', ''Value'']"

definition serial_TrieExtensionNode :: "string list" where
  "serial_TrieExtensionNode =
    [''PartialPath'', ''Child'']"

definition serial_TrieLeafNode :: "string list" where
  "serial_TrieLeafNode =
    [''PartialPath'', ''Value'']"

definition serial_TxTrace :: "string list" where
  "serial_TxTrace =
    [''TxCIDs'', ''StateRootCID'', ''Result'', ''Frames'', ''Gas'', ''Failed'']"

fun serialNames :: "tyname \<Rightarrow> string list" where
  "serialNames TyAccessElement = serial_AccessElement"
| "serialNames TyAccount = serial_Account"
| "serialNames TyBlock = serial_Block"
| "serialNames TyFrame = serial_Frame"
| "serialNames TyHeader = serial_Header"
| "serialNames TyLog = serial_Log"
| "serialNames TyReceipt = serial_Receipt"
| "serialNames TyTransaction = serial_Transaction"
| "serialNames TyTrieBranchNode = serial_TrieBranchNode"
| "serialNames TyTrieExtensionNode = serial_TrieExtensionNode"
| "serialNames TyTrieLeafNode = serial_TrieLeafNode"
| "serialNames TyTxTrace = serial_TxTrace"
| "serialNames _ = []"

lemmas serial_defs = serial_AccessElement_def serial_Account_def serial_Block_def serial_Frame_def serial_Header_def serial_Log_def
  serial_Receipt_def serial_Transaction_def serial_TrieBranchNode_def serial_TrieExtensionNode_def
  serial_TrieLeafNode_def serial_TxTrace_def

section \<open>Structs\<close>

text \<open>\<open>valueFinishTidy\<close>: a nullable field is read from its own state word, the others from the shared one, which is cleared.\<close>

definition rs_valueFinishTidy :: "'v gsasm \<Rightarrow> 'v gsasm option" where
  "rs_valueFinishTidy ma =
     (if fnullable (fieldsOf (sa_ty ma) ! sa_f ma)
      then (if sa_m ma ! sa_f ma = Maybe_Null \<or> sa_m ma ! sa_f ma = Maybe_Value
            then Some (ma\<lparr>sa_state := maState_initial\<rparr>) else None)
      else (if sa_cm ma = Maybe_Value
            then Some (ma\<lparr>sa_cm := Maybe_Absent, sa_state := maState_initial\<rparr>) else None))"

text \<open>The state switch of \<open>AssembleEntry\<close>, \<open>AssembleKey\<close> and \<open>Finish\<close>.\<close>

definition rs_carryOn :: "'v gsasm \<Rightarrow> 'v gsasm res" where
  "rs_carryOn ma =
     (case sa_state ma of
        maState_initial \<Rightarrow> Ok ma
      | maState_midKey \<Rightarrow> Panic ''invalid state: in the middle of assembling a key''
      | maState_expectValue \<Rightarrow> Panic ''invalid state: expecting start of value assembly''
      | maState_midValue \<Rightarrow>
          (case rs_valueFinishTidy ma of
             None \<Rightarrow> Panic ''invalid state: in the middle of assembling a value''
           | Some ma \<Rightarrow> Ok ma)
      | maState_finished \<Rightarrow> Panic ''invalid state: assembler already finished'')"

definition rs_AssembleKey :: "'v gsasm \<Rightarrow> 'v gsasm res" where
  "rs_AssembleKey ma = andThen (rs_carryOn ma) (\<lambda>ma. Ok (ma\<lparr>sa_state := maState_midKey\<rparr>))"

text \<open>\<open>AssignString\<close> of the key assembler.\<close>

definition rs_AssignString :: "'v gsasm \<Rightarrow> string \<Rightarrow> 'v gsasm res" where
  "rs_AssignString ka k =
     (if sa_state ka \<noteq> maState_midKey then Panic ''misuse: KeyAssembler held beyond its valid lifetime''
      else case idxOf (serialNames (sa_ty ka)) k of
        Some i \<Rightarrow>
          (if sa_s ka AND 2 ^ i \<noteq> 0 then Fail (ErrRepeatedMapKey (serialNames (sa_ty ka) ! i))
           else Ok (ka\<lparr>sa_s := sa_s ka + 2 ^ i, sa_state := maState_expectValue, sa_f := i\<rparr>))
      | None \<Rightarrow> Fail (ErrInvalidKey k))"

text \<open>\<open>ma.ca_X.w = &ma.w.X; ma.ca_X.m = &ma.cm\<close>, and for a nullable field \<open>ma.w.X.m = allowNull\<close>.\<close>

definition rs_handOut :: "'v gsasm \<Rightarrow> 'v gsasm res" where
  "rs_handOut ma =
     (if sa_wnil ma then Panic ''nil pointer dereference''
      else Ok (if fnullable (fieldsOf (sa_ty ma) ! sa_f ma) then ma\<lparr>sa_m := (sa_m ma)[sa_f ma := allowNull]\<rparr> else ma))"

definition rs_AssembleValue :: "'v gsasm \<Rightarrow> 'v gsasm res" where
  "rs_AssembleValue ma =
     (case sa_state ma of
        maState_initial \<Rightarrow> Panic ''invalid state: AssembleValue cannot be called when no key is primed''
      | maState_midKey \<Rightarrow> Panic ''invalid state: in the middle of assembling a key''
      | maState_expectValue \<Rightarrow> rs_handOut (ma\<lparr>sa_state := maState_midValue\<rparr>)
      | maState_midValue \<Rightarrow> Panic ''invalid state: in the middle of assembling another value''
      | maState_finished \<Rightarrow> Panic ''invalid state: assembler already finished'')"

definition rs_AssembleEntry :: "'v gsasm \<Rightarrow> string \<Rightarrow> 'v gsasm res" where
  "rs_AssembleEntry ma k =
     andThen (rs_carryOn ma) (\<lambda>ma.
       case idxOf (serialNames (sa_ty ma)) k of
         Some i \<Rightarrow>
           (if sa_s ma AND 2 ^ i \<noteq> 0 then Fail (ErrRepeatedMapKey (serialNames (sa_ty ma) ! i))
            else rs_handOut (ma\<lparr>sa_s := sa_s ma + 2 ^ i, sa_state := maState_midValue, sa_f := i\<rparr>))
       | None \<Rightarrow> Fail (ErrInvalidKey k))"

text \<open>\<open>Finish\<close> lists the serial names of the missing fields that are not nullable.\<close>

definition rs_Finish :: "'v gsasm \<Rightarrow> 'v gsasm res" where
  "rs_Finish ma =
     andThen (rs_carryOn ma) (\<lambda>ma.
       let n = length (serialNames (sa_ty ma)) in
       if sa_s ma AND mask n \<noteq> mask n then
         Fail (ErrMissingRequiredField (map (\<lambda>i. serialNames (sa_ty ma) ! i)
           (filter (\<lambda>i. sa_s ma AND 2 ^ i = 0 \<and> \<not> fnullable (fieldsOf (sa_ty ma) ! i)) [0..<n])))
       else Ok (ma\<lparr>sa_state := maState_finished\<rparr>))"

text \<open>\<open>na.AssembleKey().AssignNode(k)\<close> and \<open>na.AssembleValue().AssignNode(v)\<close> in the loop of \<open>AssignNode\<close>.\<close>

definition rs_key :: "'v gsasm \<Rightarrow> string \<Rightarrow> 'v gsasm res" where
  "rs_key ma k = andThen (rs_AssembleKey ma) (\<lambda>ka. rs_AssignString ka k)"

definition rs_val :: "'v gsasm \<Rightarrow> (tyname \<Rightarrow> bool \<Rightarrow> 'v option res) \<Rightarrow> 'v gsasm res" where
  "rs_val ma x =
     andThen (rs_AssembleValue ma) (\<lambda>ma.
       andThen (x (ftype (fieldsOf (sa_ty ma) ! sa_f ma)) (fnullable (fieldsOf (sa_ty ma) ! sa_f ma))) (\<lambda>r.
         Ok (storeChild ma r)))"

section \<open>Lists\<close>

definition rl_valueFinishTidy :: "'v glasm \<Rightarrow> 'v glasm option" where
  "rl_valueFinishTidy la =
     (if la_cm la = Maybe_Value then Some (la\<lparr>la_cm := Maybe_Absent, la_state := laState_initial\<rparr>) else None)"

definition rl_carryOn :: "'v glasm \<Rightarrow> 'v glasm res" where
  "rl_carryOn la =
     (case la_state la of
        laState_initial \<Rightarrow> Ok la
      | laState_midValue \<Rightarrow>
          (case rl_valueFinishTidy la of
             None \<Rightarrow> Panic ''invalid state: in the middle of assembling a value''
           | Some la \<Rightarrow> Ok la)
      | laState_finished \<Rightarrow> Panic ''invalid state: assembler already finished'')"

definition rl_AssembleValue :: "'v glasm \<Rightarrow> 'v glasm res" where
  "rl_AssembleValue la = andThen (rl_carryOn la) (\<lambda>la. Ok (la\<lparr>la_state := laState_midValue\<rparr>))"

definition rl_Finish :: "'v glasm \<Rightarrow> 'v glasm res" where
  "rl_Finish la = andThen (rl_carryOn la) (\<lambda>la. Ok (la\<lparr>la_state := laState_finished\<rparr>))"

definition rl_val :: "'v glasm \<Rightarrow> (tyname \<Rightarrow> bool \<Rightarrow> 'v option res) \<Rightarrow> 'v glasm res" where
  "rl_val la x = andThen (rl_AssembleValue la) (\<lambda>la. andThen (x (elemType (la_ty la)) False) (\<lambda>r. Ok (la_store la r)))"

section \<open>Agreement\<close>

lemma serialNames_fields: "serialNames ty = fieldNames ty"
  by (cases ty) (simp_all add: serial_defs fieldNames_def fieldsOf.simps go_defs go_field_defs)

text \<open>The generated representations are the ones that \<open>gen.go\<close> asks for: serial keys and kinds stand for the right members, and
  no field is renamed.\<close>

lemma repr_schema_agreement:
  "zip (reprKeys TyValue) (map snd (membersOf TyValue)) = gen_Value_keyed"
  "zip (reprKeys TyTrieNode) (map snd (membersOf TyTrieNode)) = gen_TrieNode_keyed"
  "zip (map (\<lambda>tag. reprKind (TnUnion TyChild tag t)) [1, 2]) (map snd (membersOf TyChild)) = gen_Child_kinded"
  by (simp_all add: reprKeys_def membersOf.simps go_Value_def go_TrieNode_def go_Child_def gen_Value_keyed_def
      gen_TrieNode_keyed_def gen_Child_kinded_def)

lemma rs_valueFinishTidy_eq: "rs_valueFinishTidy ma = sa_tidy ma"
  by (auto simp: rs_valueFinishTidy_def sa_tidy_def curField_def split: maybe.splits)

lemma rs_carryOn_eq: "rs_carryOn ma = sa_ready ma"
  by (auto simp: rs_carryOn_def sa_ready_def rs_valueFinishTidy_eq split: maState.splits option.splits)

lemma rs_handOut_eq: "rs_handOut ma = sa_child ma"
  by (simp add: rs_handOut_def sa_child_def curField_def)

lemma rs_AssignString_eq: "rs_AssignString ka k = keyAssignString ka k"
  by (auto simp: rs_AssignString_def keyAssignString_def serialNames_fields split: option.splits dest: idxOf_SomeD)

lemma rs_AssembleEntry_eq: "rs_AssembleEntry ma k = assembleEntry ma k"
  unfolding rs_AssembleEntry_def assembleEntry_def rs_carryOn_eq
  by (intro andThen_cong) (auto simp: serialNames_fields rs_handOut_eq split: option.splits dest: idxOf_SomeD)

lemma rs_missing_eq:
  "map (\<lambda>i. serialNames (sa_ty ma) ! i)
     (filter (\<lambda>i. sa_s ma AND 2 ^ i = 0 \<and> \<not> fnullable (fieldsOf (sa_ty ma) ! i)) [0..<length (serialNames (sa_ty ma))]) =
   sa_missing ma"
proof -
  have zip: "zip ns [0..<length ns] = map (\<lambda>i. (ns ! i, i)) [0..<length ns]" for ns :: "string list"
    by (rule nth_equalityI) simp_all
  show ?thesis
    unfolding sa_missing_def serialNames_fields length_fieldNames [symmetric] zip
    by (simp only: filter_map map_map comp_def fst_conv prod.case)
qed

lemma rs_Finish_eq: "rs_Finish ma = sa_finish ma"
  unfolding rs_Finish_def sa_finish_def rs_carryOn_eq Let_def rs_missing_eq by (simp add: serialNames_fields)

lemma rs_key_eq: "rs_key ma k = ma_key ma k"
  by (simp add: rs_key_def ma_key_def rs_AssembleKey_def assembleKey_def rs_carryOn_eq rs_AssignString_eq)

lemma rs_val_eq: "rs_val ma x = ma_val ma x"
proof -
  have "rs_AssembleValue ma = assembleValue ma"
    by (simp add: rs_AssembleValue_def assembleValue_def rs_handOut_eq split: maState.splits)
  then show ?thesis by (simp add: rs_val_def ma_val_def curField_def)
qed

lemma rl_carryOn_eq: "rl_carryOn la = la_ready la"
  by (auto simp: rl_carryOn_def la_ready_def rl_valueFinishTidy_def split: laState.splits)

lemma rl_val_eq: "rl_val la x = la_val la x"
  by (simp add: rl_val_def la_val_def rl_AssembleValue_def la_assembleValue_def rl_carryOn_eq)

lemma rl_Finish_eq: "rl_Finish la = la_finish la"
  by (simp add: rl_Finish_def la_finish_def rl_carryOn_eq)

lemmas repr_machine_eq = rs_key_eq rs_val_eq rs_Finish_eq rs_AssembleEntry_eq rl_val_eq rl_Finish_eq

end
