(* ===== verification/Repr_Assembler.thy ===== *)
theory Repr_Assembler
  imports Representation Machine_Morphism Repr_Machine
begin

text \<open>
  \<open>AssignNode\<close> of the representation assemblers.  The assemblers of structs and lists run the machines of \<open>Repr_Machine\<close>
  over the representation assemblers of their parts; scalars have one assembler for both; \<open>Child\<close> goes by
  the kind of the node; the keyed unions \<open>TrieNode\<close> and \<open>Value\<close> put a value into a member other than the tagged one,
  so that what is assembled need not be a value of the schema.
\<close>

section \<open>What representation assemblers build\<close>

text \<open>A union is kept with its tag and the position, counted from 0, of the member that was written.\<close>

datatype rval =
    RvNode tnode
  | RvStruct tyname "rval option list"
  | RvList tyname "rval list"
  | RvUnion tyname nat nat rval

text \<open>The values that are values of the schema: every union has its data in the tagged member.\<close>

fun placed :: "rval \<Rightarrow> bool" where
  "placed (RvNode _) = True"
| "placed (RvStruct _ fs) = list_all (\<lambda>x. case x of None \<Rightarrow> True | Some v \<Rightarrow> placed v) fs"
| "placed (RvList _ vs) = list_all placed vs"
| "placed (RvUnion _ tag slot v) = (tag = Suc slot \<and> placed v)"

fun valueOf :: "rval \<Rightarrow> tnode" where
  "valueOf (RvNode t) = t"
| "valueOf (RvStruct ty fs) = TnStruct ty (map (\<lambda>x. case x of None \<Rightarrow> None | Some v \<Rightarrow> Some (valueOf v)) fs)"
| "valueOf (RvList ty vs) = TnList ty (map valueOf vs)"
| "valueOf (RvUnion ty tag _ v) = TnUnion ty tag (valueOf v)"

definition rvNode :: "tnode option res \<Rightarrow> rval option res" where
  "rvNode r = andThen r (\<lambda>x. Ok (map_option RvNode x))"

section \<open>\<open>AssignNode\<close>\<close>

text \<open>One entry of a keyed union: the member that is handed out receives the value.\<close>

definition ruPut :: "(nat \<times> rval) guasm \<Rightarrow> string \<Rightarrow> (nat \<Rightarrow> rval option res) \<Rightarrow> (nat \<times> rval) guasm res" where
  "ruPut ua k x =
     andThen (ruKey ua k) (\<lambda>ua. andThen (ruValue ua) (\<lambda>mu.
       andThen (x (fst mu)) (\<lambda>r. Ok (ua_store (snd mu) (map_option (Pair (fst mu)) r)))))"

definition ruDone :: "(nat \<times> rval) guasm \<Rightarrow> rval res" where
  "ruDone ua = andThen (ua_finish ua) (\<lambda>ua.
     case ua_x ua of
       Some (slot, v) \<Rightarrow> Ok (RvUnion (ua_ty ua) (ua_ca ua) slot v)
     | None \<Rightarrow> Panic ''invalid union state; how did you create this object?'')"

definition raStruct :: "rval gsasm \<Rightarrow> rval res" where
  "raStruct st = andThen (rs_Finish st) (\<lambda>st. Ok (RvStruct (sa_ty st) (sa_fields st)))"

definition raList :: "rval glasm \<Rightarrow> rval res" where
  "raList la = andThen (rl_Finish la) (\<lambda>la. Ok (RvList (la_ty la) (la_x la)))"

function reprAssignNode :: "tyname \<Rightarrow> bool \<Rightarrow> bool \<Rightarrow> node \<Rightarrow> rval option res" where
  "reprAssignNode ty nul wnil v =
     (if ty = TyChild then rvNode (childAssignNode v)
      else if isNull v then rvNode (assignNull ty nul)
      else case (case v of NTyped t \<Rightarrow> if tnType t = ty then Some t else None | _ \<Rightarrow> None) of
        Some t \<Rightarrow> Ok (Some (RvNode t))
      | None \<Rightarrow>
        (case typeDecl ty of
           DStruct _ \<Rightarrow>
             (if nodeKind v \<noteq> KMap then Fail (ErrWrongKind ''AssignNode'')
              else andThen
                (forEach (\<lambda>e ma. andThen (rs_key ma (fst e)) (\<lambda>ma.
                    rs_val ma (\<lambda>ty' nul'. reprAssignNode ty' nul' (nul' \<and> ptrMaybe ty') (snd e))))
                  (mapEntries v) (newStructAsm ty wnil))
                (\<lambda>ma. andThen (raStruct ma) (\<lambda>t. Ok (Some t))))
         | DUnion ms \<Rightarrow>
             (if nodeKind v \<noteq> KMap then Fail (ErrWrongKind ''AssignNode'')
              else andThen
                (forEach (\<lambda>e ua. ruPut ua (fst e) (\<lambda>m. reprAssignNode (snd (ms ! m)) False False (snd e)))
                  (mapEntries v) (newUnionAsm ty wnil))
                (\<lambda>ua. andThen (ruDone ua) (\<lambda>t. Ok (Some t))))
         | DList _ \<Rightarrow>
             (if nodeKind v \<noteq> KList then Fail (ErrWrongKind ''AssignNode'')
              else andThen
                (forEach (\<lambda>e la. rl_val la (\<lambda>ty' nul'. reprAssignNode ty' nul' False e))
                  (listEntries v) (newListAsm ty))
                (\<lambda>la. andThen (raList la) (\<lambda>t. Ok (Some t))))
         | _ \<Rightarrow> rvNode (assignNode ty nul wnil v)))"
  by pat_completeness auto
termination
  by (relation "measure (\<lambda>(_, _, _, v). nsize v)")
    (auto intro: nsize_mapEntries nsize_listEntries)

declare reprAssignNode.simps [simp del]

text \<open>The same over the machine of the type-level assemblers, with which the methods agree.\<close>

lemmas reprAssignNode_eq = reprAssignNode.simps [unfolded repr_machine_eq]

section \<open>Types without unions\<close>

text \<open>The representation assembler and the type-level one run the same machine; their values differ only in how they are
  wrapped.\<close>

lemma valueOf_struct: "valueOf (RvStruct ty fs) = TnStruct ty (map (map_option valueOf) fs)"
  by (auto simp: map_option_case intro!: map_cong split: option.splits)

lemma placed_struct: "placed (RvStruct ty fs) \<longleftrightarrow> (\<forall>x \<in> set fs. pred_option placed x)"
  by (auto simp: list_all_iff option.pred_set split: option.splits)

declare valueOf.simps(2) [simp del] placed.simps(2) [simp del]

lemma fields_placed:
  assumes "fieldsAll ty placed st"
  shows "\<forall>x \<in> set (sa_fields st). pred_option placed x"
  using assms by (auto simp: fieldsAll_def sa_fields_def)

lemma raStruct_value:
  assumes "fieldsAll ty placed st"
  shows "mapRes valueOf (raStruct st) = sa_done (mapSa valueOf st) \<and> okAll placed (raStruct st)"
proof (cases "sa_finish st")
  case (Ok st')
  then obtain st1 where "sa_ready st = Ok st1" "st' = st1\<lparr>sa_state := maState_finished\<rparr>"
    by (auto simp: sa_finish_def Let_def split: if_splits)
  with sa_ready_all [of st st1 ty placed] assms have "fieldsAll ty placed st'" by (auto simp: fieldsAll_def)
  moreover from this have "length (sa_w st') = length (fieldsOf (sa_ty st'))" by (simp add: fieldsAll_def)
  ultimately show ?thesis
    using fields_placed [of ty st']
    by (simp add: raStruct_def repr_machine_eq sa_done_def sa_finish_map Ok sa_build_def sa_fields_map valueOf_struct okAll_def placed_struct)
qed (simp_all add: raStruct_def repr_machine_eq sa_done_def sa_finish_map okAll_def)

lemma raList_value:
  assumes "rowsAll ty placed la"
  shows "mapRes valueOf (raList la) = la_done (mapLa valueOf la) \<and> okAll placed (raList la)"
proof (cases "la_finish la")
  case (Ok la')
  then have "la_x la' = la_x la" "la_ty la' = la_ty la" by (auto simp: la_finish_def dest!: la_ready_all)
  with assms Ok show ?thesis by (simp add: raList_def repr_machine_eq la_done_def la_finish_map okAll_def rowsAll_def)
qed (simp_all add: raList_def repr_machine_eq la_done_def la_finish_map okAll_def)

definition sameOutcome :: "rval option res \<Rightarrow> tnode option res \<Rightarrow> bool" where
  "sameOutcome r s \<longleftrightarrow> mapRes (map_option valueOf) r = s \<and> okAll (pred_option placed) r"

lemma sameOutcome_node: "sameOutcome (rvNode r) r"
  by (cases r) (auto simp: sameOutcome_def rvNode_def okAll_def option.map_comp comp_def option.pred_map option.map_ident option.pred_True)

lemma sameOutcome_Some:
  "mapRes valueOf r = s \<and> okAll placed r \<Longrightarrow>
   sameOutcome (andThen r (\<lambda>t. Ok (Some t))) (andThen s (\<lambda>t. Ok (Some t)))"
  by (cases r) (auto simp: sameOutcome_def okAll_def)

lemma sameOutcome_fail: "sameOutcome (Fail e) (Fail e)"
  by (simp add: sameOutcome_def okAll_def)

lemma sameOutcome_then:
  assumes "r' = mapRes h r \<and> okAll I r" "\<And>s. I s \<Longrightarrow> sameOutcome (k s) (k' (h s))"
  shows "sameOutcome (andThen r k) (andThen r' k')"
  using assms by (cases r) (auto simp: sameOutcome_def okAll_def)

lemma sameOutcome_struct:
  assumes "\<And>e fd w. e \<in> set es \<Longrightarrow> fd \<in> set (fieldsOf ty) \<Longrightarrow>
      sameOutcome (x (ftype fd) (fnullable fd) (snd e)) (y (ftype fd) (fnullable fd) (snd e))"
  shows "sameOutcome
    (andThen (forEach (\<lambda>e ma. andThen (ma_key ma (fst e)) (\<lambda>ma. ma_val ma (\<lambda>ty nul. x ty nul (snd e)))) es (newStructAsm ty wnil))
      (\<lambda>ma. andThen (raStruct ma) (\<lambda>t. Ok (Some t))))
    (andThen (forEach (\<lambda>e ma. andThen (ma_key ma (fst e)) (\<lambda>ma. ma_val ma (\<lambda>ty nul. y ty nul (snd e)))) es (newStructAsm ty wnil))
      (\<lambda>ma. andThen (sa_done ma) (\<lambda>t. Ok (Some t))))"
proof (rule sameOutcome_then [where h = "mapSa valueOf" and I = "fieldsAll ty placed"])
  let ?f = "\<lambda>e ma. andThen (ma_key ma (fst e)) (\<lambda>ma. ma_val ma (\<lambda>ty nul. x ty nul (snd e)))"
  let ?g = "\<lambda>e ma. andThen (ma_key ma (fst e)) (\<lambda>ma. ma_val ma (\<lambda>ty nul. y ty nul (snd e)))"
  have "?g e (mapSa valueOf st) = mapRes (mapSa valueOf) (?f e st) \<and> okAll (fieldsAll ty placed) (?f e st)"
    if "e \<in> set es" "fieldsAll ty placed st" for e st
    using that assms by (intro entry_commute) (auto simp: sameOutcome_def)
  from forEach_commute [where I = "fieldsAll ty placed" and h = "mapSa valueOf" and f = ?f and g = ?g and xs = es,
      OF this fieldsAll_new]
  show "forEach ?g es (newStructAsm ty wnil) = mapRes (mapSa valueOf) (forEach ?f es (newStructAsm ty wnil)) \<and>
      okAll (fieldsAll ty placed) (forEach ?f es (newStructAsm ty wnil))" by simp
qed (rule sameOutcome_Some [OF raStruct_value])

lemma sameOutcome_list:
  assumes "\<And>e. e \<in> set es \<Longrightarrow> sameOutcome (x (elemType ty) False e) (y (elemType ty) False e)"
  shows "sameOutcome
    (andThen (forEach (\<lambda>e la. la_val la (\<lambda>ty nul. x ty nul e)) es (newListAsm ty)) (\<lambda>la. andThen (raList la) (\<lambda>t. Ok (Some t))))
    (andThen (forEach (\<lambda>e la. la_val la (\<lambda>ty nul. y ty nul e)) es (newListAsm ty)) (\<lambda>la. andThen (la_done la) (\<lambda>t. Ok (Some t))))"
proof (rule sameOutcome_then [where h = "mapLa valueOf" and I = "rowsAll ty placed"])
  let ?f = "\<lambda>e la. la_val la (\<lambda>ty nul. x ty nul e)" and ?g = "\<lambda>e la. la_val la (\<lambda>ty nul. y ty nul e)"
  have "?g e (mapLa valueOf la) = mapRes (mapLa valueOf) (?f e la) \<and> okAll (rowsAll ty placed) (?f e la)"
    if "e \<in> set es" "rowsAll ty placed la" for e la
    using that assms by (intro la_val_commute) (auto simp: sameOutcome_def)
  from forEach_commute [where I = "rowsAll ty placed" and h = "mapLa valueOf" and f = ?f and g = ?g and xs = es,
      OF this rowsAll_new]
  show "forEach ?g es (newListAsm ty) = mapRes (mapLa valueOf) (forEach ?f es (newListAsm ty)) \<and>
      okAll (rowsAll ty placed) (forEach ?f es (newListAsm ty))" by simp
qed (rule sameOutcome_Some [OF raList_value])

lemma sameOutcome_same: "sameOutcome (Ok (Some (RvNode t))) (Ok (Some t))"
  by (simp add: sameOutcome_def okAll_def)

lemma reprAssignNode_sameOutcome:
  "unionFreeTy ty \<Longrightarrow> sameOutcome (reprAssignNode ty nul wnil v) (assignNode ty nul wnil v)"
proof (induction v arbitrary: ty nul wnil rule: measure_induct_rule [where f = nsize])
  case (less v)
  have noChild: "ty \<noteq> TyChild" using less.prems by (simp add: unionFreeTy_def)
  show ?case
  proof (cases "isNull v \<or> (\<exists>t. v = NTyped t \<and> tnType t = ty)")
    case True
    then show ?thesis
      using noChild sameOutcome_node [of "assignNull ty nul"] sameOutcome_same
      by (auto simp: reprAssignNode_eq [of ty] assignNode.simps [of ty])
  next
    case False
    then have same: "(case v of NTyped t \<Rightarrow> if tnType t = ty then Some t else None | _ \<Rightarrow> None) = None"
      by (cases v) auto
    show ?thesis
    proof (cases "typeDecl ty")
      case (DStruct fds)
      have "sameOutcome (reprAssignNode (ftype fd) (fnullable fd) (fnullable fd \<and> ptrMaybe (ftype fd)) (snd e))
          (assignNode (ftype fd) (fnullable fd) (fnullable fd \<and> ptrMaybe (ftype fd)) (snd e))"
        if "e \<in> set (mapEntries v)" "fd \<in> set (fieldsOf ty)" for e fd
        using that less.IH nsize_mapEntries [of "fst e" "snd e" v] unionFreeTy_field [OF less.prems] by simp
      note st = sameOutcome_struct [where x = "\<lambda>ty nul. reprAssignNode ty nul (nul \<and> ptrMaybe ty)" and
          y = "\<lambda>ty nul. assignNode ty nul (nul \<and> ptrMaybe ty)" and ty = ty and es = "mapEntries v" and wnil = wnil, OF this]
      then show ?thesis
        using False noChild same DStruct sameOutcome_fail
        by (simp add: reprAssignNode_eq [of ty] assignNode.simps [of ty])
    next
      case (DList el)
      have "sameOutcome (reprAssignNode (elemType ty) False False e) (assignNode (elemType ty) False False e)"
        if "e \<in> set (listEntries v)" for e
        using that less.IH nsize_listEntries [of e v] unionFreeTy_elem [OF less.prems DList] DList by (simp add: elemType_def)
      note li = sameOutcome_list [where x = "\<lambda>ty nul. reprAssignNode ty nul False" and
          y = "\<lambda>ty nul. assignNode ty nul False" and ty = ty and es = "listEntries v", OF this]
      then show ?thesis
        using False noChild same DList sameOutcome_fail
        by (simp add: reprAssignNode_eq [of ty] assignNode.simps [of ty])
    next
      case (DUnion ms)
      then show ?thesis using unionFreeTy_members [OF less.prems] less.prems
        by (cases ty) (auto simp: unionFreeTy_def)
    qed (use False noChild same sameOutcome_node [of "assignNode ty nul wnil v"] in
        \<open>simp_all add: reprAssignNode_eq [of ty]\<close>)
  qed
qed

text \<open>C31: For types without unions the representation assemblers, translated method by method from their own code, agree
  with the type-level ones: on every node \<open>AssignNode\<close> fails or panics in the same way, or assembles the same value, with
  nothing misplaced; and \<open>AssembleEntry\<close>, which \<open>AssignNode\<close> does not call, has the same outcome in every state.\<close>

theorem repr_assembler_agrees:
  assumes "unionFreeTy ty"
  shows "mapRes (map_option valueOf) (reprAssignNode ty nul wnil v) = assignNode ty nul wnil v \<and>
    (\<forall>r. reprAssignNode ty nul wnil v = Ok (Some r) \<longrightarrow> placed r) \<and>
    rs_AssembleEntry ma k = assembleEntry ma k"
  using reprAssignNode_sameOutcome [OF assms, of nul wnil v] by (auto simp: sameOutcome_def okAll_def rs_AssembleEntry_eq)

theorem repr_assembler_agrees_witness:
  "mapRes (map_option valueOf) (reprAssignNode TyTrieExtensionNode False False
      (NMap [(''Child'', NLink (CidLink [2])), (''PartialPath'', NBytes [1])])) =
    Ok (Some (TnStruct TyTrieExtensionNode [Some (TnBytes TyBytes [1]), Some (TnLink TyLink (CidLink [2]))]))"
proof -
  let ?v = "NMap [(''Child'', NLink (CidLink [2])), (''PartialPath'', NBytes [1])]"
  have "unionFreeTy TyTrieExtensionNode" by (simp add: unionFreeTy_def)
  note agrees = repr_assembler_agrees [OF this, of False False ?v "newStructAsm TyLog False :: sasm" "''Data''"]
  have "assignNode TyTrieExtensionNode False False ?v =
      Ok (Some (TnStruct TyTrieExtensionNode [Some (TnBytes TyBytes [1]), Some (TnLink TyLink (CidLink [2]))]))"
    by (simp add: sasm_eval del: andThen_eq_Ok)
  with agrees show ?thesis by simp
qed

section \<open>Keyed unions\<close>

lemma ruValue_Ok: "ruValue ua = Ok (m, ua') \<Longrightarrow> m = ua_ca ua \<and> ua_ca ua' = ua_ca ua"
  by (auto simp: ruValue_def split: maState.splits if_splits)

definition slotIsTag :: "(nat \<times> rval) guasm \<Rightarrow> bool" where
  "slotIsTag ua \<longleftrightarrow> (\<forall>m r. ua_x ua = Some (m, r) \<longrightarrow> m = ua_ca ua)"

lemma ruPut_slot: "okAll slotIsTag (ruPut ua k x)"
  by (auto simp: okAll_def ruPut_def slotIsTag_def ua_store_def dest!: ruValue_Ok)

lemma ruDone_unplaced:
  assumes "slotIsTag ua" "ruDone ua = Ok r"
  shows "\<not> placed r"
proof -
  obtain ua1 where "ua_ready ua = Ok ua1" "ua_ca ua1 \<noteq> 0"
    and r: "r = RvUnion (ua_ty ua1) (ua_ca ua1) (fst (the (ua_x ua1))) (snd (the (ua_x ua1)))" "ua_x ua1 \<noteq> None"
    using assms(2) by (auto simp: ruDone_def ua_finish_def split: if_splits option.splits)
  moreover have "ua_x ua1 = ua_x ua" "ua_ca ua1 = ua_ca ua"
    using \<open>ua_ready ua = Ok ua1\<close> by (auto simp: ua_ready_def split: maState.splits if_splits)
  ultimately have "fst (the (ua_x ua1)) = ua_ca ua1" using assms(1) by (auto simp: slotIsTag_def)
  with r(1) show ?thesis by simp
qed

text \<open>C15: The representation assembler of a keyed union builds no value of the schema: what it assembles, unless it copies a
  typed value, has its data in a member other than the tagged one.\<close>

theorem keyed_union_unplaced:
  assumes "ty = TyTrieNode \<or> ty = TyValue" "reprAssignNode ty nul wnil v = Ok (Some r)"
  shows "(\<exists>t. v = NTyped t \<and> r = RvNode t) \<or> \<not> placed r"
proof (cases "\<exists>t. v = NTyped t \<and> tnType t = ty")
  case True
  with assms show ?thesis by (auto simp: reprAssignNode_eq [of ty])
next
  case False
  then have same: "(case v of NTyped t \<Rightarrow> if tnType t = ty then Some t else None | _ \<Rightarrow> None) = None"
    by (cases v) auto
  obtain ms where ms: "typeDecl ty = DUnion ms" "ty \<noteq> TyChild" using assms(1) by auto
  let ?f = "\<lambda>e ua. ruPut ua (fst e) (\<lambda>m. reprAssignNode (snd (ms ! m)) False False (snd e))"
  have "\<not> isNull v" using assms(2) ms(2) by (auto simp: reprAssignNode_eq [of ty] rvNode_def split: if_splits)
  with assms(2) same ms obtain ua where ua: "forEach ?f (mapEntries v) (newUnionAsm ty wnil) = Ok ua" "ruDone ua = Ok r"
    by (auto simp: reprAssignNode_eq [of ty] split: if_splits)
  have "okAll slotIsTag (forEach ?f (mapEntries v) (newUnionAsm ty wnil))"
    by (rule okAll_forEach) (simp_all add: ruPut_slot slotIsTag_def newUnionAsm_def)
  with ua ruDone_unplaced show ?thesis by (auto simp: okAll_def)
qed

lemmas union_eval = ruPut_def ruKey_def ruKeyAssignString_def ua_assembleKey_def ua_ready_def ruValue_def ua_store_def
  newUnionAsm_def reprKeys_def ruDone_def ua_finish_def

lemmas repr_eval = reprAssignNode_eq [of TyTrieNode] reprAssignNode_eq [of TyTrieExtensionNode]
  reprAssignNode_eq [of TyTrieLeafNode] reprAssignNode_eq [of TyBytes] reprAssignNode_eq [of TyLink] rvNode_def
  repr_machine_eq

theorem keyed_union_unplaced_witness:
  "\<exists>r. reprAssignNode TyTrieNode False False
      (NMap [(''branch'', NMap [(''PartialPath'', NBytes [1]), (''Child'', NLink (CidLink [2]))])]) = Ok (Some r) \<and> \<not> placed r"
proof -
  let ?v = "NMap [(''branch'', NMap [(''PartialPath'', NBytes [1]), (''Child'', NLink (CidLink [2]))])]"
  let ?r = "RvUnion TyTrieNode 1 1 (RvStruct TyTrieExtensionNode [Some (RvNode (TnBytes TyBytes [1])), Some (RvNode (TnLink TyLink (CidLink [2])))])"
  have "reprAssignNode TyTrieNode False False ?v = Ok (Some ?r)"
    by (simp add: repr_eval union_eval go_TrieNode_def raStruct_def sa_fields_def sasm_eval del: andThen_eq_Ok)
  from keyed_union_unplaced [OF _ this] this show ?thesis by auto
qed

text \<open>The representation view of a trie node is no input for its representation assembler: every trie node is
  rejected, by a member that does not know the keys of the node, or by the panic after the last key.\<close>

theorem trie_view_rejected:
  assumes "tnWf t" "tnType t = TyTrieNode"
  shows "reprAssignNode TyTrieNode nul False (representation t) \<in>
    {Fail (ErrInvalidKey ''Child0''), Fail (ErrInvalidKey ''Child''), Panic ''unreachable''}"
proof -
  obtain tag x where t: "t = TnUnion TyTrieNode tag x" "1 \<le> tag" "tag \<le> 3" "tnWf x" "tnType x = snd (membersOf TyTrieNode ! (tag - 1))"
    using assms by (cases t) (auto simp: membersOf.simps go_TrieNode_def)
  then consider "tag = 1" "tnType x = TyTrieBranchNode" | "tag = 2" "tnType x = TyTrieExtensionNode" | "tag = 3"
    by (auto simp: membersOf.simps go_TrieNode_def numeral_eq_Suc le_Suc_eq)
  then show ?thesis
  proof cases
    case 1
    then obtain y ys where "x = TnStruct TyTrieBranchNode (y # ys)"
      using t(4) by (cases x) (auto simp: membersOf.simps fieldsOf.simps go_TrieBranchNode_def length_Suc_conv)
    with t(1) 1 show ?thesis
      by (simp add: repr_eval union_eval go_TrieNode_def go_TrieBranchNode_def goMaybe_def sasm_eval del: andThen_eq_Ok)
  next
    case 2
    then obtain y c where x: "x = TnStruct TyTrieExtensionNode [y, c]"
      using t(4) by (cases x) (auto simp: membersOf.simps fieldsOf.simps go_TrieExtensionNode_def length_Suc_conv)
    then obtain b where b: "y = Some b" "tnType b = TyBytes" "tnWf b"
      using t(4) by (cases y) (auto simp: fieldsOf.simps go_TrieExtensionNode_def goField_def)
    then obtain p where "b = TnBytes TyBytes p"
      by (cases b) (auto simp: membersOf.simps)
    with t(1) 2 x b(1) show ?thesis
      by (simp add: repr_eval union_eval go_TrieNode_def go_TrieLeafNode_def sasm_eval del: andThen_eq_Ok)
  next
    case 3
    with t show ?thesis by (simp add: repr_eval union_eval go_TrieNode_def)
  qed
qed

end
