(* ===== verification/Spec2Isabelle.thy ===== *)
theory Spec2Isabelle
  imports Codec_Properties Codec_Limits Assembler_Properties Decoder_Typing Path_Properties Assembler_Progress Representation
    Forwarders Member_Machine Builder Assembler_Reuse Native_Access Repr_Assembler
begin

text \<open>
  A verification of \<^verbatim>\<open>go-codec-dageth\<close>: the IPLD codecs for Ethereum's block data.  A codec turns the
  consensus encoding of a go-ethereum value (a block) into a node of an IPLD schema and back.

  \<^bold>\<open>The program.\<close>  \<^verbatim>\<open>gen.go\<close> accumulates the schema; \<^verbatim>\<open>ipldsch_types.go\<close>, \<^verbatim>\<open>ipldsch_minima.go\<close> and
  \<^verbatim>\<open>ipldsch_satisfaction.go\<close> are generated from it: the node types, their read methods, and their assemblers.
  The packages \<^verbatim>\<open>header\<close>, \<^verbatim>\<open>uncles\<close>, \<^verbatim>\<open>tx\<close>, \<^verbatim>\<open>rct\<close>, \<^verbatim>\<open>state_account\<close>, \<^verbatim>\<open>log\<close> and \<^verbatim>\<open>trie\<close> have a
  \<^verbatim>\<open>marshal.go\<close> (node to struct to RLP) and an \<^verbatim>\<open>unmarshal.go\<close> (RLP to struct to node, through an assembler);
  \<^verbatim>\<open>tx_trie\<close>, \<^verbatim>\<open>rct_trie\<close>, \<^verbatim>\<open>state_trie\<close>, \<^verbatim>\<open>storage_trie\<close> and \<^verbatim>\<open>log_trie\<close> instantiate \<^verbatim>\<open>trie\<close> for one
  multicodec each; every \<^verbatim>\<open>multicodec.go\<close> registers its package, and \<^verbatim>\<open>plugin/plugin.go\<close> registers all.
  \<^verbatim>\<open>shared/utils.go\<close> has the CIDs, the keys and the compact encoding of trie paths.

  \<^bold>\<open>The theories\<close>, in the order of the imports:
  \<^item> \<open>Prelude\<close>: results (\<open>Ok\<close>, \<open>Fail\<close> for a returned error, \<open>Panic\<close> for a Go panic), their sequencing, loops.
  \<^item> \<open>Go_Lib\<close>: \<^verbatim>\<open>encoding/binary\<close>, \<^verbatim>\<open>math/big\<close>, readers and writers, as far as the sources use them.
  \<^item> \<open>Schema\<close>: the schema of \<^verbatim>\<open>gen.go\<close> (\<open>gen_X\<close>, \<open>typeSystem\<close>) and the generated types (\<open>go_X\<close>, \<open>typeDecl\<close>); C28
    says where they differ.
  \<^item> \<open>Node\<close>: typed nodes, their representation views and basic nodes, with their read methods.  \<open>Node_Access\<close>: iterators,
    the loops over them, lookups by node, index and segment (C16, C24).  \<open>Native_Access\<close>: the Go-native accessors.
  \<^item> \<open>Assembler\<close>: the assemblers of structs (\<open>sasm\<close>), unions (\<open>uasm\<close>) and lists (\<open>lasm\<close>) as state records, with
    the bit set of the fields seen and the state words; one definition per method; \<open>assignNode\<close> recurses
    over the node, by its size.  \<open>Assembler_Laws\<close>: the locale \<open>entry_assembler\<close> and its interpretation by
    the struct assembler.  \<open>Assembler_Machine\<close>: the struct assembler as a step relation with its invariant (C29);
    \<open>Assembler_Progress\<close>: from which states it can finish when fields are given by \<open>AssignNode\<close> (C18);
    \<open>Assembler_Reuse\<close>: the assemblers embedded in an assembler as a tree, with \<open>reset\<close> (C40);
    \<open>Member_Machine\<close>: the assemblers of unions and lists as step relations (C32).  \<open>Builder\<close>: the builders
    of structs, unions, lists and scalars with their state word (C9).  \<open>Assembler_Typing\<close>: type soundness (C37).  \<open>Assembler_Properties\<close>: order, missing fields,
    basic maps (C23, C25, C26; the conversion entry by entry is in \<open>Basic_Maps\<close>).  \<open>Representation\<close>: the representation views as inputs of encoders (C39), and the
    steps of the representation assemblers of unions.  \<open>Repr_Machine\<close>: the representation assemblers of structs and lists, method by method,
    with their serial field names.  \<open>Repr_Assembler\<close>: \<^verbatim>\<open>AssignNode\<close> of the representation assemblers
    (\<open>reprAssignNode\<close>); without unions it is \<open>assignNode\<close> (C31), with keyed unions it misplaces the data (C15).
    The assemblers are polymorphic in the values they collect; \<open>Machine_Morphism\<close> has the laws by which the machine
    commutes with a map over these values, which is how C31 relates the two.
  \<^item> \<open>Eth_Types\<close>: the go-ethereum structs, and the record \<open>ext\<close> of the third-party functions with the laws that
    the packages rely on (\<open>conv_laws\<close>, \<open>cid_laws\<close>, \<open>rlp_laws\<close>, \<open>tx_laws\<close>, \<open>trie_laws\<close>).
  \<^item> \<open>Shared_Utils\<close> and \<open>Path_Properties\<close>: \<^verbatim>\<open>shared/utils.go\<close> (C30, C33).
  \<^item> \<open>Codec_Iface\<close>: the locales \<open>dag_codec\<close>, the contract of a registered codec, and \<open>struct_codec\<close>, which
    implies it; the idioms that all pack and unpack functions share.
  \<^item> \<open>Log_Codec\<close>, \<open>State_Account\<close>, \<open>Header\<close>, \<open>Uncles\<close>, \<open>Tx\<close>, \<open>Rct\<close>, \<open>Trie\<close> (with \<open>Trie_Laws\<close>): the packages, one
    definition per function under the function's name, prefixed by the package where names repeat
    (\<open>header_packNonce\<close> is \<^verbatim>\<open>packNonce\<close> of \<^verbatim>\<open>header/marshal.go\<close>); each interprets \<open>struct_codec\<close>.
  \<^item> \<open>Multicodec\<close>: the wrapper packages, registration, choosers, the plugin (the registry that \<^verbatim>\<open>Register\<close> is given by value
    stands for its shared maps).  \<open>Forwarders\<close>: the deprecated names.
  \<^item> \<open>Reference_Env\<close>: a concrete environment that satisfies the laws, for instances of the theorems.
  \<^item> \<open>Codec_Properties\<close>: round trips (C1 to C8, C10).  \<open>Codec_Limits\<close>: what is rejected, lost or panics (C11 to C14,
    C17, C19 to C22, C27).
    \<open>Decoder_Typing\<close>: every decoded node is well typed.
  \<^item> This theory: the properties of the plugin as a whole (C34 to C36, C38).

  \<^bold>\<open>Reading the statements.\<close>  A hypothesis such as \<open>header_lawful E\<close> collects laws of third-party code: RLP decoding
  inverts RLP encoding on canonical structs, \<^verbatim>\<open>multihash.Decode\<close> inverts \<^verbatim>\<open>multihash.Encode\<close>, \<^verbatim>\<open>BytesToHash\<close> is
  the identity on 32 bytes.  \<open>headerGood\<close>, \<open>accountGood\<close>, \<open>trieGood\<close> delimit the values that the schema can carry.
  There is no fuel: all loops of the sources run over lists or over a node, and the functions are total.

  \<^bold>\<open>Not modelled.\<close>  The target of \<^verbatim>\<open>Decode\<close> is an assembler of the package's own type; decoding into an assembler of
  another prototype (such as a basic \<^verbatim>\<open>Any\<close>) is not modelled.  Of a failing \<^verbatim>\<open>AppendEncode\<close> only the error is
  kept, not the partly written buffer.  Scalar types have one assembler for both
  levels (a type alias in the code); what the assembler of a keyed union writes into a member
  other than the tagged one is a value of \<open>rval\<close>, with tag and slot, since \<open>tnode\<close> has no room for it, and only \<^verbatim>\<open>AssignNode\<close>
  produces such values.  A representation assembler starts from a fresh state word; assigning twice is modelled for
  the type-level builders.  \<open>reset\<close> is modelled for the type-level
  assemblers.  Of an error the type name that it carries is left out.  Path segments are values of another package and enter through their two read methods.
  The file output of \<^verbatim>\<open>gen.go\<close> and the test helpers are left out.  The generated code repeats the same methods for
  each type; one definition, over the schema, stands for all instances.
\<close>

section \<open>Registration\<close>

text \<open>The effect of importing all packages: every \<open>init\<close> runs on the global registry.\<close>

definition packages_init :: "ext \<Rightarrow> 'r registryOps \<Rightarrow> 'r \<Rightarrow> 'r" where
  "packages_init E R reg =
     storage_trie_init E R (account_init E R (state_trie_init E R (log_trie_init E R (log_init E R
       (rct_trie_init E R (rct_init E R (tx_trie_init E R (tx_init E R
         (uncles_init E R (header_init E R reg))))))))))"

lemmas package_init_defs = header_init_def uncles_init_def tx_init_def tx_trie_init_def rct_init_def
  rct_trie_init_def log_init_def log_trie_init_def state_trie_init_def account_init_def storage_trie_init_def

lemma packages_init_lookup:
  assumes "registry_laws R"
  shows "lookupDecoder R (packages_init E R reg) = lookupDecoder R reg ++ map_of (rev (plugin_decoders E))"
    and "lookupEncoder R (packages_init E R reg) = lookupEncoder R reg ++ map_of (rev (plugin_encoders E))"
  by (simp_all add: packages_init_def package_init_defs registry_lawsD [OF assms] plugin_decoders_def
      plugin_encoders_def)

lemma plugin_Register_lookup:
  assumes "registry_laws R" "plugin_Register E R reg = Ok reg'"
  shows "lookupDecoder R reg' = lookupDecoder R reg ++ map_of (plugin_decoders E)"
    and "lookupEncoder R reg' = lookupEncoder R reg ++ map_of (plugin_encoders E)"
  using assms(2) registerDecoders [OF assms(1)] registerEncoders [OF assms(1)]
  by (auto simp: plugin_Register_def map_of_rev distinct_plugin_codes)

text \<open>C34: \<open>Register\<close> succeeds and registers a decoder and an encoder for each of the eleven multicodecs, keeping
  what is registered for other codes; importing the packages has the same effect as registering the plugin.\<close>

theorem plugin_registers_all:
  assumes "registry_laws R"
  shows "\<exists>reg'. plugin_Register E R reg = Ok reg' \<and>
    (\<forall>code. code \<in> set (map fst (plugin_decoders E)) \<longrightarrow>
       lookupDecoder R reg' code = map_of (plugin_decoders E) code \<and>
       lookupEncoder R reg' code = map_of (plugin_encoders E) code) \<and>
    (\<forall>code. code \<notin> set (map fst (plugin_decoders E)) \<longrightarrow>
       lookupDecoder R reg' code = lookupDecoder R reg code \<and> lookupEncoder R reg' code = lookupEncoder R reg code) \<and>
    lookupDecoder R (packages_init E R reg) = lookupDecoder R reg' \<and>
    lookupEncoder R (packages_init E R reg) = lookupEncoder R reg'"
proof -
  obtain reg' where reg': "plugin_Register E R reg = Ok reg'" by (simp add: plugin_Register_def)
  note look = plugin_Register_lookup [OF assms reg']
  have codes: "set (map fst (plugin_encoders E)) = set (map fst (plugin_decoders E))" by (simp only: plugin_codes(2))
  have "\<exists>d e. map_of (plugin_decoders E) code = Some d \<and> map_of (plugin_encoders E) code = Some e"
    if "code \<in> set (map fst (plugin_decoders E))" for code
    using that codes map_of_eq_None_iff [of "plugin_decoders E" code] map_of_eq_None_iff [of "plugin_encoders E" code]
    by auto
  moreover have "map_of (plugin_decoders E) code = None \<and> map_of (plugin_encoders E) code = None"
    if "code \<notin> set (map fst (plugin_decoders E))" for code
    using that codes by (simp add: map_of_eq_None_iff)
  ultimately show ?thesis
    using reg' packages_init_lookup [OF assms, of E reg]
    by (intro exI [of _ reg']) (fastforce simp: look map_of_rev distinct_plugin_codes map_add_def)
qed

text \<open>A registry of two maps.\<close>

definition mapRegistry :: "((u64 \<rightharpoonup> decoder) \<times> (u64 \<rightharpoonup> encoder)) registryOps" where
  "mapRegistry =
     \<lparr>registerDecoder = (\<lambda>c d (ds, es). (ds(c \<mapsto> d), es)), registerEncoder = (\<lambda>c e (ds, es). (ds, es(c \<mapsto> e))),
      lookupDecoder = fst, lookupEncoder = snd\<rparr>"

lemma mapRegistry_laws: "registry_laws mapRegistry"
  by (simp add: registry_laws_def mapRegistry_def split_beta)

theorem plugin_registers_all_witness:
  "\<exists>reg'. plugin_Register refEnv mapRegistry (Map.empty, Map.empty) = Ok reg' \<and>
     lookupDecoder mapRegistry reg' 0x90 = Some (header_Decode refEnv) \<and>
     lookupEncoder mapRegistry reg' 0x99 = Some (log_trie_Encode refEnv) \<and>
     lookupDecoder mapRegistry reg' 0x55 = None"
proof -
  obtain reg' where reg': "plugin_Register refEnv mapRegistry (Map.empty, Map.empty) = Ok reg'"
    and known: "\<forall>code. code \<in> set (map fst (plugin_decoders refEnv)) \<longrightarrow>
       lookupDecoder mapRegistry reg' code = map_of (plugin_decoders refEnv) code \<and>
       lookupEncoder mapRegistry reg' code = map_of (plugin_encoders refEnv) code"
    and other: "\<forall>code. code \<notin> set (map fst (plugin_decoders refEnv)) \<longrightarrow>
       lookupDecoder mapRegistry reg' code = lookupDecoder mapRegistry (Map.empty, Map.empty) code"
    using plugin_registers_all [OF mapRegistry_laws, of refEnv "(Map.empty, Map.empty)"] by blast
  have codes: "0x90 \<in> set (map fst (plugin_decoders refEnv))" "0x99 \<in> set (map fst (plugin_decoders refEnv))"
    "0x55 \<notin> set (map fst (plugin_decoders refEnv))"
    by (simp_all only: plugin_codes) simp_all
  from known codes(1) have "lookupDecoder mapRegistry reg' 0x90 = Some (header_Decode refEnv)"
    by (simp add: plugin_decoders_def MultiCodecType_defs codec_defs)
  moreover from known codes(2) have "lookupEncoder mapRegistry reg' 0x99 = Some (log_trie_Encode refEnv)"
    by (simp add: plugin_encoders_def MultiCodecType_defs codec_defs)
  moreover from other codes(3) have "lookupDecoder mapRegistry reg' 0x55 = None" by (simp add: mapRegistry_def)
  ultimately show ?thesis using reg' by blast
qed

section \<open>Choosers\<close>

text \<open>A chooser extended by every package in turn.\<close>

definition allChoosers :: "ext \<Rightarrow> 'ctx chooser \<Rightarrow> 'ctx chooser" where
  "allChoosers E existing =
     header_AddSupportToChooser E (uncles_AddSupportToChooser E (tx_AddSupportToChooser E
       (tx_trie_AddSupportToChooser E (rct_AddSupportToChooser E (rct_trie_AddSupportToChooser E
         (log_AddSupportToChooser E (log_trie_AddSupportToChooser E (state_trie_AddSupportToChooser E
           (account_AddSupportToChooser E (storage_trie_AddSupportToChooser E existing))))))))))"

lemmas chooser_defs = header_AddSupportToChooser_def uncles_AddSupportToChooser_def tx_AddSupportToChooser_def
  tx_trie_AddSupportToChooser_def rct_AddSupportToChooser_def rct_trie_AddSupportToChooser_def
  log_AddSupportToChooser_def log_trie_AddSupportToChooser_def state_trie_AddSupportToChooser_def
  account_AddSupportToChooser_def storage_trie_AddSupportToChooser_def

text \<open>C35: Links that are not CIDs, and CIDs of other multicodecs, go to the chooser that was there before.\<close>

theorem chooser_falls_through:
  assumes "\<And>c. lnk = CidLink c \<Longrightarrow> cidCodec E c \<notin> set (map fst (plugin_decoders E))"
  shows "allChoosers E existing lnk ctx = existing lnk ctx"
proof (cases lnk)
  case (CidLink c)
  with assms have "cidCodec E c \<notin> set (map fst (plugin_decoders E))" by simp
  with CidLink show ?thesis
    by (simp add: plugin_decoders_def allChoosers_def chooser_defs addSupport_def)
qed (simp add: allChoosers_def chooser_defs addSupport_def)

theorem chooser_falls_through_witness:
  "allChoosers refEnv (\<lambda>lnk ctx. Ok (OtherPrototype ''Any'')) (CidLink (newCidV1 refEnv 0x55 [])) () =
     Ok (OtherPrototype ''Any'')"
proof (rule chooser_falls_through)
  fix c assume "CidLink (newCidV1 refEnv 0x55 []) = CidLink c"
  then have "cidCodec refEnv c = 0x55" by (auto simp: refEnv_defs refCodec_refCid)
  then show "cidCodec refEnv c \<notin> set (map fst (plugin_decoders refEnv))"
    by (simp only: plugin_codes) simp
qed

lemmas trie_Decode_defs = tx_trie_Decode_def rct_trie_Decode_def log_trie_Decode_def state_trie_Decode_def
  storage_trie_Decode_def

lemma typed_Decode:
  "okAll (typedAs TyHeader) (header_Decode E rd)" "okAll (typedAs TyUncles) (uncles_Decode E rd)"
  "okAll (typedAs TyTransaction) (tx_Decode E rd)" "okAll (typedAs TyReceipt) (rct_Decode E rd)"
  "okAll (typedAs TyAccount) (account_Decode E rd)" "okAll (typedAs TyLog) (log_Decode E rd)"
  unfolding header_Decode_def uncles_Decode_def tx_Decode_def rct_Decode_def account_Decode_def log_Decode_def
  by (rule okAll_any, rule typed_DecodeBytes)+

text \<open>The types that the packages decode into, in the order in which the plugin registers them.\<close>

definition plugin_types :: "tyname list" where
  "plugin_types = [TyHeader, TyUncles, TyTransaction, TyTrieNode, TyReceipt, TyTrieNode, TyLog, TyTrieNode,
     TyTrieNode, TyAccount, TyTrieNode]"

lemma plugin_types_typed:
  "list_all2 (\<lambda>(code, d) ty. okAll (typedAs ty) (d rd) \<and>
     (cidCodec E c = code \<longrightarrow> allChoosers E existing (CidLink c) ctx = Ok (DagethType ty)))
   (plugin_decoders E) plugin_types"
  by (simp add: plugin_decoders_def plugin_types_def typed_Decode trie_Decode_defs typed_DecodeTrieNode
      allChoosers_def chooser_defs addSupport_def MultiCodecType_defs codec_defs)

lemma list_all2_mem: "list_all2 P xs ys \<Longrightarrow> x \<in> set xs \<Longrightarrow> \<exists>y. P x y"
  by (induction rule: list_all2_induct) auto

text \<open>C36: For every registered multicodec, a node that the decoder yields is a well-formed value of the very type
  that the choosers give for links of that multicodec.\<close>

theorem decoded_matches_chooser:
  assumes "(code, d) \<in> set (plugin_decoders E)" "d rd = Ok t" "cidCodec E c = code"
  shows "allChoosers E existing (CidLink c) ctx = Ok (DagethType (tnType t)) \<and> tnWf t"
  using list_all2_mem [OF plugin_types_typed [of rd E c existing ctx] assms(1)] assms(2,3)
  by (auto simp: okAll_def typedAs_def)

theorem decoded_matches_chooser_witness:
  "allChoosers refEnv (\<lambda>lnk ctx. Fail (Err ''no prototype'')) (CidLink (newCidV1 refEnv 0x90 [])) () =
     Ok (DagethType TyHeader) \<and> tnWf (headerNode refEnv sampleHeader)"
proof -
  have mem: "(0x90, header_Decode refEnv) \<in> set (plugin_decoders refEnv)"
    by (simp add: plugin_decoders_def MultiCodecType_defs codec_defs)
  have "header_DecodeBytes refEnv [0xf9] = Ok (headerNode refEnv sampleHeader)"
    unfolding header_DecodeBytes_decodes
    by (rule header.block_roundtrip(1) [OF header_lawful_ref _ headerGood_sample])
      (simp add: refEnv_defs headerTable_def tableDec_def)
  then have dec: "header_Decode refEnv (HasBytes [0xf9]) = Ok (headerNode refEnv sampleHeader)"
    by (simp add: header_Decode_def)
  have code: "cidCodec refEnv (newCidV1 refEnv 0x90 []) = 0x90" by (simp add: refEnv_defs)
  have "tnType (headerNode refEnv sampleHeader) = TyHeader" by (simp add: headerNode_def)
  with decoded_matches_chooser [OF mem dec code, of "\<lambda>lnk ctx. Fail (Err ''no prototype'')" "()"] show ?thesis by auto
qed

section \<open>Round trips through the registry\<close>

text \<open>What the packages rely on, for all codecs, and the blocks that a codec carries.\<close>

definition plugin_lawful :: "ext \<Rightarrow> bool" where
  "plugin_lawful E \<longleftrightarrow> header_lawful E \<and> uncles_lawful E \<and> trie_lawful E"

definition blockSupported :: "ext \<Rightarrow> u64 \<Rightarrow> bytes \<Rightarrow> bool" where
  "blockSupported E code b =
     (if code = header_MultiCodecType then \<forall>h. rlpDecodeHeader E b = Ok h \<longrightarrow> h_WithdrawalsHash h = None
      else if code = uncles_MultiCodecType then
        \<forall>hs. rlpDecodeHeaders E b = Ok hs \<longrightarrow> list_all (\<lambda>h. h_WithdrawalsHash h = None) hs
      else if code = account_MultiCodecType then
        \<forall>a. rlpDecodeAccount E b = Ok a \<longrightarrow> length (a_CodeHash a) < maxDigest
      else if code \<in> {tx_MultiCodecType, rct_MultiCodecType, log_MultiCodecType} then True
      else \<forall>fs. rlpDecodeFields E b = Ok fs \<longrightarrow> trieGood E code fs)"

lemma blockSupported_carried:
  assumes "plugin_lawful E" "blockSupported E code b"
  shows "code = header_MultiCodecType \<Longrightarrow> header.carried E b"
    and "code = uncles_MultiCodecType \<Longrightarrow> uncles.carried E b"
    and "code = account_MultiCodecType \<Longrightarrow> account.carried E b"
    and "code \<in> {EthTxTrie, EthTxReceiptTrie, EthStateTrie, EthStorageTrie, 0x99} \<Longrightarrow> trie.carried E code b"
proof -
  have laws: "header_lawful E" "uncles_lawful E" "account_lawful E"
    using assms(1) by (auto simp: plugin_lawful_def trie_lawful_def)
  show "header.carried E b" if "code = header_MultiCodecType"
    using that assms(2) rlp_lawsD(1) [OF header.rlp [OF laws(1)]]
    by (auto simp: blockSupported_def header.carried_def headerGood_def)
  show "uncles.carried E b" if "code = uncles_MultiCodecType"
    using that assms(2) rlp_lawsD(1) [OF uncles.rlp [OF laws(2)]]
    by (auto simp: blockSupported_def uncles.carried_def headerGood_def list_all_iff MultiCodecType_defs codec_defs)
  show "account.carried E b" if "code = account_MultiCodecType"
    using that assms(2) rlp_lawsD(1) [OF account.rlp [OF laws(3)]]
    by (auto simp: blockSupported_def account.carried_def accountGood_def MultiCodecType_defs codec_defs)
  show "trie.carried E code b" if "code \<in> {EthTxTrie, EthTxReceiptTrie, EthStateTrie, EthStorageTrie, 0x99}"
    using that assms(2) by (auto simp: blockSupported_def trie.carried_def MultiCodecType_defs codec_defs)
qed

lemmas trie_Encode_defs = tx_trie_Encode_def rct_trie_Encode_def log_trie_Encode_def state_trie_Encode_def
  storage_trie_Encode_def

text \<open>Decoding a block the codec carries and encoding the node, for each pair of registered functions.\<close>

definition pairRoundtrip :: "ext \<Rightarrow> bytes \<Rightarrow> u64 \<times> decoder \<Rightarrow> u64 \<times> encoder \<Rightarrow> bool" where
  "pairRoundtrip E b x y \<longleftrightarrow> (blockSupported E (fst x) b \<longrightarrow>
     (\<forall>rd t. readSrc rd = Ok b \<longrightarrow> snd x rd = Ok t \<longrightarrow> snd y (NTyped t) bytesBuffer = Ok b))"

lemma pairRoundtrip_struct:
  assumes "plugin_lawful E"
  shows "pairRoundtrip E b (header_MultiCodecType, header_Decode E) (header_MultiCodecType, header_Encode E)"
    and "pairRoundtrip E b (uncles_MultiCodecType, uncles_Decode E) (uncles_MultiCodecType, uncles_Encode E)"
    and "pairRoundtrip E b (tx_MultiCodecType, tx_Decode E) (tx_MultiCodecType, tx_Encode E)"
    and "pairRoundtrip E b (rct_MultiCodecType, rct_Decode E) (rct_MultiCodecType, rct_Encode E)"
    and "pairRoundtrip E b (account_MultiCodecType, account_Decode E) (account_MultiCodecType, account_Encode E)"
    and "pairRoundtrip E b (log_MultiCodecType, log_Decode E) (log_MultiCodecType, log_Encode E)"
proof -
  have laws: "header_lawful E" "uncles_lawful E" "trie_lawful E" using assms by (auto simp: plugin_lawful_def)
  note tl = trie_lawfulD [OF laws(3)]
  note carried = blockSupported_carried [OF assms]
  show "pairRoundtrip E b (header_MultiCodecType, header_Decode E) (header_MultiCodecType, header_Encode E)"
    using header.encode_decoded [OF laws(1) carried(1)]
    by (auto simp: pairRoundtrip_def header_Decode_def header_DecodeBytes_decodes header_Encode_buffer)
  show "pairRoundtrip E b (uncles_MultiCodecType, uncles_Decode E) (uncles_MultiCodecType, uncles_Encode E)"
    using uncles.encode_decoded [OF laws(2) carried(2)]
    by (auto simp: pairRoundtrip_def uncles_Decode_def uncles_DecodeBytes_decodes uncles_Encode_buffer)
  show "pairRoundtrip E b (account_MultiCodecType, account_Decode E) (account_MultiCodecType, account_Encode E)"
    using account.encode_decoded [OF tl(3) carried(3)]
    by (auto simp: pairRoundtrip_def account_Decode_def account_DecodeBytes_decodes account_Encode_buffer)
  show "pairRoundtrip E b (tx_MultiCodecType, tx_Decode E) (tx_MultiCodecType, tx_Encode E)"
    using tx.encode_decoded [OF tl(1) carried_canon(1) [OF tl(1)]]
    by (auto simp: pairRoundtrip_def tx_Decode_def tx_DecodeBytes_decodes [OF tl(5)] tx_Encode_buffer)
  show "pairRoundtrip E b (rct_MultiCodecType, rct_Decode E) (rct_MultiCodecType, rct_Encode E)"
    using rct.encode_decoded [OF tl(2) carried_canon(2) [OF tl(2)]]
    by (auto simp: pairRoundtrip_def rct_Decode_def rct_DecodeBytes_decodes [OF tl(2)] rct_Encode_buffer)
  show "pairRoundtrip E b (log_MultiCodecType, log_Decode E) (log_MultiCodecType, log_Encode E)"
    using log.encode_decoded [OF tl(4) carried_canon(3) [OF tl(4)]]
    by (auto simp: pairRoundtrip_def log_Decode_def log_DecodeBytes_decodes log_Encode_buffer)
qed

lemma pairRoundtrip_trie:
  assumes "plugin_lawful E" "code \<in> {EthTxTrie, EthTxReceiptTrie, EthStateTrie, EthStorageTrie, 0x99}"
  shows "pairRoundtrip E b (code, DecodeTrieNode E code) (code, trie_Encode E)"
proof -
  have "trie_lawful E" using assms(1) by (simp add: plugin_lawful_def)
  from trie.encode_decoded [OF this blockSupported_carried(4) [OF assms(1) _ assms(2)]] show ?thesis
    by (auto simp: pairRoundtrip_def DecodeTrieNode_def trie_DecodeBytes_decodes trie_Encode_buffer)
qed

lemma plugin_pairs:
  assumes "plugin_lawful E"
  shows "list_all2 (pairRoundtrip E b) (plugin_decoders E) (plugin_encoders E)"
proof -
  have dec: "tx_trie_Decode E = DecodeTrieNode E tx_trie_MultiCodecType"
    "rct_trie_Decode E = DecodeTrieNode E rct_trie_MultiCodecType"
    "log_trie_Decode E = DecodeTrieNode E log_trie_MultiCodecType"
    "state_trie_Decode E = DecodeTrieNode E state_trie_MultiCodecType"
    "storage_trie_Decode E = DecodeTrieNode E storage_trie_MultiCodecType"
    by (simp_all add: fun_eq_iff trie_Decode_defs)
  have enc: "tx_trie_Encode E = trie_Encode E" "rct_trie_Encode E = trie_Encode E" "log_trie_Encode E = trie_Encode E"
    "state_trie_Encode E = trie_Encode E" "storage_trie_Encode E = trie_Encode E"
    by (simp_all add: fun_eq_iff trie_Encode_defs)
  show ?thesis
    unfolding plugin_decoders_def plugin_encoders_def dec enc
    by (simp add: pairRoundtrip_struct [OF assms])
      (intro conjI pairRoundtrip_trie [OF assms]; simp add: MultiCodecType_defs)
qed

text \<open>C38: Once the plugin is registered, decoding a block by the decoder looked up for its multicodec and encoding
  the node by the encoder looked up gives the block back, for every multicodec of the plugin and every
  block that the codec carries.\<close>

theorem registered_roundtrip:
  assumes "registry_laws R" "plugin_lawful E" "plugin_Register E R reg = Ok reg'"
    and "code \<in> set (map fst (plugin_decoders E))"
    and "lookupDecoder R reg' code = Some d" "lookupEncoder R reg' code = Some e"
    and "readSrc rd = Ok b" "blockSupported E code b" "d rd = Ok t"
  shows "e (NTyped t) bytesBuffer = Ok b"
proof -
  obtain i where i: "i < length (plugin_decoders E)" "fst (plugin_decoders E ! i) = code"
    using assms(4) by (auto simp: in_set_conv_nth)
  have len: "length (plugin_encoders E) = length (plugin_decoders E)"
    using arg_cong [OF plugin_codes(2) [of E], of length] by simp
  have fst: "fst (plugin_encoders E ! i) = code"
    using i len arg_cong [OF plugin_codes(2) [of E], of "\<lambda>xs. xs ! i"] by simp
  have "map_of (plugin_decoders E) code = Some (snd (plugin_decoders E ! i))"
    "map_of (plugin_encoders E) code = Some (snd (plugin_encoders E ! i))"
    using i len fst distinct_plugin_codes [of E] by (auto intro!: map_of_is_SomeI simp: in_set_conv_nth prod_eq_iff)
  then have "d = snd (plugin_decoders E ! i)" "e = snd (plugin_encoders E ! i)"
    using assms(5,6) plugin_Register_lookup [OF assms(1,3)] by auto
  with list_all2_nthD [OF plugin_pairs [OF assms(2), of b] i(1)] i(2) assms(7,8,9) show ?thesis
    by (auto simp: pairRoundtrip_def)
qed

theorem registered_roundtrip_witness:
  "\<exists>reg' d e t. plugin_Register refEnv mapRegistry (Map.empty, Map.empty) = Ok reg' \<and>
     lookupDecoder mapRegistry reg' 0x90 = Some d \<and> lookupEncoder mapRegistry reg' 0x90 = Some e \<and>
     d (HasBytes [0xf9]) = Ok t \<and> e (NTyped t) bytesBuffer = Ok [0xf9]"
proof -
  obtain reg' where reg': "plugin_Register refEnv mapRegistry (Map.empty, Map.empty) = Ok reg'"
    by (simp add: plugin_Register_def)
  have lawful: "plugin_lawful refEnv"
    by (simp add: plugin_lawful_def header_lawful_ref uncles_lawful_ref trie_lawful_ref)
  have code: "0x90 \<in> set (map fst (plugin_decoders refEnv))" by (simp only: plugin_codes) simp
  have dec: "lookupDecoder mapRegistry reg' 0x90 = Some (header_Decode refEnv)"
    and enc: "lookupEncoder mapRegistry reg' 0x90 = Some (header_Encode refEnv)"
    by (simp_all add: plugin_Register_lookup [OF mapRegistry_laws reg'] plugin_decoders_def plugin_encoders_def
        MultiCodecType_defs codec_defs)
  have rlp: "rlpDecodeHeader refEnv [0xf9] = Ok sampleHeader"
    by (simp add: refEnv_defs headerTable_def tableDec_def)
  then have sup: "blockSupported refEnv 0x90 [0xf9]"
    by (simp add: blockSupported_def MultiCodecType_defs codec_defs sampleHeader_def)
  have "header_Decode refEnv (HasBytes [0xf9]) = Ok (headerNode refEnv sampleHeader)"
    using header.block_roundtrip(1) [OF header_lawful_ref rlp headerGood_sample]
    by (simp add: header_Decode_def header_DecodeBytes_decodes)
  with registered_roundtrip [OF mapRegistry_laws lawful reg' code dec enc _ sup this] reg' dec enc
  show ?thesis by auto
qed

end
